(* ===== verification/Oracle_Prelude.thy ===== *)
theory Oracle_Prelude
  imports
    Complex_Main
    "HOL-Library.Sublist"
    "HOL-Library.Char_ord"
    "HOL-Library.List_Lexorder"
    "HOL-Library.Product_Lexorder"
begin

text \<open>
  What every component of the model shares: the outcome of a Rust computation, the
  fixed-width integer operations of Rust that the oracle uses, its string operations, and
  the generic lemmas on them.

  Rust integers are \<^typ>\<open>int\<close> or \<^typ>\<open>nat\<close> here and every operation writes out what the
  machine does at the end of the range. The release profile of the repository sets
  \<^verbatim>\<open>overflow-checks = true\<close> (\<^verbatim>\<open>Cargo.toml\<close>), so a plain \<^verbatim>\<open>+\<close>, \<^verbatim>\<open>-\<close> or \<^verbatim>\<open>*\<close> that leaves the
  range panics; \<^verbatim>\<open>checked_*\<close> returns \<^verbatim>\<open>None\<close> and \<^verbatim>\<open>saturating_*\<close> clamps.
\<close>

section \<open>Collections\<close>

named_theorems int_ops \<open>definitions of the fixed-width integer operations\<close>
named_theorems outcome_ops \<open>elimination and introduction of successful outcomes\<close>

section \<open>Outcomes\<close>

text \<open>
  A Rust function returning \<^verbatim>\<open>Result<T, E>\<close> ends in one of three ways: \<^verbatim>\<open>Ok\<close>, \<^verbatim>\<open>Err\<close>, or a panic
  (an index out of range, an overflowing unchecked operation, a failed \<^verbatim>\<open>assert!\<close>).
\<close>

datatype ('e, 'a) outcome = Ok 'a | Err 'e | Panic

fun bind_outcome :: "('e, 'a) outcome \<Rightarrow> ('a \<Rightarrow> ('e, 'b) outcome) \<Rightarrow> ('e, 'b) outcome" where
  "bind_outcome (Ok a) f = f a"
| "bind_outcome (Err e) f = Err e"
| "bind_outcome Panic f = Panic"

text \<open>An operation that panics where the checked form yields \<^verbatim>\<open>None\<close>.\<close>

definition or_panic :: "'a option \<Rightarrow> ('e, 'a) outcome" where
  "or_panic x = (case x of None \<Rightarrow> Panic | Some a \<Rightarrow> Ok a)"

definition or_err :: "'e \<Rightarrow> 'a option \<Rightarrow> ('e, 'a) outcome" where
  "or_err e x = (case x of None \<Rightarrow> Err e | Some a \<Rightarrow> Ok a)"

fun map_err :: "('e \<Rightarrow> 'f) \<Rightarrow> ('e, 'a) outcome \<Rightarrow> ('f, 'a) outcome" where
  "map_err g (Ok a) = Ok a"
| "map_err g (Err e) = Err (g e)"
| "map_err g Panic = Panic"

lemma bind_outcome_Ok_iff [outcome_ops]:
  "bind_outcome m f = Ok b \<longleftrightarrow> (\<exists>a. m = Ok a \<and> f a = Ok b)"
  by (cases m) auto

lemma bind_outcome_Panic_iff [outcome_ops]:
  "bind_outcome m f = Panic \<longleftrightarrow> m = Panic \<or> (\<exists>a. m = Ok a \<and> f a = Panic)"
  by (cases m) auto

lemma bind_outcome_Err_iff [outcome_ops]:
  "bind_outcome m f = Err e \<longleftrightarrow> m = Err e \<or> (\<exists>a. m = Ok a \<and> f a = Err e)"
  by (cases m) auto

lemma or_panic_simps [simp]:
  "or_panic None = Panic" "or_panic (Some a) = Ok a"
  by (simp_all add: or_panic_def)

lemma or_err_simps [simp]:
  "or_err e None = Err e" "or_err e (Some a) = Ok a"
  by (simp_all add: or_err_def)

lemma or_panic_Ok_iff [outcome_ops]: "or_panic x = Ok a \<longleftrightarrow> x = Some a"
  by (cases x) auto

lemma or_panic_Panic_iff [outcome_ops]: "or_panic x = Panic \<longleftrightarrow> x = None"
  by (cases x) auto

lemma or_panic_not_Err [simp]: "or_panic x \<noteq> Err e"
  by (cases x) auto

lemma or_err_Ok_iff [outcome_ops]: "or_err e x = Ok a \<longleftrightarrow> x = Some a"
  by (cases x) auto

lemma or_err_Err_iff [outcome_ops]: "or_err e x = Err e' \<longleftrightarrow> x = None \<and> e' = e"
  by (cases x) auto

lemma or_err_not_Panic [simp]: "or_err e x \<noteq> Panic"
  by (cases x) auto

lemma map_err_Ok_iff [outcome_ops]: "map_err g m = Ok a \<longleftrightarrow> m = Ok a"
  by (cases m) auto

lemma map_err_Err_iff [outcome_ops]: "map_err g m = Err e \<longleftrightarrow> (\<exists>e'. m = Err e' \<and> e = g e')"
  by (cases m) auto

lemma map_err_Panic_iff [outcome_ops]: "map_err g m = Panic \<longleftrightarrow> m = Panic"
  by (cases m) auto

definition is_ok :: "('e, 'a) outcome \<Rightarrow> bool" where
  "is_ok m = (case m of Ok _ \<Rightarrow> True | _ \<Rightarrow> False)"

lemma is_ok_simps [simp]: "is_ok (Ok a)" "\<not> is_ok (Err e)" "\<not> is_ok Panic"
  by (simp_all add: is_ok_def)

section \<open>Fixed-width integers\<close>

type_synonym i128 = int
type_synonym i64 = int
type_synonym u64 = nat
type_synonym u32 = nat
type_synonym u16 = nat

definition i128_max :: int where "i128_max = 2 ^ 127 - 1"
definition i128_min :: int where "i128_min = - (2 ^ 127)"
definition i64_max :: int where "i64_max = 2 ^ 63 - 1"
definition i64_min :: int where "i64_min = - (2 ^ 63)"
definition u64_max :: nat where "u64_max = 2 ^ 64 - 1"
definition u32_max :: nat where "u32_max = 2 ^ 32 - 1"

definition in_i128 :: "int \<Rightarrow> bool" where
  "in_i128 x \<longleftrightarrow> i128_min \<le> x \<and> x \<le> i128_max"

definition in_i64 :: "int \<Rightarrow> bool" where
  "in_i64 x \<longleftrightarrow> i64_min \<le> x \<and> x \<le> i64_max"

definition checked_i128 :: "int \<Rightarrow> int option" where
  "checked_i128 x = (if in_i128 x then Some x else None)"

definition checked_i64 :: "int \<Rightarrow> int option" where
  "checked_i64 x = (if in_i64 x then Some x else None)"

definition checked_u64 :: "nat \<Rightarrow> nat option" where
  "checked_u64 x = (if x \<le> u64_max then Some x else None)"

definition saturate_i128 :: "int \<Rightarrow> int" where
  "saturate_i128 x = max i128_min (min i128_max x)"

definition saturate_u64 :: "nat \<Rightarrow> nat" where
  "saturate_u64 x = min u64_max x"

text \<open>Rust's \<^verbatim>\<open>/\<close> on signed integers truncates towards zero.\<close>

definition trunc_div :: "int \<Rightarrow> int \<Rightarrow> int" where
  "trunc_div a b = sgn a * sgn b * (\<bar>a\<bar> div \<bar>b\<bar>)"

lemmas int_range_defs [int_ops] =
  i128_max_def i128_min_def i64_max_def i64_min_def u64_max_def u32_max_def
  in_i128_def in_i64_def

lemma checked_i128_Some_iff [int_ops]: "checked_i128 x = Some y \<longleftrightarrow> in_i128 x \<and> y = x"
  by (auto simp: checked_i128_def)

lemma checked_i128_None_iff [int_ops]: "checked_i128 x = None \<longleftrightarrow> \<not> in_i128 x"
  by (simp add: checked_i128_def)

lemma checked_i64_Some_iff [int_ops]: "checked_i64 x = Some y \<longleftrightarrow> in_i64 x \<and> y = x"
  by (auto simp: checked_i64_def)

lemma checked_i64_None_iff [int_ops]: "checked_i64 x = None \<longleftrightarrow> \<not> in_i64 x"
  by (simp add: checked_i64_def)

lemma checked_u64_Some_iff [int_ops]: "checked_u64 x = Some y \<longleftrightarrow> x \<le> u64_max \<and> y = x"
  by (auto simp: checked_u64_def)

lemma saturate_i128_in_range: "in_i128 (saturate_i128 x)"
  by (auto simp: saturate_i128_def int_ops)

lemma saturate_i128_id: "in_i128 x \<Longrightarrow> saturate_i128 x = x"
  by (auto simp: saturate_i128_def int_ops)

lemma saturate_i128_mono: "x \<le> y \<Longrightarrow> saturate_i128 x \<le> saturate_i128 y"
  by (auto simp: saturate_i128_def)

lemma saturate_i128_ge: "y \<le> x \<Longrightarrow> y \<le> i128_max \<Longrightarrow> y \<le> saturate_i128 x"
  by (auto simp: saturate_i128_def)

lemma saturate_i128_le: "x \<le> y \<Longrightarrow> i128_min \<le> y \<Longrightarrow> saturate_i128 x \<le> y"
  by (auto simp: saturate_i128_def)

lemma trunc_div_nonneg: "0 \<le> a \<Longrightarrow> 0 < b \<Longrightarrow> trunc_div a b = a div b"
  by (cases "a = 0") (auto simp: trunc_div_def)

lemma trunc_div_nonneg_pos [simp]: "0 \<le> a \<Longrightarrow> trunc_div a (numeral n) = a div numeral n"
  by (simp add: trunc_div_nonneg)

section \<open>Strings\<close>

text \<open>
  A Rust \<^verbatim>\<open>String\<close> is its list of UTF-8 bytes. The character classes below are those of
  ASCII; bytes above 127 are in none of them and have no case.
\<close>

definition is_digit :: "char \<Rightarrow> bool" where
  "is_digit c \<longleftrightarrow> 48 \<le> (of_char c :: nat) \<and> (of_char c :: nat) \<le> 57"

definition is_upper :: "char \<Rightarrow> bool" where
  "is_upper c \<longleftrightarrow> 65 \<le> (of_char c :: nat) \<and> (of_char c :: nat) \<le> 90"

definition is_lower :: "char \<Rightarrow> bool" where
  "is_lower c \<longleftrightarrow> 97 \<le> (of_char c :: nat) \<and> (of_char c :: nat) \<le> 122"

definition is_alnum :: "char \<Rightarrow> bool" where
  "is_alnum c \<longleftrightarrow> is_digit c \<or> is_upper c \<or> is_lower c"

definition is_space :: "char \<Rightarrow> bool" where
  "is_space c \<longleftrightarrow> (of_char c :: nat) = 32 \<or> (9 \<le> (of_char c :: nat) \<and> (of_char c :: nat) \<le> 13)"

definition lower_char :: "char \<Rightarrow> char" where
  "lower_char c = (if is_upper c then char_of ((of_char c :: nat) + 32) else c)"

definition upper_char :: "char \<Rightarrow> char" where
  "upper_char c = (if is_lower c then char_of ((of_char c :: nat) - 32) else c)"

definition to_lowercase :: "string \<Rightarrow> string" where
  "to_lowercase s = map lower_char s"

definition to_uppercase :: "string \<Rightarrow> string" where
  "to_uppercase s = map upper_char s"

definition trim :: "string \<Rightarrow> string" where
  "trim s = rev (dropWhile is_space (rev (dropWhile is_space s)))"

definition starts_with :: "string \<Rightarrow> string \<Rightarrow> bool" where
  "starts_with s p = prefix p s"

definition strip_prefix :: "string \<Rightarrow> string \<Rightarrow> string option" where
  "strip_prefix s p = (if prefix p s then Some (drop (length p) s) else None)"

definition strip_suffix :: "string \<Rightarrow> string \<Rightarrow> string option" where
  "strip_suffix s p = (if suffix p s then Some (take (length s - length p) s) else None)"

definition contains_str :: "string \<Rightarrow> string \<Rightarrow> bool" where
  "contains_str s p = sublist p s"

text \<open>\<^verbatim>\<open>str::split(c)\<close>: the pieces between the separators, at least one.\<close>

fun split_on :: "char \<Rightarrow> string \<Rightarrow> string list" where
  "split_on c [] = [[]]"
| "split_on c (x # xs) =
     (if x = c then [] # split_on c xs
      else (case split_on c xs of [] \<Rightarrow> [[x]] | p # ps \<Rightarrow> (x # p) # ps))"

lemma split_on_nonempty [simp]: "split_on c s \<noteq> []"
  by (induction s) (auto split: list.splits)

lemma split_on_absent: "c \<notin> set s \<Longrightarrow> split_on c s = [s]"
  by (induction s) auto

lemma split_on_append:
  "c \<notin> set s \<Longrightarrow> split_on c (s @ c # t) = s # split_on c t"
  by (induction s) auto

subsection \<open>Decimal numerals\<close>

definition digit_val :: "char \<Rightarrow> nat" where
  "digit_val c = of_char c - 48"

definition digits_val :: "string \<Rightarrow> nat" where
  "digits_val ds = foldl (\<lambda>a c. 10 * a + digit_val c) 0 ds"

text \<open>\<^verbatim>\<open>str::parse::<iN>()\<close>: an optional sign, at least one digit, and the value in range.\<close>

definition split_sign :: "string \<Rightarrow> bool \<times> string" where
  "split_sign s =
     (case s of [] \<Rightarrow> (False, [])
      | c # t \<Rightarrow> (if c = CHR ''-'' then (True, t) else if c = CHR ''+'' then (False, t) else (False, s)))"

definition parse_int :: "string \<Rightarrow> int option" where
  "parse_int s =
     (let (neg, ds) = split_sign s
      in if ds = [] \<or> \<not> list_all is_digit ds then None
         else Some (if neg then - int (digits_val ds) else int (digits_val ds)))"

definition parse_i128 :: "string \<Rightarrow> int option" where
  "parse_i128 s = (case parse_int s of None \<Rightarrow> None | Some v \<Rightarrow> checked_i128 v)"

definition parse_i64 :: "string \<Rightarrow> int option" where
  "parse_i64 s = (case parse_int s of None \<Rightarrow> None | Some v \<Rightarrow> checked_i64 v)"

text \<open>The decimal numeral \<^verbatim>\<open>to_string()\<close> prints.\<close>

fun nat_digits :: "nat \<Rightarrow> string" where
  "nat_digits n =
     (if n < 10 then [char_of (48 + n)] else nat_digits (n div 10) @ [char_of (48 + n mod 10)])"

declare nat_digits.simps [simp del]

definition int_digits :: "int \<Rightarrow> string" where
  "int_digits i = (if i < 0 then CHR ''-'' # nat_digits (nat (- i)) else nat_digits (nat i))"

lemma of_char_digit: "(n :: nat) < 10 \<Longrightarrow> (of_char (char_of (48 + n) :: char) :: nat) = 48 + n"
  by simp

lemma is_digit_char_of: "(n :: nat) < 10 \<Longrightarrow> is_digit (char_of (48 + n))"
  by (simp add: is_digit_def of_char_digit)

lemma digit_val_char_of: "(n :: nat) < 10 \<Longrightarrow> digit_val (char_of (48 + n)) = n"
  by (simp add: digit_val_def of_char_digit)

lemma digit_val_less: "is_digit c \<Longrightarrow> digit_val c < 10"
  by (auto simp: is_digit_def digit_val_def)

lemma digits_val_Nil [simp]: "digits_val [] = 0"
  by (simp add: digits_val_def)

lemma digits_val_snoc [simp]: "digits_val (ds @ [c]) = 10 * digits_val ds + digit_val c"
  by (simp add: digits_val_def)

lemma digits_val_append:
  "digits_val (xs @ ys) = digits_val xs * 10 ^ length ys + digits_val ys"
  by (induction ys rule: rev_induct) (simp_all add: algebra_simps flip: append_assoc)

lemma digits_val_single [simp]: "digits_val [c] = digit_val c"
  by (simp add: digits_val_def)

lemma digits_val_Cons: "digits_val (c # ys) = digit_val c * 10 ^ length ys + digits_val ys"
  using digits_val_append [of "[c]" ys] by simp

lemma digits_val_less: "list_all is_digit ds \<Longrightarrow> digits_val ds < 10 ^ length ds"
proof (induction ds rule: rev_induct)
  case Nil
  then show ?case by simp
next
  case (snoc c ds)
  then have "digits_val ds < 10 ^ length ds" and "digit_val c < 10"
    by (auto intro: digit_val_less)
  then show ?case by simp
qed

lemma digits_val_zeros [simp]: "digits_val (replicate n (CHR ''0'')) = 0"
  by (induction n) (simp_all add: digits_val_Cons digit_val_def)

lemma nat_digits_nonempty [simp]: "nat_digits n \<noteq> []"
  by (subst nat_digits.simps) simp

lemma nat_digits_digits: "list_all is_digit (nat_digits n)"
proof (induction n rule: nat_digits.induct)
  case (1 n)
  then show ?case
    by (subst nat_digits.simps) (auto simp: is_digit_char_of)
qed

lemma digits_val_nat_digits [simp]: "digits_val (nat_digits n) = n"
proof (induction n rule: nat_digits.induct)
  case (1 n)
  show ?case
  proof (cases "n < 10")
    case True
    then show ?thesis by (subst nat_digits.simps) (simp add: digit_val_char_of)
  next
    case False
    with 1 show ?thesis by (subst nat_digits.simps) (simp add: digit_val_char_of)
  qed
qed

lemma split_sign_digit: "s \<noteq> [] \<Longrightarrow> list_all is_digit s \<Longrightarrow> split_sign s = (False, s)"
  by (cases s) (auto simp: split_sign_def is_digit_def)

lemma parse_int_digits:
  "s \<noteq> [] \<Longrightarrow> list_all is_digit s \<Longrightarrow> parse_int s = Some (int (digits_val s))"
  by (simp add: parse_int_def split_sign_digit)

lemma parse_int_int_digits [simp]: "parse_int (int_digits i) = Some i"
proof (cases "i < 0")
  case True
  then show ?thesis
    by (simp add: int_digits_def parse_int_def split_sign_def nat_digits_digits)
next
  case False
  then show ?thesis
    by (simp add: int_digits_def parse_int_digits nat_digits_digits)
qed

lemma parse_i128_int_digits: "in_i128 i \<Longrightarrow> parse_i128 (int_digits i) = Some i"
  by (simp add: parse_i128_def checked_i128_def)

lemma parse_i128_in_range: "parse_i128 s = Some v \<Longrightarrow> in_i128 v"
  by (auto simp: parse_i128_def int_ops split: option.splits)

subsection \<open>Decimal fractions\<close>

lemma digit_not_space: "is_digit c \<Longrightarrow> \<not> is_space c"
  by (auto simp: is_digit_def is_space_def)

lemma dropWhile_id: "(\<And>x xs'. xs = x # xs' \<Longrightarrow> \<not> P x) \<Longrightarrow> dropWhile P xs = xs"
  by (cases xs) auto

lemma trim_ends:
  assumes "s \<noteq> []" and "\<not> is_space (hd s)" and "\<not> is_space (last s)"
  shows "trim s = s"
proof -
  have "dropWhile is_space s = s" using assms by (intro dropWhile_id) auto
  moreover have "dropWhile is_space (rev s) = rev s"
    using assms by (intro dropWhile_id) (metis hd_rev list.sel(1))
  ultimately show ?thesis by (simp add: trim_def)
qed

lemma digits_no_dot: "list_all is_digit s \<Longrightarrow> CHR ''.'' \<notin> set s"
  by (auto simp: list_all_iff is_digit_def)

lemma trim_decimal:
  assumes "list_all is_digit w" and "list_all is_digit f"
  shows "trim (w @ CHR ''.'' # f) = w @ CHR ''.'' # f"
proof (rule trim_ends)
  have dot: "\<not> is_space (CHR ''.'')" by (simp add: is_space_def)
  show "\<not> is_space (hd (w @ CHR ''.'' # f))"
    using assms(1) dot by (cases w) (auto dest: digit_not_space)
  show "\<not> is_space (last (w @ CHR ''.'' # f))"
  proof (cases "f = []")
    case False
    then have "last f \<in> set f" by simp
    then have "\<not> is_space (last f)" using assms(2) digit_not_space by (auto simp: list_all_iff)
    then show ?thesis using False by simp
  qed (simp add: dot)
qed simp

lemma length_nat_digits: "n < 10 ^ k \<Longrightarrow> 0 < k \<Longrightarrow> length (nat_digits n) \<le> k"
proof (induction n arbitrary: k rule: nat_digits.induct)
  case (1 n)
  show ?case
  proof (cases "n < 10")
    case True
    then show ?thesis using 1(3) by (subst nat_digits.simps) simp
  next
    case False
    obtain j where k: "k = Suc j" using 1(3) by (cases k) auto
    have "n div 10 < 10 ^ j" using 1(2) by (simp add: k less_mult_imp_div_less mult.commute)
    moreover have "0 < j" using 1(2) False k by (cases j) auto
    ultimately show ?thesis using 1(1) [OF False, of j] False k by (subst nat_digits.simps) simp
  qed
qed

text \<open>A fraction cut or filled up to \<open>k\<close> decimals, and a number written with \<open>k\<close> digits.\<close>

definition pad_digits :: "nat \<Rightarrow> string \<Rightarrow> string" where
  "pad_digits k f = take k (f @ replicate k (CHR ''0''))"

definition fixed_digits :: "nat \<Rightarrow> nat \<Rightarrow> string" where
  "fixed_digits k n = replicate (k - length (nat_digits n)) (CHR ''0'') @ nat_digits n"

definition decimal :: "nat \<Rightarrow> nat \<Rightarrow> string" where
  "decimal k n = nat_digits (n div 10 ^ k) @ CHR ''.'' # fixed_digits k (n mod 10 ^ k)"

lemma length_pad_digits [simp]: "length (pad_digits k f) = k"
  by (simp add: pad_digits_def)

lemma pad_digits_id: "length f = k \<Longrightarrow> pad_digits k f = f"
  by (simp add: pad_digits_def)

lemma pad_digits_digits: "list_all is_digit f \<Longrightarrow> list_all is_digit (pad_digits k f)"
  by (auto simp: pad_digits_def list_all_iff is_digit_def dest: in_set_takeD)

lemma fixed_digits_props:
  assumes "n < 10 ^ k" and "0 < k"
  shows "length (fixed_digits k n) = k" and "list_all is_digit (fixed_digits k n)"
    and "digits_val (fixed_digits k n) = n"
  using length_nat_digits [OF assms] nat_digits_digits
  by (auto simp: fixed_digits_def list_all_iff is_digit_def digits_val_append)

text \<open>Cutting is rounding down.\<close>

lemma pad_digits_bounds:
  fixes k :: nat
  assumes "list_all is_digit f"
  defines "t \<equiv> digits_val (pad_digits k f)"
  shows "t * 10 ^ length f \<le> digits_val f * 10 ^ k \<and> digits_val f * 10 ^ k < (t + 1) * 10 ^ length f"
proof (cases "k \<le> length f")
  case True
  have d: "list_all is_digit (drop k f)" using assms(1) by (auto simp: list_all_iff dest: in_set_dropD)
  have t: "t = digits_val (take k f)" using True by (simp add: t_def pad_digits_def)
  have v: "digits_val f = t * 10 ^ (length f - k) + digits_val (drop k f)"
    using digits_val_append [of "take k f" "drop k f"] by (simp add: t)
  have r: "digits_val (drop k f) < 10 ^ (length f - k)" using digits_val_less [OF d] by simp
  have p: "(10 :: nat) ^ length f = 10 ^ (length f - k) * 10 ^ k"
    using True power_add [of "10 :: nat" "length f - k" k] by (simp only: le_add_diff_inverse2)
  have "digits_val (drop k f) * 10 ^ k < 10 ^ (length f - k) * 10 ^ k"
    using r by (intro mult_strict_right_mono) simp_all
  then show ?thesis unfolding v p by (simp add: algebra_simps)
next
  case False
  then have "t = digits_val f * 10 ^ (k - length f)"
    by (simp add: t_def pad_digits_def digits_val_append)
  moreover have "(10 :: nat) ^ k = 10 ^ (k - length f) * 10 ^ length f"
    using False power_add [of "10 :: nat" "k - length f" "length f"] by simp
  ultimately have "t * 10 ^ length f = digits_val f * 10 ^ k" by (simp only: mult.assoc)
  then show ?thesis by (simp only: distrib_right mult_1) simp
qed

section \<open>Lists, options and maps\<close>

lemma sum_list_abs_bound:
  fixes xs :: "int list"
  assumes "\<And>x. x \<in> set xs \<Longrightarrow> 0 \<le> x \<and> x \<le> b"
  shows "0 \<le> sum_list xs \<and> sum_list xs \<le> int (length xs) * b"
  using assms
proof (induction xs)
  case Nil
  then show ?case by simp
next
  case (Cons x xs)
  then have "0 \<le> sum_list xs \<and> sum_list xs \<le> int (length xs) * b" and "0 \<le> x \<and> x \<le> b"
    by simp_all
  then show ?case by (simp add: algebra_simps)
qed

lemma sorted_nth_mono_le:
  "sorted (xs :: 'a :: linorder list) \<Longrightarrow> i \<le> j \<Longrightarrow> j < length xs \<Longrightarrow> xs ! i \<le> xs ! j"
  by (rule sorted_nth_mono)

text \<open>Reading a vector: Rust panics out of range.\<close>

definition index :: "'a list \<Rightarrow> nat \<Rightarrow> 'a option" where
  "index xs i = (if i < length xs then Some (xs ! i) else None)"

lemma index_Some_iff: "index xs i = Some x \<longleftrightarrow> i < length xs \<and> xs ! i = x"
  by (auto simp: index_def)

lemma index_None_iff: "index xs i = None \<longleftrightarrow> length xs \<le> i"
  by (auto simp: index_def)

end
