(* ===== verification/Oracle_F64.thy ===== *)
theory Oracle_F64
  imports Oracle_Prelude "HOL-Library.Log_Nat"
begin

text \<open>
  Rust's \<^verbatim>\<open>f64\<close>: IEEE 754 binary64 with round to nearest, ties to even. A finite value is the
  rational it denotes; \<open>rn\<close> rounds a rational to the nearest value with a 53 bit significand
  (gradual underflow at \<open>2 powi -1074\<close> included), and \<open>round64\<close> adds overflow to infinity.
  Every operation is the exact operation on rationals followed by one rounding. The sign of a
  zero is not recorded: the code never divides by a zero whose sign could be negative and
  never prints one.

  The lemmas are the ones the price arithmetic needs: rounding is monotone, exact on
  representable values (all integers up to \<open>2 ^ 53\<close> among them), idempotent, odd, maps
  integers to integers, and has relative error at most \<open>2 ^ -53\<close> in the normal range.
\<close>

section \<open>Rounding\<close>

text \<open>The exponent of a positive rational: the greatest \<open>e\<close> with \<open>2 powi e \<le> x\<close>.\<close>

definition pow2 :: "int \<Rightarrow> rat" where
  "pow2 k = (if 0 \<le> k then of_int (2 ^ nat k) else 1 / of_int (2 ^ nat (- k)))"

definition ilog2 :: "rat \<Rightarrow> int" where
  "ilog2 x =
     (let (p, q) = quotient_of x; k = bitlen p - bitlen q
      in if pow2 k \<le> x then k else k - 1)"

definition round_half_even :: "rat \<Rightarrow> int" where
  "round_half_even y =
     (let f = \<lfloor>y\<rfloor>; d = y - of_int f
      in if d < 1 / 2 \<or> (d = 1 / 2 \<and> even f) then f else f + 1)"

definition ulp_exp :: "rat \<Rightarrow> int" where
  "ulp_exp x = max (ilog2 \<bar>x\<bar> - 52) (- 1074)"

definition rn :: "rat \<Rightarrow> rat" where
  "rn x =
     (if x = 0 then 0
      else let p = pow2 (ulp_exp x) in of_int (round_half_even (x / p)) * p)"

subsection \<open>The exponent\<close>

lemma pow2_powi [simp]: "pow2 k = 2 powi k"
  by (simp add: pow2_def power_int_def power_one_over)

lemma rn_eq:
  "rn x = (if x = 0 then 0
           else of_int (round_half_even (x / 2 powi ulp_exp x)) * 2 powi ulp_exp x)"
  by (simp add: rn_def Let_def)

lemma of_int_pow2: "0 \<le> n \<Longrightarrow> (of_int (2 ^ nat n) :: rat) = 2 powi n"
  by (simp add: power_int_def)

lemma bitlen_powi_bounds:
  assumes "0 < p"
  shows "2 powi (bitlen p - 1) \<le> (of_int p :: rat)" and "(of_int p :: rat) < 2 powi bitlen p"
proof -
  have b: "0 \<le> bitlen p - 1" "0 \<le> bitlen p"
    using assms by (auto simp: bitlen_alt_def)
  have "(of_int (2 ^ nat (bitlen p - 1)) :: rat) \<le> of_int p"
    and "(of_int p :: rat) < of_int (2 ^ nat (bitlen p))"
    using bitlen_bounds [OF assms] by (simp_all only: of_int_le_iff of_int_less_iff)
  then show "2 powi (bitlen p - 1) \<le> (of_int p :: rat)" and "(of_int p :: rat) < 2 powi bitlen p"
    using b by (simp_all only: of_int_pow2)
qed

lemma ilog2_bounds:
  assumes "0 < x"
  shows "2 powi ilog2 x \<le> x" and "x < 2 powi (ilog2 x + 1)"
proof -
  obtain p q where pq: "quotient_of x = (p, q)" by (cases "quotient_of x")
  have q: "0 < q" using pq by (rule quotient_of_denom_pos)
  have x: "x = of_int p / of_int q" using pq by (rule quotient_of_div)
  with assms q have p: "0 < p" by (simp add: zero_less_divide_iff)
  define k where "k = bitlen p - bitlen q"
  note pb = bitlen_powi_bounds [OF p] and qb = bitlen_powi_bounds [OF q]
  have lo: "2 powi (k - 1) < x"
  proof -
    have "2 powi (k - 1) * of_int q < (2 powi (k - 1) * 2 powi bitlen q :: rat)"
      using qb by (intro mult_strict_left_mono) simp_all
    also have "\<dots> = 2 powi (bitlen p - 1)"
      by (simp add: k_def flip: power_int_add)
    also have "\<dots> \<le> of_int p" by (rule pb)
    finally show ?thesis using q by (simp add: x field_simps)
  qed
  have hi: "x < 2 powi (k + 1)"
  proof -
    have "(of_int p :: rat) < 2 powi bitlen p" by (rule pb)
    also have "\<dots> = 2 powi (k + 1) * 2 powi (bitlen q - 1)"
      by (simp add: k_def flip: power_int_add)
    also have "\<dots> \<le> 2 powi (k + 1) * of_int q"
      using qb by (intro mult_left_mono) simp_all
    finally show ?thesis using q by (simp add: x field_simps)
  qed
  have ik: "ilog2 x = (if 2 powi k \<le> x then k else k - 1)"
    by (simp add: ilog2_def pq k_def Let_def)
  show "2 powi ilog2 x \<le> x" and "x < 2 powi (ilog2 x + 1)"
    using lo hi by (auto simp: ik)
qed

lemma powi2_less: "m < n \<Longrightarrow> (2 :: rat) powi m < 2 powi n"
  by (intro power_int_strict_increasing) simp_all

lemma powi2_le_iff: "(2 :: rat) powi m \<le> 2 powi n \<longleftrightarrow> m \<le> n"
  using powi2_less [of m n] powi2_less [of n m] by (cases m n rule: linorder_cases) auto

lemma powi2_less_iff: "(2 :: rat) powi m < 2 powi n \<longleftrightarrow> m < n"
  using powi2_le_iff [of n m] by linarith

lemma powi2_diff: "(2 :: rat) powi (m - n) = 2 powi m / 2 powi n"
  by (simp add: power_int_diff)

lemma ilog2_le: "0 < x \<Longrightarrow> x < 2 powi (n + 1) \<Longrightarrow> ilog2 x \<le> n"
  using ilog2_bounds(1) [of x] powi2_less_iff [of "ilog2 x" "n + 1"]
  by linarith

lemma ilog2_ge: "2 powi n \<le> x \<Longrightarrow> n \<le> ilog2 x"
proof -
  assume n: "2 powi n \<le> x"
  have "0 < (2 :: rat) powi n" by simp
  with n have "0 < x" by linarith
  then show ?thesis
    using n ilog2_bounds(2) [of x] powi2_less_iff [of n "ilog2 x + 1"] by linarith
qed

lemma ilog2_mono: "0 < x \<Longrightarrow> x \<le> y \<Longrightarrow> ilog2 x \<le> ilog2 y"
  using ilog2_bounds(1) [of x] by (intro ilog2_ge) linarith

subsection \<open>Rounding to an integer\<close>

lemma round_half_even_of_int [simp]: "round_half_even (of_int n) = n"
  by (simp add: round_half_even_def)

lemma round_half_even_error: "\<bar>of_int (round_half_even y) - y\<bar> \<le> 1 / 2"
proof -
  have "of_int \<lfloor>y\<rfloor> \<le> y" and "y < of_int \<lfloor>y\<rfloor> + 1" by linarith+
  then show ?thesis by (auto simp: round_half_even_def Let_def)
qed

lemma round_half_even_mono:
  assumes "x \<le> y"
  shows "round_half_even x \<le> round_half_even y"
proof (cases "\<lfloor>x\<rfloor> = \<lfloor>y\<rfloor>")
  case True
  then show ?thesis using assms by (auto simp: round_half_even_def Let_def)
next
  case False
  then have "\<lfloor>x\<rfloor> + 1 \<le> \<lfloor>y\<rfloor>" using floor_mono [OF assms] by linarith
  then show ?thesis by (auto simp: round_half_even_def Let_def)
qed

lemma round_half_even_le: "y \<le> of_int n \<Longrightarrow> round_half_even y \<le> n"
  using round_half_even_mono [of y "of_int n"] by simp

lemma round_half_even_ge: "of_int n \<le> y \<Longrightarrow> n \<le> round_half_even y"
  using round_half_even_mono [of "of_int n" y] by simp

lemma round_half_even_minus: "round_half_even (- y) = - round_half_even y"
proof (cases "y = of_int \<lfloor>y\<rfloor>")
  case True
  have "round_half_even (of_int (- \<lfloor>y\<rfloor>)) = - round_half_even (of_int \<lfloor>y\<rfloor>)"
    by (simp only: round_half_even_of_int)
  with True show ?thesis by simp
next
  case False
  have "of_int \<lfloor>y\<rfloor> \<le> y" and "y < of_int \<lfloor>y\<rfloor> + 1" by linarith+
  with False have y: "of_int \<lfloor>y\<rfloor> < y" "y < of_int \<lfloor>y\<rfloor> + 1" by linarith+
  then have "\<lfloor>- y\<rfloor> = - \<lfloor>y\<rfloor> - 1" by linarith
  then show ?thesis using y by (auto simp: round_half_even_def Let_def)
qed

subsection \<open>Representable values\<close>

definition representable :: "rat \<Rightarrow> bool" where
  "representable r \<longleftrightarrow>
     (\<exists>m k. r = of_int m * 2 powi k \<and> \<bar>m\<bar> \<le> 2 ^ 53 \<and> - 1074 \<le> k)"

lemma rn_zero [simp]: "rn 0 = 0"
  by (simp add: rn_eq)

lemma rn_minus: "rn (- x) = - rn x"
  by (simp add: rn_eq ulp_exp_def round_half_even_minus flip: minus_divide_left)

lemma scaled_bound:
  assumes "x \<noteq> 0"
  shows "\<bar>x / 2 powi ulp_exp x\<bar> < 2 ^ 53"
proof -
  have "\<bar>x\<bar> < 2 powi (ilog2 \<bar>x\<bar> + 1)" using assms by (intro ilog2_bounds) simp
  also have "\<dots> \<le> 2 powi (53 + ulp_exp x)"
    by (subst powi2_le_iff) (auto simp: ulp_exp_def)
  also have "\<dots> = 2 ^ 53 * 2 powi ulp_exp x"
    by (subst power_int_add) (simp_all add: power_int_def)
  finally show ?thesis by (simp add: abs_divide field_simps)
qed

lemma representable_rn: "representable (rn x)"
proof (cases "x = 0")
  case True
  then show ?thesis by (auto simp: representable_def intro: exI [of _ 0])
next
  case False
  let ?y = "x / 2 powi ulp_exp x"
  have "- (2 ^ 53) \<le> ?y" and "?y \<le> 2 ^ 53"
    using abs_le_D1 [of ?y "2 ^ 53"] abs_le_D2 [of ?y "2 ^ 53"] scaled_bound [OF False]
    by linarith+
  then have "round_half_even ?y \<le> 2 ^ 53" and "- (2 ^ 53) \<le> round_half_even ?y"
    by (intro round_half_even_le round_half_even_ge; simp)+
  then have "\<bar>round_half_even ?y\<bar> \<le> 2 ^ 53" by linarith
  moreover have "rn x = of_int (round_half_even ?y) * 2 powi ulp_exp x"
    using False by (simp add: rn_eq)
  moreover have "- 1074 \<le> ulp_exp x" by (simp add: ulp_exp_def)
  ultimately show ?thesis unfolding representable_def by blast
qed

lemma scaled_integer:
  fixes r :: rat
  assumes "r = of_int m * 2 powi k" and "u \<le> k"
  shows "\<exists>i. r / 2 powi u = of_int i"
proof -
  have "r / 2 powi u = of_int m * 2 powi (k - u)"
    by (simp add: assms power_int_diff)
  also have "\<dots> = of_int (m * 2 ^ nat (k - u))"
    using assms(2) by (simp add: power_int_def)
  finally show ?thesis by blast
qed

lemma rn_eq_if_scaled_integer:
  assumes "r \<noteq> 0" and "r / 2 powi ulp_exp r = of_int i"
  shows "rn r = r"
proof -
  have "rn r = of_int i * 2 powi ulp_exp r"
    using assms by (simp add: rn_eq)
  also have "\<dots> = r" by (simp flip: assms(2))
  finally show ?thesis .
qed

lemma rn_representable:
  assumes "representable r"
  shows "rn r = r"
proof (cases "r = 0")
  case True
  then show ?thesis by simp
next
  case False
  obtain m k where r: "r = of_int m * 2 powi k" and m: "\<bar>m\<bar> \<le> 2 ^ 53" and k: "- 1074 \<le> k"
    using assms unfolding representable_def by blast
  define u where "u = ulp_exp r"
  have "\<exists>i. r / 2 powi u = of_int i"
  proof (cases "u \<le> k")
    case True
    then show ?thesis using r by (intro scaled_integer)
  next
    case False
    then have u: "u = ilog2 \<bar>r\<bar> - 52" using k by (auto simp: u_def ulp_exp_def)
    have "2 powi (u + 52) \<le> \<bar>r\<bar>"
      using ilog2_bounds(1) [of "\<bar>r\<bar>"] \<open>r \<noteq> 0\<close> by (simp add: u)
    also have "\<bar>r\<bar> = of_int \<bar>m\<bar> * 2 powi k" by (simp add: r abs_mult)
    also have "\<dots> \<le> of_int (2 ^ 53) * 2 powi k"
      using m by (intro mult_right_mono) (simp_all only: of_int_le_iff, simp)
    also have "\<dots> = 2 powi (53 + k)"
      by (subst power_int_add) (simp_all add: power_int_def)
    finally have "u + 52 \<le> 53 + k" by (simp only: powi2_le_iff)
    with False have uk: "u = k + 1" by linarith
    have "2 powi (u + 52) \<le> (of_int \<bar>m\<bar> * 2 powi k :: rat)"
      using ilog2_bounds(1) [of "\<bar>r\<bar>"] \<open>r \<noteq> 0\<close> by (simp add: u r abs_mult)
    then have "2 ^ 53 * 2 powi k \<le> (of_int \<bar>m\<bar> * 2 powi k :: rat)"
      using uk power_int_add [of "2 :: rat" 53 k] by (simp add: add.commute)
    then have "(of_int (2 ^ 53) :: rat) \<le> of_int \<bar>m\<bar>" by simp
    then have "2 ^ 53 \<le> \<bar>m\<bar>" by (simp only: of_int_le_iff)
    with m have "\<bar>m\<bar> = 2 ^ 53" by simp
    then have "m = 2 ^ 53 \<or> m = - (2 ^ 53)" by linarith
    then obtain m' where "m = 2 * m'" by (elim disjE) (auto intro: exI [of _ "2 ^ 52"] exI [of _ "- (2 ^ 52)"])
    then have "r = of_int m' * 2 powi u" by (simp add: r uk power_int_add)
    then show ?thesis by (intro scaled_integer) auto
  qed
  then show ?thesis using False rn_eq_if_scaled_integer unfolding u_def by blast
qed

lemma rn_idem [simp]: "rn (rn x) = rn x"
  by (intro rn_representable representable_rn)

lemma representable_of_int: "\<bar>n\<bar> \<le> 2 ^ 53 \<Longrightarrow> representable (of_int n)"
  unfolding representable_def by (intro exI [of _ n] exI [of _ 0]) simp

lemma rn_of_int_exact: "\<bar>n\<bar> \<le> 2 ^ 53 \<Longrightarrow> rn (of_int n) = of_int n"
  by (intro rn_representable representable_of_int)

lemma representable_powi: "- 1074 \<le> k \<Longrightarrow> representable (2 powi k)"
  unfolding representable_def by (intro exI [of _ 1] exI [of _ k]) simp

text \<open>An integer rounds to an integer.\<close>

lemma rn_of_int_Ints: "\<exists>m. rn (of_int n) = of_int m"
proof (cases "n = 0")
  case True
  then show ?thesis by (auto intro: exI [of _ 0])
next
  case False
  let ?r = "of_int n :: rat"
  show ?thesis
  proof (cases "0 \<le> ulp_exp ?r")
    case True
    then have "2 powi ulp_exp ?r = (of_int (2 ^ nat (ulp_exp ?r)) :: rat)"
      by (simp only: of_int_pow2)
    then show ?thesis using False
      by (simp add: rn_eq flip: of_int_mult of_int_power)
  next
    case neg: False
    have "\<exists>i. ?r / 2 powi ulp_exp ?r = of_int i"
      using neg by (intro scaled_integer [of _ n 0]) simp_all
    then show ?thesis using False rn_eq_if_scaled_integer [of ?r] by auto
  qed
qed

subsection \<open>Monotonicity and error\<close>

lemma rn_pos_le_powi:
  assumes "0 < x" and "x \<le> 2 powi n" and "- 1074 \<le> n"
  shows "rn x \<le> 2 powi n"
proof -
  let ?u = "ulp_exp x"
  have u: "?u \<le> n"
    using ilog2_bounds(1) [OF assms(1)] assms powi2_le_iff [of "ilog2 x" n]
    by (auto simp: ulp_exp_def)
  have "(of_int (2 ^ nat (n - ?u)) :: rat) = 2 powi (n - ?u)"
    using u by (intro of_int_pow2) simp
  then have pow: "2 powi n / 2 powi ?u = (of_int (2 ^ nat (n - ?u)) :: rat)"
    by (simp only: powi2_diff)
  have "x / 2 powi ?u \<le> of_int (2 ^ nat (n - ?u))"
    unfolding pow [symmetric] using assms(2) by (intro divide_right_mono) simp_all
  then have "round_half_even (x / 2 powi ?u) \<le> 2 ^ nat (n - ?u)"
    by (rule round_half_even_le)
  then have "(of_int (round_half_even (x / 2 powi ?u)) :: rat) \<le> of_int (2 ^ nat (n - ?u))"
    by (simp only: of_int_le_iff)
  then show ?thesis using assms(1) pow by (simp add: rn_eq field_simps)
qed

lemma rn_pos_ge_powi:
  assumes "2 powi n \<le> x" and "- 1074 \<le> n"
  shows "2 powi n \<le> rn x"
proof -
  let ?u = "ulp_exp x"
  have x0: "0 < x" using assms(1) by (rule less_le_trans [rotated]) simp
  have n: "n \<le> ilog2 x" using assms(1) by (rule ilog2_ge)
  show ?thesis
  proof (cases "?u \<le> ilog2 x")
    case True
    have "(of_int (2 ^ nat (ilog2 x - ?u)) :: rat) = 2 powi (ilog2 x - ?u)"
      using True by (intro of_int_pow2) simp
    also have "\<dots> = 2 powi ilog2 x / 2 powi ?u" by (simp add: power_int_diff)
    also have "\<dots> \<le> x / 2 powi ?u"
      using ilog2_bounds(1) [OF x0] by (intro divide_right_mono) simp_all
    finally have "2 ^ nat (ilog2 x - ?u) \<le> round_half_even (x / 2 powi ?u)"
      by (rule round_half_even_ge)
    then have "(of_int (2 ^ nat (ilog2 x - ?u)) :: rat) \<le> of_int (round_half_even (x / 2 powi ?u))"
      by (simp only: of_int_le_iff)
    then have "2 powi ilog2 x / 2 powi ?u \<le> (of_int (round_half_even (x / 2 powi ?u)) :: rat)"
      using True by (simp only: of_int_pow2 diff_ge_0_iff_ge flip: powi2_diff)
    then have "2 powi ilog2 x \<le> rn x"
      using x0 by (simp add: rn_eq field_simps)
    moreover have "2 powi n \<le> (2 powi ilog2 x :: rat)" using n by (simp only: powi2_le_iff)
    ultimately show ?thesis by linarith
  next
    case False
    then have "ilog2 x < - 1074" using x0 by (auto simp: ulp_exp_def)
    with n assms(2) show ?thesis by linarith
  qed
qed

lemma rn_nonneg: "0 \<le> x \<Longrightarrow> 0 \<le> rn x"
proof -
  assume "0 \<le> x"
  then have "0 \<le> round_half_even (x / 2 powi ulp_exp x)"
    by (intro round_half_even_ge) simp
  then show ?thesis by (simp add: rn_eq)
qed

lemma rn_mono_pos:
  assumes "0 < x" and "x \<le> y"
  shows "rn x \<le> rn y"
proof (cases "ulp_exp x = ulp_exp y")
  case True
  have "round_half_even (x / 2 powi ulp_exp x) \<le> round_half_even (y / 2 powi ulp_exp x)"
    using assms by (intro round_half_even_mono divide_right_mono) simp_all
  then show ?thesis using assms True by (simp add: rn_eq)
next
  case False
  have y0: "0 < y" using assms by linarith
  have e: "ilog2 x \<le> ilog2 y" using assms by (rule ilog2_mono)
  with False have lt: "ilog2 x + 1 \<le> ilog2 y" and big: "- 1074 \<le> ilog2 y"
    using assms y0 by (auto simp: ulp_exp_def max_def split: if_splits)
  have "x \<le> 2 powi (ilog2 x + 1)" using ilog2_bounds(2) [OF assms(1)] by simp
  also have "\<dots> \<le> 2 powi ilog2 y" using lt by (simp only: powi2_le_iff)
  finally have "rn x \<le> 2 powi ilog2 y" using assms(1) big by (intro rn_pos_le_powi)
  also have "\<dots> \<le> rn y" using ilog2_bounds(1) [OF y0] big by (intro rn_pos_ge_powi)
  finally show ?thesis .
qed

lemma rn_mono: "x \<le> y \<Longrightarrow> rn x \<le> rn y"
proof -
  assume le: "x \<le> y"
  consider "0 < x" | "x \<le> 0" "0 \<le> y" | "y < 0" using le by linarith
  then show ?thesis
  proof cases
    case 1
    then show ?thesis using le by (rule rn_mono_pos)
  next
    case 2
    then have "0 \<le> rn (- x)" and "0 \<le> rn y" by (simp_all add: rn_nonneg)
    then show ?thesis by (simp add: rn_minus)
  next
    case 3
    then have "rn (- y) \<le> rn (- x)" using le by (intro rn_mono_pos) simp_all
    then show ?thesis by (simp add: rn_minus)
  qed
qed

lemma rn_le: "x \<le> r \<Longrightarrow> representable r \<Longrightarrow> rn x \<le> r"
  using rn_mono [of x r] by (simp add: rn_representable)

lemma rn_ge: "r \<le> x \<Longrightarrow> representable r \<Longrightarrow> r \<le> rn x"
  using rn_mono [of r x] by (simp add: rn_representable)

lemma rn_nonpos: "x \<le> 0 \<Longrightarrow> rn x \<le> 0"
  using rn_mono [of x 0] by simp

lemma rn_error_ulp: "\<bar>rn x - x\<bar> \<le> 2 powi (ulp_exp x - 1)"
proof (cases "x = 0")
  case True
  then show ?thesis by simp
next
  case False
  let ?u = "ulp_exp x"
  let ?y = "x / 2 powi ?u"
  have "rn x - x = (of_int (round_half_even ?y) - ?y) * 2 powi ?u"
    using False by (simp add: rn_eq algebra_simps)
  then have "\<bar>rn x - x\<bar> = \<bar>of_int (round_half_even ?y) - ?y\<bar> * 2 powi ?u"
    by (simp add: abs_mult)
  also have "\<dots> \<le> 1 / 2 * 2 powi ?u"
    by (intro mult_right_mono round_half_even_error) simp
  also have "\<dots> = 2 powi (?u - 1)" by (simp add: power_int_diff)
  finally show ?thesis .
qed

lemma rn_rel_error:
  assumes "2 powi (- 1022) \<le> \<bar>x\<bar>"
  shows "\<bar>rn x - x\<bar> \<le> \<bar>x\<bar> / 2 ^ 53"
proof -
  have e: "- 1022 \<le> ilog2 \<bar>x\<bar>" using assms by (rule ilog2_ge)
  have x0: "0 < \<bar>x\<bar>" using assms by (rule less_le_trans [rotated]) simp
  have "\<bar>rn x - x\<bar> \<le> 2 powi (ulp_exp x - 1)" by (rule rn_error_ulp)
  also have "\<dots> = 2 powi (ilog2 \<bar>x\<bar> - 53)" using e by (simp add: ulp_exp_def)
  also have "\<dots> = 2 powi ilog2 \<bar>x\<bar> / 2 ^ 53" by (simp add: power_int_diff)
  also have "\<dots> \<le> \<bar>x\<bar> / 2 ^ 53" using ilog2_bounds(1) [OF x0] by (simp add: divide_right_mono)
  finally show ?thesis .
qed

text \<open>The two one-sided forms, for a value that is zero or not tiny.\<close>

definition normal :: "rat \<Rightarrow> bool" where
  "normal x \<longleftrightarrow> x = 0 \<or> 2 powi (- 1022) \<le> \<bar>x\<bar>"

lemma normal_ge_powi:
  assumes "- 1022 \<le> k" and "2 powi k \<le> x"
  shows "normal x"
proof -
  have "(2 :: rat) powi (- 1022) \<le> 2 powi k"
    using assms(1) by (intro power_int_increasing) simp_all
  also note assms(2)
  also have "x \<le> \<bar>x\<bar>" by (rule abs_ge_self)
  finally show ?thesis unfolding normal_def by (rule disjI2)
qed

lemma powi_minus_130: "(2 :: rat) powi (- 130) = 1 / 2 ^ 130"
  by (simp only: power_int_minus power_int_numeral inverse_eq_divide)

lemma normal_ge: "1 / 2 ^ 130 \<le> x \<Longrightarrow> normal x"
  by (rule normal_ge_powi [of "- 130"]) (simp, unfold powi_minus_130)

lemma normal_error: "0 \<le> x \<Longrightarrow> normal x \<Longrightarrow> \<bar>rn x - x\<bar> \<le> x / 2 ^ 53"
  using rn_rel_error [of x] unfolding normal_def by (cases "x = 0") simp_all

lemma rn_upper: "0 \<le> x \<Longrightarrow> normal x \<Longrightarrow> rn x \<le> x * (1 + 1 / 2 ^ 53)"
proof -
  assume "0 \<le> x" and "normal x"
  then have "\<bar>rn x - x\<bar> \<le> x / 2 ^ 53" by (rule normal_error)
  then have "rn x \<le> x + x / 2 ^ 53" by linarith
  then show ?thesis by (simp add: algebra_simps)
qed

lemma rn_lower: "0 \<le> x \<Longrightarrow> normal x \<Longrightarrow> x * (1 - 1 / 2 ^ 53) \<le> rn x"
proof -
  assume "0 \<le> x" and "normal x"
  then have "\<bar>rn x - x\<bar> \<le> x / 2 ^ 53" by (rule normal_error)
  then have "x - x / 2 ^ 53 \<le> rn x" by linarith
  then show ?thesis by (simp add: algebra_simps)
qed

section \<open>Floating-point values and operations\<close>

datatype f64 = Fin rat | PosInf | NegInf | NaN

definition round64 :: "rat \<Rightarrow> f64" where
  "round64 x =
     (let r = rn x
      in if r \<noteq> 0 \<and> 1024 \<le> ilog2 \<bar>r\<bar> then (if 0 < r then PosInf else NegInf) else Fin r)"

definition inf_of :: "rat \<Rightarrow> f64" where
  "inf_of s = (if 0 < s then PosInf else if s < 0 then NegInf else NaN)"

fun f64_sgn :: "f64 \<Rightarrow> rat" where
  "f64_sgn (Fin x) = sgn x"
| "f64_sgn PosInf = 1"
| "f64_sgn NegInf = - 1"
| "f64_sgn NaN = 0"

fun f64_neg :: "f64 \<Rightarrow> f64" where
  "f64_neg (Fin x) = Fin (- x)"
| "f64_neg PosInf = NegInf"
| "f64_neg NegInf = PosInf"
| "f64_neg NaN = NaN"

fun f64_abs :: "f64 \<Rightarrow> f64" where
  "f64_abs (Fin x) = Fin \<bar>x\<bar>"
| "f64_abs NaN = NaN"
| "f64_abs _ = PosInf"

definition f64_of_int :: "int \<Rightarrow> f64" where
  "f64_of_int n = round64 (of_int n)"

fun f64_add :: "f64 \<Rightarrow> f64 \<Rightarrow> f64" where
  "f64_add (Fin a) (Fin b) = round64 (a + b)"
| "f64_add NaN _ = NaN"
| "f64_add _ NaN = NaN"
| "f64_add PosInf NegInf = NaN"
| "f64_add NegInf PosInf = NaN"
| "f64_add PosInf _ = PosInf"
| "f64_add _ PosInf = PosInf"
| "f64_add NegInf _ = NegInf"
| "f64_add _ NegInf = NegInf"

definition f64_sub :: "f64 \<Rightarrow> f64 \<Rightarrow> f64" where
  "f64_sub a b = f64_add a (f64_neg b)"

fun f64_mul :: "f64 \<Rightarrow> f64 \<Rightarrow> f64" where
  "f64_mul (Fin a) (Fin b) = round64 (a * b)"
| "f64_mul a b = inf_of (f64_sgn a * f64_sgn b)"

fun f64_div :: "f64 \<Rightarrow> f64 \<Rightarrow> f64" where
  "f64_div (Fin a) (Fin b) = (if b = 0 then inf_of a else round64 (a / b))"
| "f64_div NaN _ = NaN"
| "f64_div _ NaN = NaN"
| "f64_div (Fin a) _ = Fin 0"
| "f64_div a (Fin b) = inf_of (f64_sgn a * (if b < 0 then - 1 else 1))"
| "f64_div _ _ = NaN"

fun f64_lt :: "f64 \<Rightarrow> f64 \<Rightarrow> bool" where
  "f64_lt (Fin a) (Fin b) = (a < b)"
| "f64_lt NaN _ = False"
| "f64_lt _ NaN = False"
| "f64_lt _ NegInf = False"
| "f64_lt NegInf _ = True"
| "f64_lt PosInf _ = False"
| "f64_lt _ PosInf = True"

fun f64_le :: "f64 \<Rightarrow> f64 \<Rightarrow> bool" where
  "f64_le (Fin a) (Fin b) = (a \<le> b)"
| "f64_le NaN _ = False"
| "f64_le _ NaN = False"
| "f64_le NegInf _ = True"
| "f64_le _ PosInf = True"
| "f64_le _ _ = False"

fun f64_eq :: "f64 \<Rightarrow> f64 \<Rightarrow> bool" where
  "f64_eq NaN _ = False"
| "f64_eq _ NaN = False"
| "f64_eq a b = (a = b)"

fun f64_floor :: "f64 \<Rightarrow> f64" where
  "f64_floor (Fin x) = Fin (of_int \<lfloor>x\<rfloor>)"
| "f64_floor x = x"

fun f64_ceil :: "f64 \<Rightarrow> f64" where
  "f64_ceil (Fin x) = Fin (of_int \<lceil>x\<rceil>)"
| "f64_ceil x = x"

text \<open>The \<^verbatim>\<open>as\<close> casts to an integer type truncate, saturate and send NaN to zero.\<close>

fun f64_to_i128 :: "f64 \<Rightarrow> int" where
  "f64_to_i128 (Fin x) = saturate_i128 (if 0 \<le> x then \<lfloor>x\<rfloor> else \<lceil>x\<rceil>)"
| "f64_to_i128 PosInf = i128_max"
| "f64_to_i128 NegInf = i128_min"
| "f64_to_i128 NaN = 0"

fun f64_to_u64 :: "f64 \<Rightarrow> nat" where
  "f64_to_u64 (Fin x) = nat (min (2 ^ 64 - 1) \<lfloor>x\<rfloor>)"
| "f64_to_u64 PosInf = u64_max"
| "f64_to_u64 _ = 0"

definition f64_sum :: "f64 list \<Rightarrow> f64" where
  "f64_sum xs = foldl f64_add (Fin 0) xs"

subsection \<open>Square root\<close>

function isqrt :: "int \<Rightarrow> int" where
  "isqrt n =
     (if n \<le> 0 then 0
      else let r = 2 * isqrt (n div 4) in if (r + 1) * (r + 1) \<le> n then r + 1 else r)"
  by pat_completeness auto
termination
  by (relation "measure nat") auto

declare isqrt.simps [simp del]

text \<open>
  The scale \<open>s\<close> makes \<open>x * 4 ^ s\<close> at least \<open>2 ^ 110\<close>, so that its integer square root has
  more than the 54 bits that decide the rounding; an inexact root is represented by the
  midpoint above it, on the same side of every rounding boundary.
\<close>

definition sqrt_scale :: "rat \<Rightarrow> int" where
  "sqrt_scale x = max 0 ((112 - ilog2 x) div 2 + 1)"

definition sqrt_rn :: "rat \<Rightarrow> rat" where
  "sqrt_rn x =
     (if x \<le> 0 then 0
      else let s = sqrt_scale x; y = x * pow2 (2 * s); r = isqrt \<lfloor>y\<rfloor>
           in if of_int (r * r) = y then rn (of_int r / pow2 s)
              else rn (of_int (2 * r + 1) / pow2 (s + 1)))"

fun f64_sqrt :: "f64 \<Rightarrow> f64" where
  "f64_sqrt (Fin x) = (if x < 0 then NaN else Fin (sqrt_rn x))"
| "f64_sqrt PosInf = PosInf"
| "f64_sqrt _ = NaN"

lemma isqrt_spec:
  "0 \<le> n \<Longrightarrow> 0 \<le> isqrt n \<and> isqrt n * isqrt n \<le> n \<and> n < (isqrt n + 1) * (isqrt n + 1)"
proof (induction n rule: isqrt.induct)
  case (1 n)
  show ?case
  proof (cases "n = 0")
    case True
    then show ?thesis by (simp add: isqrt.simps)
  next
    case False
    define k where "k = isqrt (n div 4)"
    have k: "0 \<le> k" "k * k \<le> n div 4" "n div 4 < (k + 1) * (k + 1)"
      using 1 False by (simp_all add: k_def)
    then have lo: "4 * (k * k) \<le> n" and hi: "n < 4 * ((k + 1) * (k + 1))" by linarith+
    have "isqrt n = (if (2 * k + 1) * (2 * k + 1) \<le> n then 2 * k + 1 else 2 * k)"
      using False 1(2) by (subst isqrt.simps) (simp add: Let_def k_def)
    then show ?thesis using k(1) lo hi by (auto simp: algebra_simps)
  qed
qed

lemma isqrt_nonneg: "0 \<le> isqrt n"
proof (cases "0 \<le> n")
  case True
  then show ?thesis using isqrt_spec by blast
next
  case False
  then show ?thesis by (subst isqrt.simps) simp
qed

lemma sqrt_rn_nonneg: "0 \<le> sqrt_rn x"
proof -
  have "0 \<le> (of_int (isqrt \<lfloor>x * 2 powi (2 * sqrt_scale x)\<rfloor>) :: rat)"
    by (simp add: isqrt_nonneg)
  then show ?thesis by (auto simp: sqrt_rn_def Let_def intro!: rn_nonneg)
qed

subsection \<open>The operations in the range of the program\<close>

text \<open>
  Every magnitude the oracle computes stays below \<open>2 ^ 300\<close>, far from overflow: there the
  operations are the exact ones followed by one rounding.
\<close>

lemma rn_abs_le_pow: "\<bar>x\<bar> \<le> 2 ^ n \<Longrightarrow> \<bar>rn x\<bar> \<le> 2 ^ n"
proof -
  assume x: "\<bar>x\<bar> \<le> 2 ^ n"
  have rep: "representable (2 ^ n)"
    using representable_powi [of "int n"] by simp
  have "rn x \<le> 2 ^ n" and "rn (- x) \<le> 2 ^ n"
    using x by (intro rn_le [OF _ rep]; simp add: abs_le_iff)+
  then show ?thesis by (simp add: rn_minus abs_le_iff)
qed

lemma round64_Fin: "\<bar>x\<bar> \<le> 2 ^ 300 \<Longrightarrow> round64 x = Fin (rn x)"
proof -
  assume "\<bar>x\<bar> \<le> 2 ^ 300"
  then have "\<bar>rn x\<bar> \<le> 2 ^ 300" by (rule rn_abs_le_pow)
  also have "(2 :: rat) ^ 300 = 2 powi 300" by (simp only: power_int_numeral)
  also have "\<dots> < 2 powi 1024" by (simp only: powi2_less_iff)
  finally have lt: "\<bar>rn x\<bar> < 2 powi (1023 + 1)" by simp
  have "\<not> (rn x \<noteq> 0 \<and> 1024 \<le> ilog2 \<bar>rn x\<bar>)"
    using ilog2_le [OF _ lt] by auto
  then show ?thesis unfolding round64_def Let_def by (simp only: if_False)
qed

lemma in_i128_abs: "in_i128 n \<Longrightarrow> \<bar>of_int n :: rat\<bar> \<le> 2 ^ 127"
proof -
  assume "in_i128 n"
  then have "\<bar>n\<bar> \<le> 2 ^ 127" by (auto simp: int_ops)
  then have "(of_int \<bar>n\<bar> :: rat) \<le> of_int (2 ^ 127)" by (simp only: of_int_le_iff)
  then show ?thesis by simp
qed

definition frn :: "int \<Rightarrow> rat" where
  "frn n = rn (of_int n)"

lemma f64_of_int_Fin:
  assumes "in_i128 n"
  shows "f64_of_int n = Fin (frn n)"
proof -
  have "\<bar>of_int n :: rat\<bar> \<le> 2 ^ 127" using assms by (rule in_i128_abs)
  also have "\<dots> \<le> 2 ^ 300" by (intro power_increasing) simp_all
  finally show ?thesis by (simp add: f64_of_int_def frn_def round64_Fin)
qed

lemma frn_bound: "in_i128 n \<Longrightarrow> \<bar>frn n\<bar> \<le> 2 ^ 127"
  unfolding frn_def by (intro rn_abs_le_pow in_i128_abs)

lemma frn_mono: "m \<le> n \<Longrightarrow> frn m \<le> frn n"
  by (simp add: frn_def rn_mono)

lemma frn_exact: "\<bar>n\<bar> \<le> 2 ^ 53 \<Longrightarrow> frn n = of_int n"
  by (simp add: frn_def rn_of_int_exact)

lemma frn_0 [simp]: "frn 0 = 0"
  by (simp add: frn_def)

lemma frn_nonneg: "0 \<le> n \<Longrightarrow> 0 \<le> frn n"
  by (simp add: frn_def rn_nonneg)

lemma frn_ge_1: "1 \<le> n \<Longrightarrow> 1 \<le> frn n"
  using frn_mono [of 1 n] by (simp add: frn_exact)

lemma frn_pos: "0 < n \<Longrightarrow> 0 < frn n"
  using frn_ge_1 [of n] by simp

lemma normal_of_int: "normal (of_int n)"
proof (cases "n = 0")
  case True
  then show ?thesis by (simp add: normal_def)
next
  case False
  then have "(of_int 1 :: rat) \<le> of_int \<bar>n\<bar>" by (simp only: of_int_le_iff)
  then have "2 powi 0 \<le> \<bar>of_int n :: rat\<bar>" by simp
  then have "normal \<bar>of_int n\<bar>" by (rule normal_ge_powi [rotated]) simp
  then show ?thesis by (simp add: normal_def)
qed

lemma frn_upper: "0 \<le> n \<Longrightarrow> frn n \<le> of_int n * (1 + 1 / 2 ^ 53)"
  unfolding frn_def by (intro rn_upper normal_of_int) simp

lemma frn_lower: "0 \<le> n \<Longrightarrow> of_int n * (1 - 1 / 2 ^ 53) \<le> frn n"
  unfolding frn_def by (intro rn_lower normal_of_int) simp

lemma representable_frn [simp]: "representable (frn n)"
  by (simp add: frn_def representable_rn)

lemma frn_Ints: "\<exists>m. frn n = of_int m"
  by (simp add: frn_def rn_of_int_Ints)

end
