(* ===== verification/Oracle_Prices.thy ===== *)
theory Oracle_Prices
  imports Oracle_F64
begin

text \<open>
  The price aggregation of \<^verbatim>\<open>oracle/src/prices.rs\<close>: the median, the interpolated percentile,
  the price band, the consistent cluster, the outlier filter and \<^verbatim>\<open>aggregate_prices\<close>, which
  composes them. A function of the source that can panic (an index out of range, an
  overflowing unchecked operation on \<^verbatim>\<open>i128\<close>) yields \<open>None\<close> or \<open>Panic\<close> there.
\<close>

section \<open>Data\<close>

definition MIN_SOURCES_FOR_PERCENTILE :: nat where
  "MIN_SOURCES_FOR_PERCENTILE = 3"

definition DEFAULT_CLUSTER_TOLERANCE_BPS :: u32 where
  "DEFAULT_CLUSTER_TOLERANCE_BPS = 500"

definition cluster_tolerance_bps :: "u32 \<Rightarrow> u32" where
  "cluster_tolerance_bps max_deviation_bps = max max_deviation_bps DEFAULT_CLUSTER_TOLERANCE_BPS"

record price_props =
  pp_min :: i128
  pp_max :: i128

record rejected_source =
  rs_source :: string
  rs_price :: i128
  rs_deviation_bps :: f64

record aggregated_price =
  ap_min :: i128
  ap_max :: i128
  ap_median :: i128
  ap_sources_used :: "string list"
  ap_rejected_sources :: "rejected_source list"
  ap_min_observation_time :: u64

record cluster_result =
  cr_prices :: "i128 list"
  cr_sources :: "string list"

record outlier_filter_result =
  ofr_prices :: "i128 list"
  ofr_sources :: "string list"
  ofr_rejected :: "(string \<times> i128 \<times> f64) list"

datatype agg_error =
    SourcesLengthMismatch
  | TimesLengthMismatch
  | InsufficientSources nat nat
  | NoConsistentCluster
  | InsufficientCluster nat nat
  | InsufficientAfterFilter nat nat
  | EmptyPriceList
  | NoConfidenceInterval
  | NoObservationTimes

fun agg_error_message :: "agg_error \<Rightarrow> string" where
  "agg_error_message SourcesLengthMismatch = ''prices and sources length mismatch''"
| "agg_error_message TimesLengthMismatch = ''observation_times and sources length mismatch''"
| "agg_error_message (InsufficientSources got need) =
     ''insufficient sources: got '' @ nat_digits got @ '', need '' @ nat_digits need"
| "agg_error_message NoConsistentCluster = ''no consistent price cluster found''"
| "agg_error_message (InsufficientCluster got need) =
     ''insufficient sources in consistent cluster: got '' @ nat_digits got @ '', need ''
       @ nat_digits need"
| "agg_error_message (InsufficientAfterFilter got need) =
     ''insufficient sources after outlier filtering: got '' @ nat_digits got @ '', need ''
       @ nat_digits need"
| "agg_error_message EmptyPriceList = ''cannot aggregate empty price list''"
| "agg_error_message NoConfidenceInterval = ''cannot compute confidence interval''"
| "agg_error_message NoObservationTimes = ''no observation times available''"

section \<open>Median, deviation, percentile\<close>

text \<open>The middle of a sorted vector; the unchecked sum of the two middle values may overflow.\<close>

definition median_sorted :: "i128 list \<Rightarrow> i128 option" where
  "median_sorted s =
     (let n = length s
      in if even n
         then map_option (\<lambda>x. trunc_div x 2) (checked_i128 (s ! (n div 2 - 1) + s ! (n div 2)))
         else Some (s ! (n div 2)))"

definition compute_median_allow_single :: "i128 list \<Rightarrow> ('e, i128 option) outcome" where
  "compute_median_allow_single prices =
     (if prices = [] then Ok None else or_panic (map_option Some (median_sorted (sort prices))))"

definition compute_median :: "i128 list \<Rightarrow> ('e, i128 option) outcome" where
  "compute_median prices =
     (if length prices < 2 then Ok None else compute_median_allow_single prices)"

definition deviation_bps :: "i128 \<Rightarrow> i128 \<Rightarrow> f64" where
  "deviation_bps price median =
     (if median = 0 then PosInf
      else f64_mul
             (f64_div (f64_abs (f64_sub (f64_of_int price) (f64_of_int median)))
                      (f64_abs (f64_of_int median)))
             (Fin 10000))"

definition interpolate :: "f64 \<Rightarrow> nat \<Rightarrow> i128 \<Rightarrow> i128 \<Rightarrow> i128" where
  "interpolate idx lo lo_price hi_price =
     (let frac = f64_sub idx (f64_of_int (int lo));
          lo_val = f64_of_int lo_price;
          hi_val = f64_of_int hi_price
      in f64_to_i128 (f64_floor
           (f64_add (f64_add lo_val (f64_mul frac (f64_sub hi_val lo_val))) (Fin (1 / 2)))))"

definition percentile_index :: "nat \<Rightarrow> nat \<Rightarrow> f64" where
  "percentile_index n p =
     f64_mul (f64_div (f64_of_int (int p)) (Fin 100)) (f64_sub (f64_of_int (int n)) (Fin 1))"

definition percentile :: "i128 list \<Rightarrow> nat \<Rightarrow> i128 option" where
  "percentile xs p =
     (if length xs = 1 \<or> p = 0 then index xs 0
      else if 100 \<le> p then (if xs = [] then None else Some (last xs))
      else
        let idx = percentile_index (length xs) p;
            lo = f64_to_u64 (f64_floor idx);
            hi = f64_to_u64 (f64_ceil idx)
        in if lo = hi then index xs lo
           else case (index xs lo, index xs hi) of
                  (Some a, Some b) \<Rightarrow> Some (interpolate idx lo a b)
                | _ \<Rightarrow> None)"

section \<open>The price band\<close>

definition spread_of :: "i128 \<Rightarrow> u32 \<Rightarrow> i128" where
  "spread_of mid spread_bps = trunc_div (saturate_i128 (mid * int spread_bps)) 10000"

definition band :: "i128 \<Rightarrow> i128 \<Rightarrow> i128 \<Rightarrow> price_props" where
  "band lo hi spread =
     \<lparr>pp_min = max (saturate_i128 (lo - spread)) 0, pp_max = saturate_i128 (hi + spread)\<rparr>"

definition compute_confidence_interval_with_spread ::
  "i128 list \<Rightarrow> u32 \<Rightarrow> ('e, price_props option) outcome" where
  "compute_confidence_interval_with_spread prices spread_bps =
     (if prices = [] then Ok None
      else
        let s = sort prices
        in if MIN_SOURCES_FOR_PERCENTILE \<le> length s
           then bind_outcome (or_panic (percentile s 10)) (\<lambda>lo.
                bind_outcome (or_panic (percentile s 90)) (\<lambda>hi.
                bind_outcome (compute_median_allow_single s) (\<lambda>m.
                  let mid = (case m of None \<Rightarrow> lo | Some x \<Rightarrow> x)
                  in Ok (Some (band lo hi (spread_of mid spread_bps))))))
           else bind_outcome (compute_median_allow_single s) (\<lambda>m.
                case m of None \<Rightarrow> Ok None
                | Some mid \<Rightarrow> Ok (Some (band mid mid (spread_of mid spread_bps)))))"

definition compute_confidence_interval :: "i128 list \<Rightarrow> ('e, price_props option) outcome" where
  "compute_confidence_interval prices = compute_confidence_interval_with_spread prices 100"

section \<open>The largest consistent cluster\<close>

definition exceeds_tolerance :: "u32 \<Rightarrow> i128 \<Rightarrow> i128 \<Rightarrow> bool" where
  "exceeds_tolerance tol hi lo = f64_lt (f64_of_int (int tol)) (deviation_bps hi lo)"

text \<open>The inner \<^verbatim>\<open>while\<close>: reading past the end of the vector panics.\<close>

function advance_start :: "(i128 \<times> string) list \<Rightarrow> u32 \<Rightarrow> i128 \<Rightarrow> nat \<Rightarrow> nat option" where
  "advance_start xs tol hi start =
     (if start < length xs
      then if exceeds_tolerance tol hi (fst (xs ! start))
           then advance_start xs tol hi (Suc start)
           else Some start
      else None)"
  by pat_completeness auto
termination
  by (relation "measure (\<lambda>(xs, tol, hi, start). length xs - start)") auto

declare advance_start.simps [simp del]

text \<open>One iteration of the outer loop over the state \<open>(best.0, best.1, start)\<close>.\<close>

definition cluster_step ::
  "(i128 \<times> string) list \<Rightarrow> u32 \<Rightarrow> nat \<Rightarrow> nat \<times> nat \<times> nat \<Rightarrow> (nat \<times> nat \<times> nat) option" where
  "cluster_step xs tol stop st =
     (case st of (bs, be, start0) \<Rightarrow>
       let hi = fst (xs ! (stop - 1))
       in case advance_start xs tol hi start0 of
            None \<Rightarrow> None
          | Some start \<Rightarrow>
              if stop < start then None
              else case (checked_i128 (hi - fst (xs ! start)),
                         checked_i128 (fst (xs ! (be - 1)) - fst (xs ! bs))) of
                     (Some spread, Some best_spread) \<Rightarrow>
                       let len = stop - start; best_len = be - bs
                       in Some (if best_len < len \<or> (len = best_len \<and> spread < best_spread)
                                then (start, stop, start) else (bs, be, start))
                   | _ \<Rightarrow> None)"

fun cluster_loop ::
  "(i128 \<times> string) list \<Rightarrow> u32 \<Rightarrow> nat list \<Rightarrow> nat \<times> nat \<times> nat \<Rightarrow> (nat \<times> nat \<times> nat) option" where
  "cluster_loop xs tol [] st = Some st"
| "cluster_loop xs tol (e # es) st =
     (case cluster_step xs tol e st of None \<Rightarrow> None | Some st' \<Rightarrow> cluster_loop xs tol es st')"

definition find_largest_consistent_cluster ::
  "i128 list \<Rightarrow> string list \<Rightarrow> u32 \<Rightarrow> ('e, cluster_result option) outcome" where
  "find_largest_consistent_cluster prices sources tolerance_bps =
     (if prices = [] then Ok None
      else
        let xs = sort (zip prices sources)
        in case cluster_loop xs tolerance_bps [1..<Suc (length xs)] (0, 1, 0) of
             None \<Rightarrow> Panic
           | Some (bs, be, _) \<Rightarrow>
               if length xs < be then Panic
               else let window = drop bs (take be xs)
                    in Ok (Some \<lparr>cr_prices = map fst window, cr_sources = map snd window\<rparr>))"

section \<open>The outlier filter\<close>

definition sum_i128 :: "i128 list \<Rightarrow> i128 option" where
  "sum_i128 xs =
     foldl (\<lambda>acc x. case acc of None \<Rightarrow> None | Some a \<Rightarrow> checked_i128 (a + x)) (Some 0) xs"

definition checked_abs_diff :: "i128 \<Rightarrow> i128 \<Rightarrow> i128 option" where
  "checked_abs_diff a b =
     (case checked_i128 (a - b) of None \<Rightarrow> None | Some d \<Rightarrow> checked_i128 \<bar>d\<bar>)"

fun map_option_list :: "('a \<Rightarrow> 'b option) \<Rightarrow> 'a list \<Rightarrow> 'b list option" where
  "map_option_list f [] = Some []"
| "map_option_list f (x # xs) =
     (case f x of None \<Rightarrow> None
      | Some y \<Rightarrow> (case map_option_list f xs of None \<Rightarrow> None | Some ys \<Rightarrow> Some (y # ys)))"

text \<open>Exactly two prices: relative agreement within 1000 basis points of their average.\<close>

definition filter_two ::
  "i128 \<Rightarrow> i128 \<Rightarrow> string list \<Rightarrow> outlier_filter_result option" where
  "filter_two q0 q1 sources =
     (let p0 = f64_of_int q0; p1 = f64_of_int q1;
          avg = f64_div (f64_add p0 p1) (Fin 2);
          keep_both = \<lparr>ofr_prices = [q0, q1], ofr_sources = sources, ofr_rejected = []\<rparr>
      in if f64_eq avg (Fin 0) then Some keep_both
         else
           let dev = f64_mul (f64_div (f64_abs (f64_sub p0 p1)) (f64_abs avg)) (Fin 10000)
           in if f64_le dev (Fin 1000) then Some keep_both
              else case (index sources 0, index sources 1) of
                     (Some s0, Some s1) \<Rightarrow>
                       if f64_le (f64_abs (f64_sub p0 avg)) (f64_abs (f64_sub p1 avg))
                       then Some \<lparr>ofr_prices = [q0], ofr_sources = [s0],
                                  ofr_rejected = [(s1, q1, dev)]\<rparr>
                       else Some \<lparr>ofr_prices = [q1], ofr_sources = [s1],
                                  ofr_rejected = [(s0, q0, dev)]\<rparr>
                   | _ \<Rightarrow> None)"

definition mean_of :: "i128 \<Rightarrow> nat \<Rightarrow> f64" where
  "mean_of psum n = f64_div (f64_of_int psum) (f64_of_int (int n))"

definition stddev_of :: "i128 list \<Rightarrow> f64 \<Rightarrow> f64" where
  "stddev_of prices mean =
     f64_sqrt (f64_div
       (f64_sum (map (\<lambda>p. let diff = f64_sub (f64_of_int p) mean in f64_mul diff diff) prices))
       (f64_of_int (int (length prices))))"

definition is_outlier :: "u32 \<Rightarrow> i128 \<Rightarrow> i128 \<Rightarrow> f64 \<Rightarrow> i128 \<Rightarrow> bool" where
  "is_outlier max_deviation_bps median mad stddev p =
     (let dev = f64_abs (f64_sub (f64_of_int p) (f64_of_int median))
      in if f64_lt (f64_of_int (int max_deviation_bps)) (deviation_bps p median) then True
         else if 0 < mad then f64_lt (f64_mul (Fin 6) (f64_of_int mad)) dev
         else f64_lt (Fin 0) stddev \<and> f64_lt (f64_mul (Fin 3) stddev) dev)"

fun partition_outliers ::
  "(i128 \<Rightarrow> bool) \<Rightarrow> (i128 \<Rightarrow> f64) \<Rightarrow> i128 list \<Rightarrow> string list \<Rightarrow> outlier_filter_result option" where
  "partition_outliers out dev [] ss =
     Some \<lparr>ofr_prices = [], ofr_sources = [], ofr_rejected = []\<rparr>"
| "partition_outliers out dev (p # ps) [] = None"
| "partition_outliers out dev (p # ps) (s # ss) =
     (case partition_outliers out dev ps ss of
        None \<Rightarrow> None
      | Some r \<Rightarrow>
          Some (if out p then r\<lparr>ofr_rejected := (s, p, dev p) # ofr_rejected r\<rparr>
                else r\<lparr>ofr_prices := p # ofr_prices r, ofr_sources := s # ofr_sources r\<rparr>))"

definition filter_many ::
  "i128 list \<Rightarrow> string list \<Rightarrow> u32 \<Rightarrow> outlier_filter_result option" where
  "filter_many prices sources max_deviation_bps =
     (case median_sorted (sort prices) of None \<Rightarrow> None | Some median \<Rightarrow>
      (case map_option_list (\<lambda>p. checked_abs_diff p median) prices of None \<Rightarrow> None | Some devs \<Rightarrow>
       (case median_sorted (sort devs) of None \<Rightarrow> None | Some mad \<Rightarrow>
        (case sum_i128 prices of None \<Rightarrow> None | Some psum \<Rightarrow>
          (let stddev = stddev_of prices (mean_of psum (length prices))
           in partition_outliers (is_outlier max_deviation_bps median mad stddev)
                (\<lambda>p. deviation_bps p median) prices sources)))))"

definition filter_outliers ::
  "i128 list \<Rightarrow> string list \<Rightarrow> u32 \<Rightarrow> ('e, outlier_filter_result) outcome" where
  "filter_outliers prices sources max_deviation_bps =
     (case prices of
        [] \<Rightarrow> Ok \<lparr>ofr_prices = [], ofr_sources = [], ofr_rejected = []\<rparr>
      | [q0, q1] \<Rightarrow> or_panic (filter_two q0 q1 sources)
      | _ \<Rightarrow> or_panic (filter_many prices sources max_deviation_bps))"

section \<open>Aggregation\<close>

definition cluster_rejected ::
  "i128 list \<Rightarrow> string list \<Rightarrow> string list \<Rightarrow> i128 \<Rightarrow> rejected_source list" where
  "cluster_rejected prices sources kept median =
     map (\<lambda>(p, s). \<lparr>rs_source = s, rs_price = p, rs_deviation_bps = deviation_bps p median\<rparr>)
       (filter (\<lambda>(p, s). s \<notin> set kept) (zip prices sources))"

text \<open>\<^verbatim>\<open>sources.iter().position(|s| s == source)\<close>.\<close>

fun position :: "'a \<Rightarrow> 'a list \<Rightarrow> nat option" where
  "position x [] = None"
| "position x (y # ys) = (if y = x then Some 0 else map_option Suc (position x ys))"

definition observed_at :: "string list \<Rightarrow> u64 list \<Rightarrow> string list \<Rightarrow> u64 list" where
  "observed_at sources obs_times used =
     List.map_filter (\<lambda>s. map_option (\<lambda>i. obs_times ! i) (position s sources)) used"

definition min_time :: "u64 list \<Rightarrow> u64 option" where
  "min_time ts = (case ts of [] \<Rightarrow> None | t # ts' \<Rightarrow> Some (foldl min t ts'))"

definition finish_aggregate ::
  "i128 list \<Rightarrow> string list \<Rightarrow> u64 list \<Rightarrow> u32 \<Rightarrow> cluster_result \<Rightarrow> outlier_filter_result
     \<Rightarrow> (agg_error, aggregated_price) outcome" where
  "finish_aggregate prices sources obs_times max_deviation_bps cluster fr =
     bind_outcome (bind_outcome (compute_median_allow_single (ofr_prices fr)) (or_err EmptyPriceList))
       (\<lambda>median.
     bind_outcome (bind_outcome
         (compute_confidence_interval_with_spread (ofr_prices fr) max_deviation_bps)
         (or_err NoConfidenceInterval)) (\<lambda>props.
     bind_outcome (compute_median_allow_single (ofr_prices fr)) (\<lambda>median2.
     bind_outcome (or_err NoObservationTimes (min_time (observed_at sources obs_times (ofr_sources fr))))
       (\<lambda>t.
       Ok \<lparr>ap_min = pp_min props, ap_max = pp_max props,
           ap_median = (case median2 of None \<Rightarrow> pp_min props | Some m \<Rightarrow> m),
           ap_sources_used = ofr_sources fr,
           ap_rejected_sources =
             cluster_rejected prices sources (cr_sources cluster) median
             @ map (\<lambda>(s, p, d). \<lparr>rs_source = s, rs_price = p, rs_deviation_bps = d\<rparr>)
                 (ofr_rejected fr),
           ap_min_observation_time = t\<rparr>))))"

definition aggregate_prices ::
  "i128 list \<Rightarrow> string list \<Rightarrow> u64 list \<Rightarrow> nat \<Rightarrow> u32 \<Rightarrow> (agg_error, aggregated_price) outcome" where
  "aggregate_prices prices sources obs_times min_sources max_deviation_bps =
     (if length prices \<noteq> length sources then Err SourcesLengthMismatch
      else if length prices \<noteq> length obs_times then Err TimesLengthMismatch
      else if length prices < min_sources then Err (InsufficientSources (length prices) min_sources)
      else
        bind_outcome (bind_outcome
            (find_largest_consistent_cluster prices sources
               (cluster_tolerance_bps max_deviation_bps))
            (or_err NoConsistentCluster)) (\<lambda>cluster.
        if length (cr_prices cluster) < min_sources
        then Err (InsufficientCluster (length (cr_prices cluster)) min_sources)
        else
          bind_outcome (filter_outliers (cr_prices cluster) (cr_sources cluster) max_deviation_bps)
            (\<lambda>fr.
          if length (ofr_prices fr) < min_sources
          then Err (InsufficientAfterFilter (length (ofr_prices fr)) min_sources)
          else finish_aggregate prices sources obs_times max_deviation_bps cluster fr)))"

end
