(* ===== verification/Oracle_Cluster.thy ===== *)
theory Oracle_Cluster
  imports Oracle_Prices "HOL-Library.Multiset"
begin

text \<open>
  The two-pointer search of \<^verbatim>\<open>find_largest_consistent_cluster\<close>. The locale \<open>window_search\<close>
  is the interface the search relies on: a relation \<open>bad\<close> between a lower and a higher element
  that no element has with itself and that only grows when the pair is widened. Inside it the
  optimality of the best window is proved once; the interpretation gives it the rounded
  floating-point deviation of the code, whose monotonicity rests on that of rounding.
\<close>

section \<open>Sliding windows over a sorted vector\<close>

locale window_search =
  fixes bad :: "'a \<Rightarrow> 'a \<Rightarrow> bool"
    and valid :: "'a \<Rightarrow> bool"
    and below :: "'a \<Rightarrow> 'a \<Rightarrow> bool"
    and gap :: "'a \<Rightarrow> 'a \<Rightarrow> int"
  assumes below_refl: "below x x"
    and bad_irrefl: "valid x \<Longrightarrow> \<not> bad x x"
    and bad_widen: "valid a \<Longrightarrow> valid d \<Longrightarrow> valid b \<Longrightarrow> valid c \<Longrightarrow>
          below a b \<Longrightarrow> below b c \<Longrightarrow> below c d \<Longrightarrow> bad b c \<Longrightarrow> bad a d"
begin

definition ordered :: "'a list \<Rightarrow> bool" where
  "ordered xs \<longleftrightarrow> (\<forall>i j. i \<le> j \<longrightarrow> j < length xs \<longrightarrow> below (xs ! i) (xs ! j)) \<and> list_all valid xs"

definition consistent :: "'a list \<Rightarrow> nat \<Rightarrow> nat \<Rightarrow> bool" where
  "consistent xs i j \<longleftrightarrow> i < j \<and> j \<le> length xs \<and> \<not> bad (xs ! i) (xs ! (j - 1))"

text \<open>
  \<open>best_upto xs e i j\<close>: the half-open window \<open>[i, j)\<close> is consistent, and no consistent window
  ending at or before \<open>e\<close> is longer, or as long and tighter.
\<close>

definition best_upto :: "'a list \<Rightarrow> nat \<Rightarrow> nat \<Rightarrow> nat \<Rightarrow> bool" where
  "best_upto xs e i j \<longleftrightarrow> consistent xs i j \<and>
     (\<forall>i' j'. consistent xs i' j' \<longrightarrow> j' \<le> e \<longrightarrow>
        j' - i' < j - i \<or>
        (j' - i' = j - i \<and> gap (xs ! i) (xs ! (j - 1)) \<le> gap (xs ! i') (xs ! (j' - 1))))"

definition first_good :: "'a list \<Rightarrow> nat \<Rightarrow> nat \<Rightarrow> bool" where
  "first_good xs e s \<longleftrightarrow> s < e \<and> \<not> bad (xs ! s) (xs ! (e - 1)) \<and>
     (\<forall>i < s. bad (xs ! i) (xs ! (e - 1)))"

lemma ordered_valid: "ordered xs \<Longrightarrow> i < length xs \<Longrightarrow> valid (xs ! i)"
  by (simp add: ordered_def list_all_length)

lemma ordered_below: "ordered xs \<Longrightarrow> i \<le> j \<Longrightarrow> j < length xs \<Longrightarrow> below (xs ! i) (xs ! j)"
  by (simp add: ordered_def)

lemma bad_outer:
  assumes "ordered xs" and "i \<le> i'" and "i' \<le> j'" and "j' \<le> j" and "j < length xs"
    and "bad (xs ! i') (xs ! j')"
  shows "bad (xs ! i) (xs ! j)"
proof -
  have "valid (xs ! i)" "valid (xs ! j)" "valid (xs ! i')" "valid (xs ! j')"
    using assms by (auto intro!: ordered_valid)
  moreover have "below (xs ! i) (xs ! i')" "below (xs ! i') (xs ! j')" "below (xs ! j') (xs ! j)"
    using assms by (auto intro!: ordered_below)
  ultimately show ?thesis using assms(6) by (rule bad_widen)
qed

lemma consistent_singleton: "ordered xs \<Longrightarrow> e < length xs \<Longrightarrow> consistent xs e (Suc e)"
  using ordered_valid [of xs e] bad_irrefl by (simp add: consistent_def)

text \<open>Inside a consistent window every pair is consistent.\<close>

lemma consistent_pairwise:
  assumes "ordered xs" and "consistent xs i j" and "i \<le> a" and "a \<le> b" and "b < j"
  shows "\<not> bad (xs ! a) (xs ! b)"
proof
  assume "bad (xs ! a) (xs ! b)"
  moreover have "b \<le> j - 1" and "j - 1 < length xs"
    using assms by (auto simp: consistent_def)
  ultimately have "bad (xs ! i) (xs ! (j - 1))"
    by (intro bad_outer [OF assms(1,3,4)])
  then show False using assms(2) by (simp add: consistent_def)
qed

text \<open>The start of the window only moves right.\<close>

lemma first_good_bad_below:
  assumes "ordered xs" and "first_good xs e s" and "Suc e \<le> length xs" and "i < s"
  shows "bad (xs ! i) (xs ! e)"
  using assms bad_outer [of xs i i "e - 1" e] by (auto simp: first_good_def)

lemma first_good_unique: "first_good xs e s \<Longrightarrow> first_good xs e s' \<Longrightarrow> s = s'"
  by (meson first_good_def linorder_neqE_nat)

lemma best_upto_zero:
  assumes "ordered xs" and "xs \<noteq> []"
  shows "best_upto xs 0 0 1"
  using assms consistent_singleton [of xs 0] by (auto simp: best_upto_def consistent_def)

text \<open>
  One iteration: with the first good start \<open>s\<close> for the window ending at \<open>Suc e\<close>, the better of
  the old best and \<open>[s, Suc e)\<close> is the best among windows ending at or before \<open>Suc e\<close>.
\<close>

lemma best_upto_step:
  assumes ord: "ordered xs" and best: "best_upto xs e i j" and s: "first_good xs (Suc e) s"
    and e: "e < length xs"
  shows "if j - i < Suc e - s \<or>
            (Suc e - s = j - i \<and> gap (xs ! s) (xs ! e) < gap (xs ! i) (xs ! (j - 1)))
         then best_upto xs (Suc e) s (Suc e) else best_upto xs (Suc e) i j"
proof -
  have cs: "consistent xs s (Suc e)" using s e by (simp add: first_good_def consistent_def)
  have new: "i' = s \<or> Suc e - i' < Suc e - s" if "consistent xs i' (Suc e)" for i'
  proof -
    have "\<not> i' < s" using that s by (auto simp: first_good_def consistent_def)
    then show ?thesis using that by (auto simp: consistent_def)
  qed
  have cij: "consistent xs i j" using best by (simp add: best_upto_def)
  have old: "j' - i' < j - i \<or>
      (j' - i' = j - i \<and> gap (xs ! i) (xs ! (j - 1)) \<le> gap (xs ! i') (xs ! (j' - 1)))"
    if "consistent xs i' j'" "j' \<le> e" for i' j'
    using best that by (simp add: best_upto_def)
  show ?thesis
  proof (cases "j - i < Suc e - s \<or>
      (Suc e - s = j - i \<and> gap (xs ! s) (xs ! e) < gap (xs ! i) (xs ! (j - 1)))")
    case True
    have "j' - i' < Suc e - s \<or> (j' - i' = Suc e - s \<and>
        gap (xs ! s) (xs ! (Suc e - 1)) \<le> gap (xs ! i') (xs ! (j' - 1)))"
      if "consistent xs i' j'" "j' \<le> Suc e" for i' j'
    proof (cases "j' = Suc e")
      case True
      then show ?thesis using new [of i'] that by auto
    next
      case False
      then show ?thesis using old [of i' j'] that \<open>_ \<or> _\<close> by fastforce
    qed
    then have "best_upto xs (Suc e) s (Suc e)" using cs unfolding best_upto_def by blast
    then show ?thesis using True by (simp only: if_True)
  next
    case False
    have "j' - i' < j - i \<or> (j' - i' = j - i \<and>
        gap (xs ! i) (xs ! (j - 1)) \<le> gap (xs ! i') (xs ! (j' - 1)))"
      if "consistent xs i' j'" "j' \<le> Suc e" for i' j'
    proof (cases "j' = Suc e")
      case True
      then show ?thesis using new [of i'] that False by auto
    next
      case False
      then show ?thesis using old [of i' j'] that by simp
    qed
    then have "best_upto xs (Suc e) i j" using cij unfolding best_upto_def by blast
    then show ?thesis using False by (simp only: if_False)
  qed
qed

end

section \<open>The deviation of the code\<close>

definition dev_rat :: "i128 \<Rightarrow> i128 \<Rightarrow> rat" where
  "dev_rat p m = rn (rn (rn \<bar>frn p - frn m\<bar> / frn m) * 10000)"

lemma le_pow300: "x \<le> 2 ^ n \<Longrightarrow> n \<le> 300 \<Longrightarrow> x \<le> (2 :: rat) ^ 300"
  by (erule order_trans) (intro power_increasing, simp_all)

lemma rn_abs: "\<bar>rn x\<bar> = rn \<bar>x\<bar>"
  using rn_nonneg [of x] rn_nonpos [of x] by (cases "0 \<le> x") (simp_all add: rn_minus)

lemma divide_le_self: "1 \<le> (m :: rat) \<Longrightarrow> 0 \<le> r \<Longrightarrow> r / m \<le> r"
  using frac_le [of r r 1 m] by simp

lemma deviation_bps_Fin:
  assumes p: "in_i128 p" and m: "in_i128 m" and pos: "0 < m"
  shows "deviation_bps p m = Fin (dev_rat p m)"
proof -
  have m1: "1 \<le> frn m" using pos by (intro frn_ge_1) simp
  have d: "\<bar>frn p - frn m\<bar> \<le> 2 ^ 128"
    using abs_triangle_ineq4 [of "frn p" "frn m"] frn_bound [OF p] frn_bound [OF m] by simp
  then have d1: "\<bar>rn (frn p - frn m)\<bar> \<le> 2 ^ 128" by (rule rn_abs_le_pow)
  then have "\<bar>rn (frn p - frn m)\<bar> / frn m \<le> 2 ^ 128"
    by (intro order_trans [OF divide_le_self [OF m1]]) simp_all
  moreover have "\<bar>\<bar>rn (frn p - frn m)\<bar> / frn m\<bar> = \<bar>rn (frn p - frn m)\<bar> / frn m"
    using m1 by simp
  ultimately have q: "\<bar>\<bar>rn (frn p - frn m)\<bar> / frn m\<bar> \<le> 2 ^ 128" by (simp only:)
  then have "\<bar>rn (\<bar>rn (frn p - frn m)\<bar> / frn m)\<bar> \<le> 2 ^ 128" by (rule rn_abs_le_pow)
  then have "\<bar>rn (\<bar>rn (frn p - frn m)\<bar> / frn m) * 10000\<bar> \<le> 2 ^ 128 * 2 ^ 14"
    unfolding abs_mult by (intro mult_mono) simp_all
  then have r: "\<bar>rn (\<bar>rn (frn p - frn m)\<bar> / frn m) * 10000\<bar> \<le> 2 ^ 142"
    by (simp only: flip: power_add) simp
  show ?thesis
    using pos m1 le_pow300 [OF d] le_pow300 [OF q] le_pow300 [OF r]
    by (simp add: deviation_bps_def f64_of_int_Fin p m f64_sub_def round64_Fin dev_rat_def
        flip: rn_abs)
qed

lemma dev_rat_nonneg: "0 < m \<Longrightarrow> 0 \<le> dev_rat p m"
  using frn_pos [of m] by (simp add: dev_rat_def rn_nonneg)

lemma dev_rat_self [simp]: "dev_rat m m = 0"
  by (simp add: dev_rat_def)

text \<open>Widening a pair of positive prices never lowers its deviation: every rounding is monotone.\<close>

lemma dev_rat_widen:
  assumes "0 < a" and "a \<le> b" and "b \<le> c" and "c \<le> d"
  shows "dev_rat c b \<le> dev_rat d a"
proof -
  have fa: "0 < frn a" using assms(1) by (rule frn_pos)
  have f: "frn a \<le> frn b" "frn b \<le> frn c" "frn c \<le> frn d"
    using assms by (auto intro: frn_mono)
  have "rn \<bar>frn c - frn b\<bar> \<le> rn \<bar>frn d - frn a\<bar>" using f by (intro rn_mono) simp
  then have "rn \<bar>frn c - frn b\<bar> / frn b \<le> rn \<bar>frn d - frn a\<bar> / frn a"
    using f fa by (intro frac_le) (simp_all add: rn_nonneg)
  then show ?thesis unfolding dev_rat_def by (intro rn_mono mult_right_mono) simp_all
qed

lemma f64_lt_Fin_mono: "f64_lt c (Fin x) \<Longrightarrow> x \<le> y \<Longrightarrow> f64_lt c (Fin y)"
  by (cases c) auto

lemma round64_nonneg_not_lt_0: "0 \<le> x \<Longrightarrow> \<not> f64_lt (round64 x) (Fin 0)"
  using rn_nonneg [of x] by (auto simp: round64_def Let_def)

section \<open>The search of the code\<close>

definition price_ok :: "i128 \<Rightarrow> bool" where
  "price_ok p \<longleftrightarrow> 0 < p \<and> in_i128 p"

definition entry_ok :: "i128 \<times> string \<Rightarrow> bool" where
  "entry_ok e \<longleftrightarrow> price_ok (fst e)"

definition entry_le :: "i128 \<times> string \<Rightarrow> i128 \<times> string \<Rightarrow> bool" where
  "entry_le a b \<longleftrightarrow> fst a \<le> fst b"

definition entry_gap :: "i128 \<times> string \<Rightarrow> i128 \<times> string \<Rightarrow> int" where
  "entry_gap a b = fst b - fst a"

definition entry_bad :: "u32 \<Rightarrow> i128 \<times> string \<Rightarrow> i128 \<times> string \<Rightarrow> bool" where
  "entry_bad tol a b \<longleftrightarrow> exceeds_tolerance tol (fst b) (fst a)"

lemma exceeds_tolerance_Fin:
  "price_ok p \<Longrightarrow> price_ok m \<Longrightarrow>
     exceeds_tolerance tol p m \<longleftrightarrow> f64_lt (f64_of_int (int tol)) (Fin (dev_rat p m))"
  by (simp add: exceeds_tolerance_def price_ok_def deviation_bps_Fin)

lemma exceeds_tolerance_self: "price_ok p \<Longrightarrow> \<not> exceeds_tolerance tol p p"
  by (simp add: exceeds_tolerance_Fin f64_of_int_def round64_nonneg_not_lt_0)

lemma exceeds_tolerance_widen:
  assumes "price_ok a" "price_ok b" "price_ok c" "price_ok d" "a \<le> b" "b \<le> c" "c \<le> d"
    and "exceeds_tolerance tol c b"
  shows "exceeds_tolerance tol d a"
  using assms f64_lt_Fin_mono [OF _ dev_rat_widen [of a b c d]]
  by (simp add: exceeds_tolerance_Fin) (simp add: price_ok_def)

interpretation cluster: window_search "entry_bad tol" entry_ok entry_le entry_gap for tol
proof unfold_locales
  fix x :: "i128 \<times> string"
  show "entry_le x x" by (simp add: entry_le_def)
next
  fix x :: "i128 \<times> string"
  assume "entry_ok x"
  then show "\<not> entry_bad tol x x" by (simp add: entry_bad_def entry_ok_def exceeds_tolerance_self)
next
  fix a b c d :: "i128 \<times> string"
  assume "entry_ok a" "entry_ok d" "entry_ok b" "entry_ok c"
    and "entry_le a b" "entry_le b c" "entry_le c d" and "entry_bad tol b c"
  then show "entry_bad tol a d"
    unfolding entry_ok_def entry_le_def entry_bad_def
    using exceeds_tolerance_widen [of "fst a" "fst b" "fst c" "fst d" tol] by blast
qed

end
