(* ===== verification/Oracle_Search.thy ===== *)
theory Oracle_Search
  imports Oracle_Cluster
begin

text \<open>
  \<^verbatim>\<open>find_largest_consistent_cluster\<close> computes the optimum of its specification: on positive
  prices it never panics, and the window it returns is pairwise within tolerance, no mutually
  consistent sub-collection of the prices is larger, and among windows of the same size none
  has a smaller spread.
\<close>

section \<open>The inner and the outer loop\<close>

lemma entry_le_of_le: "a \<le> b \<Longrightarrow> entry_le a b"
  by (auto simp: entry_le_def less_eq_prod_def)

lemma ordered_sort:
  assumes "\<And>e. e \<in> set es \<Longrightarrow> entry_ok e"
  shows "cluster.ordered (sort es)"
  using assms
  by (auto simp: cluster.ordered_def list_all_iff intro!: entry_le_of_le sorted_nth_mono)

lemma advance_start_first_good:
  assumes "cluster.ordered xs" and "e < length xs" and "s \<le> e"
    and "\<And>i. i < s \<Longrightarrow> entry_bad tol (xs ! i) (xs ! e)"
  shows "\<exists>s'. advance_start xs tol (fst (xs ! e)) s = Some s' \<and> cluster.first_good tol xs (Suc e) s'"
  using assms(3,4)
proof (induction "e - s" arbitrary: s rule: less_induct)
  case less
  have s: "s < length xs" using less.prems(1) assms(2) by simp
  show ?case
  proof (cases "exceeds_tolerance tol (fst (xs ! e)) (fst (xs ! s))")
    case True
    then have "entry_bad tol (xs ! s) (xs ! e)" by (simp add: entry_bad_def)
    moreover have "\<not> entry_bad tol (xs ! e) (xs ! e)"
      using assms(1,2) by (intro cluster.bad_irrefl cluster.ordered_valid)
    ultimately have "s \<noteq> e" by auto
    then have "s < e" using less.prems(1) by simp
    moreover have "entry_bad tol (xs ! i) (xs ! e)" if "i < Suc s" for i
      using that less.prems(2) \<open>entry_bad tol (xs ! s) (xs ! e)\<close> by (auto simp: less_Suc_eq)
    moreover have "e - Suc s < e - s" and "Suc s \<le> e" using \<open>s < e\<close> by simp_all
    ultimately obtain s' where "advance_start xs tol (fst (xs ! e)) (Suc s) = Some s'"
      and "cluster.first_good tol xs (Suc e) s'"
      using less.hyps [of "Suc s"] by blast
    then show ?thesis using True s by (subst advance_start.simps) simp
  next
    case False
    then show ?thesis using s less.prems
      by (subst advance_start.simps) (simp add: cluster.first_good_def entry_bad_def)
  qed
qed

definition loop_inv :: "u32 \<Rightarrow> (i128 \<times> string) list \<Rightarrow> nat \<Rightarrow> nat \<times> nat \<times> nat \<Rightarrow> bool" where
  "loop_inv tol xs e st \<longleftrightarrow>
     (case st of (bs, be, start) \<Rightarrow>
        cluster.best_upto tol xs e bs be \<and> start \<le> e \<and> (0 < e \<longrightarrow> start < e) \<and>
        (\<forall>i < start. entry_bad tol (xs ! i) (xs ! (e - 1))))"

lemma checked_gap:
  assumes "cluster.ordered xs" and "i < length xs" and "j < length xs"
  shows "checked_i128 (fst (xs ! j) - fst (xs ! i)) = Some (entry_gap (xs ! i) (xs ! j))"
  using cluster.ordered_valid [OF assms(1,2)] cluster.ordered_valid [OF assms(1,3)]
  by (auto simp: entry_ok_def price_ok_def entry_gap_def checked_i128_def int_ops)

lemma cluster_step_inv:
  assumes ord: "cluster.ordered xs" and inv: "loop_inv tol xs e st" and e: "e < length xs"
  shows "\<exists>st'. cluster_step xs tol (Suc e) st = Some st' \<and> loop_inv tol xs (Suc e) st'"
proof -
  obtain bs be start where st: "st = (bs, be, start)" by (cases st)
  have best: "cluster.best_upto tol xs e bs be" and start: "start \<le> e" "0 < e \<Longrightarrow> start < e"
    and below: "\<And>i. i < start \<Longrightarrow> entry_bad tol (xs ! i) (xs ! (e - 1))"
    using inv by (auto simp: loop_inv_def st)
  have cons: "bs < be" "be \<le> length xs"
    using best by (auto simp: cluster.best_upto_def cluster.consistent_def)
  have "entry_bad tol (xs ! i) (xs ! e)" if "i < start" for i
    using cluster.bad_outer [OF ord, of i i "e - 1" e] below [OF that] that start e by simp
  then obtain s' where adv: "advance_start xs tol (fst (xs ! e)) start = Some s'"
    and good: "cluster.first_good tol xs (Suc e) s'"
    using advance_start_first_good [OF ord e start(1)] by blast
  have s': "s' < Suc e" "\<forall>i < s'. entry_bad tol (xs ! i) (xs ! e)"
    using good by (simp_all add: cluster.first_good_def)
  let ?better = "be - bs < Suc e - s' \<or>
    (Suc e - s' = be - bs \<and> entry_gap (xs ! s') (xs ! e) < entry_gap (xs ! bs) (xs ! (be - 1)))"
  have "checked_i128 (fst (xs ! e) - fst (xs ! s')) = Some (entry_gap (xs ! s') (xs ! e))"
    and "checked_i128 (fst (xs ! (be - 1)) - fst (xs ! bs)) = Some (entry_gap (xs ! bs) (xs ! (be - 1)))"
    using ord s' e cons by (intro checked_gap; simp)+
  then have step: "cluster_step xs tol (Suc e) st =
      Some (if ?better then (s', Suc e, s') else (bs, be, s'))"
    using adv s'(1) by (simp add: cluster_step_def st Let_def)
  have "if ?better then cluster.best_upto tol xs (Suc e) s' (Suc e)
        else cluster.best_upto tol xs (Suc e) bs be"
    using ord best good e by (rule cluster.best_upto_step)
  then have "loop_inv tol xs (Suc e) (if ?better then (s', Suc e, s') else (bs, be, s'))"
    using s' by (auto simp: loop_inv_def)
  with step show ?thesis by blast
qed

lemma cluster_loop_inv:
  assumes "cluster.ordered xs" and "loop_inv tol xs e st" and "e \<le> n" and "n \<le> length xs"
  shows "\<exists>st'. cluster_loop xs tol [Suc e..<Suc n] st = Some st' \<and> loop_inv tol xs n st'"
  using assms(2,3)
proof (induction "n - e" arbitrary: e st)
  case 0
  then show ?case by simp
next
  case (Suc k)
  then have lt: "e < n" by simp
  then obtain st' where step: "cluster_step xs tol (Suc e) st = Some st'"
    and inv: "loop_inv tol xs (Suc e) st'"
    using cluster_step_inv [OF assms(1) Suc.prems(1)] assms(4) by auto
  have "k = n - Suc e" and "Suc e \<le> n" using Suc.hyps(2) lt by simp_all
  then obtain st'' where "cluster_loop xs tol [Suc (Suc e)..<Suc n] st' = Some st''"
    and "loop_inv tol xs n st''"
    using Suc.hyps(1) [of "Suc e" st'] inv by blast
  moreover have "[Suc e..<Suc n] = Suc e # [Suc (Suc e)..<Suc n]"
    using lt by (intro upt_conv_Cons) simp
  ultimately show ?case using step by (simp del: upt_Suc)
qed

section \<open>The result\<close>

definition cluster_of :: "(i128 \<times> string) list \<Rightarrow> nat \<Rightarrow> nat \<Rightarrow> cluster_result" where
  "cluster_of xs i j =
     \<lparr>cr_prices = map fst (drop i (take j xs)), cr_sources = map snd (drop i (take j xs))\<rparr>"

lemma find_cluster_window:
  assumes "length sources = length prices" and "prices \<noteq> []"
    and "\<And>p. p \<in> set prices \<Longrightarrow> price_ok p"
  defines "xs \<equiv> sort (zip prices sources)"
  obtains i j where "cluster.ordered xs" and "cluster.best_upto tol xs (length xs) i j"
    and "find_largest_consistent_cluster prices sources tol = Ok (Some (cluster_of xs i j))"
proof -
  have "length xs = length prices" by (simp add: xs_def assms(1))
  then have ne: "xs \<noteq> []" using assms(2) by auto
  have ord: "cluster.ordered xs"
    unfolding xs_def using assms(3)
    by (intro ordered_sort) (auto simp: entry_ok_def dest: set_zip_leftD)
  have "loop_inv tol xs 0 (0, 1, 0)"
    using cluster.best_upto_zero [OF ord ne] by (simp add: loop_inv_def)
  then obtain st where loop: "cluster_loop xs tol [1..<Suc (length xs)] (0, 1, 0) = Some st"
    and inv: "loop_inv tol xs (length xs) st"
    using cluster_loop_inv [OF ord, of tol 0 "(0, 1, 0)" "length xs"] by auto
  obtain i j s where st: "st = (i, j, s)" by (cases st)
  have best: "cluster.best_upto tol xs (length xs) i j" using inv by (simp add: loop_inv_def st)
  then have "\<not> length xs < j"
    by (simp add: cluster.best_upto_def cluster.consistent_def)
  then have "find_largest_consistent_cluster prices sources tol = Ok (Some (cluster_of xs i j))"
    using assms(2) loop
    by (simp add: find_largest_consistent_cluster_def cluster_of_def st Let_def xs_def del: upt_Suc)
  then show ?thesis using that ord best by blast
qed

section \<open>Optimality over sub-collections\<close>

lemma sorted_three_way:
  fixes ps :: "'a :: linorder list"
  assumes "sorted ps"
  shows "ps = filter (\<lambda>p. p < a) ps @ filter (\<lambda>p. a \<le> p \<and> p \<le> b) ps
              @ filter (\<lambda>p. a \<le> p \<and> b < p) ps"
  using assms
proof (induction ps)
  case Nil
  then show ?case by simp
next
  case (Cons x ps)
  then have IH: "ps = filter (\<lambda>p. p < a) ps @ filter (\<lambda>p. a \<le> p \<and> p \<le> b) ps
              @ filter (\<lambda>p. a \<le> p \<and> b < p) ps" by simp
  have ge: "\<And>p. p \<in> set ps \<Longrightarrow> x \<le> p" using Cons.prems by simp
  consider "x < a" | "a \<le> x" "x \<le> b" | "a \<le> x" "b < x" by fastforce
  then show ?case
  proof cases
    case 1
    then have "\<not> a \<le> x" by simp
    with 1 show ?thesis using IH by simp
  next
    case 2
    then have "filter (\<lambda>p. p < a) ps = []" using ge by (fastforce simp: filter_empty_conv)
    then show ?thesis using IH 2 by (simp add: not_less)
  next
    case 3
    then have "filter (\<lambda>p. p < a) ps = []" and "filter (\<lambda>p. a \<le> p \<and> p \<le> b) ps = []"
      using ge by (fastforce simp: filter_empty_conv)+
    then show ?thesis using IH 3 by (simp add: not_less not_le)
  qed
qed

text \<open>Two prices are consistent when the higher one is within the tolerance of the lower one.\<close>

definition mutually_consistent :: "u32 \<Rightarrow> i128 list \<Rightarrow> bool" where
  "mutually_consistent tol ps \<longleftrightarrow>
     list_all (\<lambda>a. list_all (\<lambda>b. a \<le> b \<longrightarrow> \<not> exceeds_tolerance tol b a) ps) ps"

definition price_spread :: "i128 list \<Rightarrow> int" where
  "price_spread ps = Max (set ps) - Min (set ps)"

lemma consistent_subset_window:
  assumes ord: "cluster.ordered xs" and sorted: "sorted (map fst xs)"
    and sub: "mset qs \<subseteq># mset (map fst xs)" and ne: "qs \<noteq> []"
    and cons: "mutually_consistent tol qs"
  shows "\<exists>i j. cluster.consistent tol xs i j \<and> length qs \<le> j - i \<and>
           entry_gap (xs ! i) (xs ! (j - 1)) \<le> price_spread qs"
proof -
  define ps where "ps = map fst xs"
  define a where "a = Min (set qs)"
  define b where "b = Max (set qs)"
  define P where "P = (\<lambda>p. a \<le> p \<and> p \<le> b)"
  define lo where "lo = filter (\<lambda>p. p < a) ps"
  define mid where "mid = filter P ps"
  have ab: "a \<in> set qs" "b \<in> set qs" using ne by (simp_all add: a_def b_def)
  have within: "P q" if "q \<in> set qs" for q
    using that by (simp add: P_def a_def b_def)
  have "set qs \<subseteq> set ps"
    using set_mset_mono [OF sub] by (simp only: set_mset_mset ps_def)
  then have okp: "price_ok a" "price_ok b"
    using ord ab by (auto simp: cluster.ordered_def ps_def list_all_iff entry_ok_def)
  have le_ab: "a \<le> b" using within [OF ab(1)] by (simp add: P_def)
  have nbad: "\<not> exceeds_tolerance tol b a"
    using cons ab le_ab by (simp add: mutually_consistent_def list_all_iff)
  have "filter_mset P (mset qs) \<subseteq># filter_mset P (mset ps)"
    using sub by (simp add: multiset_filter_mono ps_def)
  moreover have "filter_mset P (mset qs) = mset qs"
    using within by (simp add: filter_mset_eq_conv)
  ultimately have "mset qs \<subseteq># mset mid" by (simp add: mid_def)
  then have len: "length qs \<le> length mid" using size_mset_mono by fastforce
  then have mid_ne: "0 < length mid" using ne by (cases qs) auto
  have split: "ps = lo @ mid @ filter (\<lambda>p. a \<le> p \<and> b < p) ps"
    using sorted_three_way [of ps a b] sorted by (simp add: lo_def mid_def P_def ps_def)
  define j where "j = length lo + length mid"
  have jlen: "j \<le> length xs"
    using arg_cong [OF split, of length] by (simp add: j_def ps_def)
  have nth: "fst (xs ! k) = mid ! (k - length lo)" if "length lo \<le> k" "k < j" for k
  proof -
    have "fst (xs ! k) = ps ! k" using that jlen by (simp add: ps_def)
    also have "\<dots> = mid ! (k - length lo)"
      using that by (subst split) (auto simp: nth_append j_def)
    finally show ?thesis .
  qed
  have Pk: "P (fst (xs ! k))" if "length lo \<le> k" "k < j" for k
  proof -
    have "mid ! (k - length lo) \<in> set mid" using that by (auto intro!: nth_mem simp: j_def)
    then show ?thesis using nth [OF that] by (simp add: mid_def)
  qed
  have idx: "length lo < j" "j - 1 < length xs" "length lo \<le> j - 1" "j - 1 < j"
    using mid_ne jlen unfolding j_def by linarith+
  have ok: "price_ok (fst (xs ! length lo))" "price_ok (fst (xs ! (j - 1)))"
    using cluster.ordered_valid [OF ord, of "length lo"] cluster.ordered_valid [OF ord, of "j - 1"] idx
    by (simp_all add: entry_ok_def)
  have "fst (xs ! length lo) \<le> fst (xs ! (j - 1))"
    using cluster.ordered_below [OF ord, of "length lo" "j - 1"] idx by (simp add: entry_le_def)
  then have "\<not> exceeds_tolerance tol (fst (xs ! (j - 1))) (fst (xs ! length lo))"
    using exceeds_tolerance_widen [OF okp(1) ok okp(2)] nbad Pk [of "length lo"] Pk [of "j - 1"] idx
    unfolding P_def by blast
  then have "cluster.consistent tol xs (length lo) j"
    using idx jlen by (simp add: cluster.consistent_def entry_bad_def)
  moreover have "length qs \<le> j - length lo" using len by (simp add: j_def)
  moreover have "entry_gap (xs ! length lo) (xs ! (j - 1)) \<le> price_spread qs"
    using Pk [of "length lo"] Pk [of "j - 1"] idx
    by (simp add: entry_gap_def price_spread_def P_def flip: a_def b_def)
  ultimately show ?thesis by blast
qed

lemma length_cluster_of [simp]:
  "length (cr_prices (cluster_of xs i j)) = min j (length xs) - i"
  "length (cr_sources (cluster_of xs i j)) = min j (length xs) - i"
  by (simp_all add: cluster_of_def min.commute)

lemma zip_cluster_of:
  "zip (cr_prices (cluster_of xs i j)) (cr_sources (cluster_of xs i j)) = drop i (take j xs)"
  by (simp add: cluster_of_def zip_map_fst_snd)

lemma mset_drop_take: "mset (drop i (take j xs)) \<subseteq># mset xs"
proof -
  have "xs = take i (take j xs) @ drop i (take j xs) @ drop j xs"
    by (metis append.assoc append_take_drop_id)
  then have "mset xs = mset (take i (take j xs)) + mset (drop i (take j xs)) + mset (drop j xs)"
    by (metis mset_append union_assoc)
  then show ?thesis by simp
qed

lemma cluster_of_consistent:
  assumes ord: "cluster.ordered xs" and win: "cluster.consistent tol xs i j"
  shows "mutually_consistent tol (cr_prices (cluster_of xs i j))"
  unfolding mutually_consistent_def list_all_length
proof (intro allI impI)
  let ?c = "cr_prices (cluster_of xs i j)"
  fix m n
  assume mn: "m < length ?c" "n < length ?c" and le: "?c ! m \<le> ?c ! n"
  have j: "j \<le> length xs" using win by (simp add: cluster.consistent_def)
  have nth: "?c ! k = fst (xs ! (i + k))" if "k < length ?c" for k
    using that j by (simp add: cluster_of_def)
  have bounds: "i + m < j" "i + n < j" using mn j by simp_all
  show "\<not> exceeds_tolerance tol (?c ! n) (?c ! m)"
  proof (cases "m \<le> n")
    case True
    then show ?thesis
      using cluster.consistent_pairwise [OF ord win, of "i + m" "i + n"] bounds mn
      by (simp add: nth entry_bad_def)
  next
    case False
    then have "?c ! n \<le> ?c ! m"
      using cluster.ordered_below [OF ord, of "i + n" "i + m"] bounds mn j
      by (simp add: nth entry_le_def)
    then have eq: "?c ! n = ?c ! m" using le by simp
    have "price_ok (?c ! m)"
      using cluster.ordered_valid [OF ord, of "i + m"] bounds j mn by (simp add: nth entry_ok_def)
    then show ?thesis unfolding eq by (rule exceeds_tolerance_self)
  qed
qed

lemma price_spread_cluster_of:
  assumes ord: "cluster.ordered xs" and win: "cluster.consistent tol xs i j"
  shows "price_spread (cr_prices (cluster_of xs i j)) = entry_gap (xs ! i) (xs ! (j - 1))"
proof -
  let ?c = "cr_prices (cluster_of xs i j)"
  have j: "i < j" "j \<le> length xs" using win by (simp_all add: cluster.consistent_def)
  have set: "set ?c = {fst (xs ! k) | k. i \<le> k \<and> k < j}"
  proof (rule set_eqI)
    fix x
    have "x \<in> set ?c \<longleftrightarrow> (\<exists>k < length ?c. ?c ! k = x)" by (rule in_set_conv_nth)
    also have "\<dots> \<longleftrightarrow> (\<exists>k < j - i. fst (xs ! (i + k)) = x)"
      using j by (auto simp: cluster_of_def)
    also have "\<dots> \<longleftrightarrow> x \<in> {fst (xs ! k) | k. i \<le> k \<and> k < j}"
      using j by (auto intro: exI [of _ "k - i" for k]) (metis add_diff_inverse_nat diff_less_mono not_le)
    finally show "x \<in> set ?c \<longleftrightarrow> x \<in> {fst (xs ! k) | k. i \<le> k \<and> k < j}" .
  qed
  have le: "fst (xs ! a) \<le> fst (xs ! b)" if "a \<le> b" "b < j" for a b
    using cluster.ordered_below [OF ord, of a b] that j by (simp add: entry_le_def)
  have "Min (set ?c) = fst (xs ! i)"
    unfolding set using j le by (intro Min_eqI) auto
  moreover have "Max (set ?c) = fst (xs ! (j - 1))"
    unfolding set using j le by (intro Max_eqI) auto
  ultimately show ?thesis by (simp add: price_spread_def entry_gap_def)
qed

section \<open>Properties\<close>

text \<open>
  C27: On positive prices the cluster search returns (it never panics), the prices it keeps are
  among the inputs with their own sources and agree pairwise within the tolerance, no mutually
  consistent sub-collection of the input prices is larger, and none of the same size has a
  smaller spread.
\<close>

theorem find_largest_consistent_cluster_optimal:
  assumes "length sources = length prices" and "prices \<noteq> []" and "list_all price_ok prices"
  shows "\<exists>c. find_largest_consistent_cluster prices sources tol =
             (Ok (Some c) :: ('e, _) outcome) \<and>
           mset (zip (cr_prices c) (cr_sources c)) \<subseteq># mset (zip prices sources) \<and>
           length (cr_sources c) = length (cr_prices c) \<and> cr_prices c \<noteq> [] \<and>
           mutually_consistent tol (cr_prices c) \<and>
           (\<forall>qs. mset qs \<subseteq># mset prices \<longrightarrow> qs \<noteq> [] \<longrightarrow> mutually_consistent tol qs \<longrightarrow>
              length qs < length (cr_prices c) \<or>
              (length qs = length (cr_prices c) \<and> price_spread (cr_prices c) \<le> price_spread qs))"
proof -
  let ?xs = "sort (zip prices sources)"
  obtain i j where ord: "cluster.ordered ?xs"
    and best: "cluster.best_upto tol ?xs (length ?xs) i j"
    and run: "find_largest_consistent_cluster prices sources tol =
      (Ok (Some (cluster_of ?xs i j)) :: ('e, _) outcome)"
    using find_cluster_window [OF assms(1,2)] assms(3) by (auto simp: list_all_iff)
  let ?c = "cluster_of ?xs i j"
  have win: "cluster.consistent tol ?xs i j" using best by (simp add: cluster.best_upto_def)
  then have ij: "i < j" "j \<le> length ?xs" by (simp_all add: cluster.consistent_def)
  have "length qs < length (cr_prices ?c) \<or>
      (length qs = length (cr_prices ?c) \<and> price_spread (cr_prices ?c) \<le> price_spread qs)"
    if sub: "mset qs \<subseteq># mset prices" and ne: "qs \<noteq> []" and cons: "mutually_consistent tol qs" for qs
  proof -
    have "mset (map fst ?xs) = image_mset fst (mset (zip prices sources))" by simp
    also have "\<dots> = mset prices" using assms(1) by (simp flip: mset_map)
    finally have "mset qs \<subseteq># mset (map fst ?xs)" using sub by simp
    moreover have "sorted (map fst ?xs)"
      unfolding sorted_map
      by (rule sorted_wrt_mono_rel [OF _ sorted_sort]) (auto simp: less_eq_prod_def)
    ultimately obtain i' j' where w: "cluster.consistent tol ?xs i' j'" "length qs \<le> j' - i'"
      and gap: "entry_gap (?xs ! i') (?xs ! (j' - 1)) \<le> price_spread qs"
      using consistent_subset_window [OF ord _ _ ne cons] by blast
    have "j' \<le> length ?xs" using w(1) by (simp add: cluster.consistent_def)
    then have "j' - i' < j - i \<or> (j' - i' = j - i \<and>
        entry_gap (?xs ! i) (?xs ! (j - 1)) \<le> entry_gap (?xs ! i') (?xs ! (j' - 1)))"
      using best w(1) unfolding cluster.best_upto_def by blast
    moreover have "length (cr_prices ?c) = j - i" using ij by simp
    ultimately show ?thesis
      using w(2) gap price_spread_cluster_of [OF ord win] by linarith
  qed
  moreover have "cr_prices ?c \<noteq> []"
    using ij by (simp add: cluster_of_def)
  moreover have "mset (zip (cr_prices ?c) (cr_sources ?c)) \<subseteq># mset (zip prices sources)"
    using mset_drop_take [of i j ?xs] by (simp add: zip_cluster_of)
  moreover have "mutually_consistent tol (cr_prices ?c)"
    using ord win by (rule cluster_of_consistent)
  moreover have "length (cr_sources ?c) = length (cr_prices ?c)" by simp
  ultimately show ?thesis using run by blast
qed

theorem find_largest_consistent_cluster_optimal_witness:
  "\<exists>c. find_largest_consistent_cluster [100, 104, 300] [''a'', ''b'', ''c''] 500
     = (Ok (Some c) :: (agg_error, _) outcome) \<and>
     2 \<le> length (cr_prices c) \<and> mutually_consistent 500 (cr_prices c)"
proof -
  obtain c where c: "find_largest_consistent_cluster [100, 104, 300] [''a'', ''b'', ''c''] 500
     = (Ok (Some c) :: (agg_error, _) outcome)"
    "mutually_consistent 500 (cr_prices c)"
    and largest: "\<forall>qs. mset qs \<subseteq># mset [100, 104, 300] \<longrightarrow> qs \<noteq> [] \<longrightarrow> mutually_consistent 500 qs \<longrightarrow>
      length qs < length (cr_prices c) \<or>
      (length qs = length (cr_prices c) \<and> price_spread (cr_prices c) \<le> price_spread qs)"
    using find_largest_consistent_cluster_optimal
      [of "[''a'', ''b'', ''c'']" "[100, 104, 300]" 500]
    by (auto simp: price_ok_def int_ops)
  have "mutually_consistent 500 [100, 104]" by code_simp
  then have "2 \<le> length (cr_prices c)"
    using largest [rule_format, of "[100, 104]"] by fastforce
  then show ?thesis using c by blast
qed

end
