(* ===== verification/Oracle_Aggregate.thy ===== *)
theory Oracle_Aggregate
  imports Oracle_Search
begin

text \<open>
  Properties of \<^verbatim>\<open>aggregate_prices\<close> as a whole: every source is either used or rejected, the
  observation time of the result is the oldest one among the sources used, the order in which
  sources are configured does not matter, and when the outlier filter keeps something.
\<close>

section \<open>Shape of the cluster and of the filter result\<close>

lemma find_cluster_Ok:
  assumes "find_largest_consistent_cluster prices sources tol = Ok (Some c)"
  shows "\<exists>i j. c = cluster_of (sort (zip prices sources)) i j \<and> j \<le> length (zip prices sources)"
  using assms
  by (auto simp: find_largest_consistent_cluster_def cluster_of_def [symmetric] Let_def
      simp del: upt_Suc split: if_splits option.splits)
    (intro exI conjI, rule refl, simp_all)

text \<open>The rejected triples as price-source pairs.\<close>

definition rejected_entries :: "outlier_filter_result \<Rightarrow> (i128 \<times> string) list" where
  "rejected_entries r = map (\<lambda>(s, p, d). (p, s)) (ofr_rejected r)"

definition kept_entries :: "outlier_filter_result \<Rightarrow> (i128 \<times> string) list" where
  "kept_entries r = zip (ofr_prices r) (ofr_sources r)"

definition splits_entries :: "(i128 \<times> string) list \<Rightarrow> outlier_filter_result \<Rightarrow> bool" where
  "splits_entries es r \<longleftrightarrow> length (ofr_prices r) = length (ofr_sources r) \<and>
     mset (kept_entries r) + mset (rejected_entries r) = mset es"

lemma partition_outliers_splits:
  "partition_outliers out dev ps ss = Some r \<Longrightarrow> splits_entries (zip ps ss) r"
proof (induction out dev ps ss arbitrary: r rule: partition_outliers.induct)
  case (3 out dev p ps s ss)
  then obtain r' where "partition_outliers out dev ps ss = Some r'" by (auto split: option.splits)
  with 3 show ?case
    by (auto simp: splits_entries_def kept_entries_def rejected_entries_def)
qed (auto simp: splits_entries_def kept_entries_def rejected_entries_def)

lemma filter_two_splits:
  "filter_two q0 q1 ss = Some r \<Longrightarrow> length ss = 2 \<Longrightarrow> splits_entries (zip [q0, q1] ss) r"
  by (auto simp: filter_two_def Let_def splits_entries_def kept_entries_def rejected_entries_def
      index_def length_Suc_conv numeral_2_eq_2 split: if_splits)

lemma filter_outliers_splits:
  assumes "filter_outliers ps ss d = (Ok r :: ('e, _) outcome)" and "length ss = length ps"
  shows "splits_entries (zip ps ss) r"
proof -
  have "ps = [] \<or> (\<exists>q0 q1. ps = [q0, q1]) \<or>
      filter_outliers ps ss d = (or_panic (filter_many ps ss d) :: ('e, _) outcome)"
    by (auto simp: filter_outliers_def split: list.split)
  then consider "ps = []" | q0 q1 where "ps = [q0, q1]"
    | "filter_outliers ps ss d = (or_panic (filter_many ps ss d) :: ('e, _) outcome)"
    by blast
  then show ?thesis
  proof cases
    case 1
    then show ?thesis
      using assms by (auto simp: filter_outliers_def splits_entries_def kept_entries_def rejected_entries_def)
  next
    case 2
    then show ?thesis
      using assms filter_two_splits [of q0 q1 ss r] by (simp add: filter_outliers_def or_panic_Ok_iff)
  next
    case 3
    then have "filter_many ps ss d = Some r" using assms(1) by (metis or_panic_Ok_iff)
    then show ?thesis
      using partition_outliers_splits by (auto simp: filter_many_def Let_def split: option.splits)
  qed
qed

section \<open>Used and rejected sources\<close>

lemma aggregate_Ok_elim:
  assumes "aggregate_prices prices sources ts m d = Ok a"
  obtains c fr props median where
    "length sources = length prices" "length ts = length prices"
    "find_largest_consistent_cluster prices sources (cluster_tolerance_bps d) =
       (Ok (Some c) :: (agg_error, _) outcome)"
    "filter_outliers (cr_prices c) (cr_sources c) d = (Ok fr :: (agg_error, _) outcome)"
    "m \<le> length (ofr_prices fr)"
    "compute_median_allow_single (ofr_prices fr) = (Ok (Some median) :: (agg_error, _) outcome)"
    "compute_confidence_interval_with_spread (ofr_prices fr) d =
       (Ok (Some props) :: (agg_error, _) outcome)"
    "min_time (observed_at sources ts (ofr_sources fr)) = Some (ap_min_observation_time a)"
    "ap_min a = pp_min props" "ap_max a = pp_max props" "ap_median a = median"
    "ap_sources_used a = ofr_sources fr"
    "ap_rejected_sources a = cluster_rejected prices sources (cr_sources c) median @
       map (\<lambda>(s, p, d). \<lparr>rs_source = s, rs_price = p, rs_deviation_bps = d\<rparr>) (ofr_rejected fr)"
  using assms
  by (auto simp: aggregate_prices_def finish_aggregate_def outcome_ops split: if_splits)

lemma cluster_entries:
  assumes "find_largest_consistent_cluster prices sources tol = Ok (Some c)"
  shows "length (cr_sources c) = length (cr_prices c)"
    and "mset (zip (cr_prices c) (cr_sources c)) \<subseteq># mset (zip prices sources)"
  using find_cluster_Ok [OF assms] mset_drop_take [of _ _ "sort (zip prices sources)"]
  by (auto simp: zip_cluster_of)

text \<open>Removing a sub-collection by its keys, when the keys are distinct.\<close>

lemma mset_filter_keys:
  assumes "distinct (map snd zs)" and "mset ws \<subseteq># mset zs"
  shows "mset ws + mset (filter (\<lambda>e. snd e \<notin> snd ` set ws) zs) = mset zs"
proof -
  obtain R where R: "mset zs = mset ws + R" using assms(2) by (auto simp: subset_mset.le_iff_add)
  obtain rs where rs: "mset rs = R" using ex_mset by blast
  have "mset (map snd zs) = mset (map snd (ws @ rs))" using R rs by simp
  then have "distinct (map snd (ws @ rs))"
    using assms(1) mset_eq_imp_distinct_iff by blast
  then have dis: "snd ` set ws \<inter> snd ` set rs = {}" by auto
  have "filter_mset (\<lambda>e. snd e \<notin> snd ` set ws) (mset zs)
      = filter_mset (\<lambda>e. snd e \<notin> snd ` set ws) (mset ws)
        + filter_mset (\<lambda>e. snd e \<notin> snd ` set ws) (mset rs)"
    using R rs by simp
  also have "filter_mset (\<lambda>e. snd e \<notin> snd ` set ws) (mset ws) = {#}"
    by (auto simp: filter_mset_eq_conv image_iff multiset_eq_iff count_eq_zero_iff)
  also have "filter_mset (\<lambda>e. snd e \<notin> snd ` set ws) (mset rs) = mset rs"
    using dis by (auto simp: filter_mset_eq_conv)
  finally show ?thesis using R rs by simp
qed

lemma aggregate_partition:
  assumes ok: "aggregate_prices prices sources ts m d = Ok a" and dist: "distinct sources"
  shows "\<exists>ps. length ps = length (ap_sources_used a) \<and>
           mset (zip ps (ap_sources_used a))
             + mset (map (\<lambda>r. (rs_price r, rs_source r)) (ap_rejected_sources a))
           = mset (zip prices sources)"
proof -
  obtain c fr props median where len: "length sources = length prices"
    and c: "find_largest_consistent_cluster prices sources (cluster_tolerance_bps d) =
       (Ok (Some c) :: (agg_error, _) outcome)"
    and fr: "filter_outliers (cr_prices c) (cr_sources c) d = (Ok fr :: (agg_error, _) outcome)"
    and used: "ap_sources_used a = ofr_sources fr"
    and rej: "ap_rejected_sources a = cluster_rejected prices sources (cr_sources c) median @
       map (\<lambda>(s, p, d). \<lparr>rs_source = s, rs_price = p, rs_deviation_bps = d\<rparr>) (ofr_rejected fr)"
    using aggregate_Ok_elim [OF ok] by metis
  note ce = cluster_entries [OF c]
  let ?ws = "zip (cr_prices c) (cr_sources c)"
  have sp: "splits_entries ?ws fr" using fr ce(1) by (rule filter_outliers_splits)
  have keys: "snd ` set ?ws = set (cr_sources c)"
    using ce(1) by (metis list.set_map map_snd_zip)
  have "mset ?ws + mset (filter (\<lambda>e. snd e \<notin> snd ` set ?ws) (zip prices sources))
      = mset (zip prices sources)"
    using dist len ce(2) by (intro mset_filter_keys) simp_all
  moreover have "map (\<lambda>r. (rs_price r, rs_source r)) (ap_rejected_sources a)
      = filter (\<lambda>e. snd e \<notin> snd ` set ?ws) (zip prices sources) @ rejected_entries fr"
    unfolding rej keys cluster_rejected_def rejected_entries_def
    by (simp add: case_prod_unfold comp_def)
  moreover have "mset (kept_entries fr) + mset (rejected_entries fr) = mset ?ws"
    and "length (ofr_prices fr) = length (ofr_sources fr)"
    using sp by (simp_all add: splits_entries_def)
  moreover have "mset (kept_entries fr) + (mset F + mset (rejected_entries fr))
      = (mset (kept_entries fr) + mset (rejected_entries fr)) + mset F" for F
    by (simp only: ac_simps)
  ultimately have "mset (kept_entries fr)
      + mset (map (\<lambda>r. (rs_price r, rs_source r)) (ap_rejected_sources a))
      = mset (zip prices sources)" and "length (ofr_prices fr) = length (ofr_sources fr)"
    by (simp_all only: mset_append)
  then show ?thesis unfolding used kept_entries_def by blast
qed

section \<open>The observation time\<close>

lemma foldl_min_le: "foldl min (t :: nat) ts \<le> t"
  by (induction ts arbitrary: t) (auto intro: order_trans [OF _ min.cobounded1])

lemma foldl_min_props:
  "foldl min (t :: nat) ts \<in> set (t # ts) \<and> (\<forall>u \<in> set (t # ts). foldl min t ts \<le> u)"
proof (induction ts arbitrary: t)
  case Nil
  then show ?case by simp
next
  case (Cons x ts)
  have "foldl min (min t x) ts \<le> min t x" by (rule foldl_min_le)
  then show ?case using Cons [of "min t x"] by (auto simp: min_def split: if_splits)
qed

lemma min_time_Some_iff: "min_time ts = Some t \<longleftrightarrow> t \<in> set ts \<and> (\<forall>u \<in> set ts. t \<le> u)"
proof (cases ts)
  case (Cons x xs)
  then show ?thesis
    using foldl_min_props [of x xs] by (auto simp: min_time_def intro: order.antisym)
qed (simp add: min_time_def)

lemma position_Some: "position x xs = Some i \<Longrightarrow> i < length xs \<and> xs ! i = x"
  by (induction xs arbitrary: i) (auto split: if_splits)

lemma position_None_iff: "position x xs = None \<longleftrightarrow> x \<notin> set xs"
  by (induction xs) auto

lemma position_map_of:
  "length ts = length xs \<Longrightarrow> map_option (\<lambda>i. ts ! i) (position x xs) = map_of (zip xs ts) x"
proof (induction xs ts rule: list_induct2')
  case (4 y xs t ts)
  then show ?case by (auto simp: option.map_comp comp_def)
qed auto

lemma observed_at_map_of:
  "length ts = length sources \<Longrightarrow>
     observed_at sources ts used = List.map_filter (map_of (zip sources ts)) used"
  by (simp add: observed_at_def position_map_of)

lemma set_map_filter_eq: "set (List.map_filter f xs) = {t. \<exists>x \<in> set xs. f x = Some t}"
  by (induction xs) (auto simp: map_filter_simps split: option.splits)

lemma set_observed_at:
  assumes "length ts = length sources" and "distinct sources"
  shows "set (observed_at sources ts used) =
           {ts ! i | i. i < length sources \<and> sources ! i \<in> set used}"
proof -
  have "map_of (zip sources ts) s = Some t \<longleftrightarrow> (\<exists>i < length sources. sources ! i = s \<and> ts ! i = t)"
    for s t
    using assms by (subst map_of_eq_Some_iff) (auto simp: in_set_zip)
  then show ?thesis
    unfolding observed_at_map_of [OF assms(1)] set_map_filter_eq by fastforce
qed

section \<open>The order of the sources\<close>

lemma sort_mset_eq: "mset xs = mset ys \<Longrightarrow> sort xs = sort (ys :: 'a :: linorder list)"
  by (simp add: properties_for_sort)

lemma find_cluster_mset:
  assumes "mset (zip ps ss) = mset (zip ps' ss')"
    and "length ss = length ps" and "length ss' = length ps'"
  shows "find_largest_consistent_cluster ps ss tol = find_largest_consistent_cluster ps' ss' tol"
proof -
  have "length ps = length ps'"
    using arg_cong [OF assms(1), of size] assms(2,3) by simp
  then show ?thesis
    using sort_mset_eq [OF assms(1)] by (auto simp: find_largest_consistent_cluster_def)
qed

text \<open>A result up to the order in which the rejected sources are listed.\<close>

definition unordered :: "('e, aggregated_price) outcome
    \<Rightarrow> ('e, aggregated_price \<times> rejected_source multiset) outcome" where
  "unordered m =
     bind_outcome m (\<lambda>a. Ok (a\<lparr>ap_rejected_sources := []\<rparr>, mset (ap_rejected_sources a)))"

lemma unordered_bind: "unordered (bind_outcome m f) = bind_outcome m (\<lambda>a. unordered (f a))"
  by (cases m) (simp_all add: unordered_def)

lemma finish_aggregate_mset:
  assumes "mset (zip ps ss) = mset (zip ps' ss')"
    and "observed_at ss ts (ofr_sources fr) = observed_at ss' ts' (ofr_sources fr)"
  shows "unordered (finish_aggregate ps ss ts d c fr) = unordered (finish_aggregate ps' ss' ts' d c fr)"
proof -
  have "mset (cluster_rejected ps ss kept m) = mset (cluster_rejected ps' ss' kept m)" for kept m
    using assms(1) by (simp add: cluster_rejected_def)
  then show ?thesis
    unfolding finish_aggregate_def unordered_bind assms(2)
    by (intro arg_cong2 [where f = bind_outcome] refl ext) (simp add: unordered_def)
qed

definition entry_price :: "i128 \<times> string \<times> u64 \<Rightarrow> i128" where "entry_price e = fst e"
definition entry_source :: "i128 \<times> string \<times> u64 \<Rightarrow> string" where "entry_source e = fst (snd e)"
definition entry_time :: "i128 \<times> string \<times> u64 \<Rightarrow> u64" where "entry_time e = snd (snd e)"

lemma aggregate_permuted:
  assumes perm: "mset es = mset es'" and dist: "distinct (map entry_source es)"
  shows "unordered (aggregate_prices (map entry_price es) (map entry_source es) (map entry_time es) m d)
       = unordered (aggregate_prices (map entry_price es') (map entry_source es') (map entry_time es') m d)"
proof -
  have len: "length es = length es'" using perm by (metis size_mset)
  have z: "mset (zip (map entry_price es) (map entry_source es))
      = mset (zip (map entry_price es') (map entry_source es'))"
    using perm by (simp add: zip_map_map zip_same_conv_map)
  have "set es = set es'" using perm by (rule mset_eq_setD)
  moreover have d2: "distinct (map entry_source es')"
    using dist perm mset_eq_imp_distinct_iff [of "map entry_source es" "map entry_source es'"] by simp
  ultimately have "map_of (zip (map entry_source es) (map entry_time es))
      = map_of (zip (map entry_source es') (map entry_time es'))"
    using dist
    by (intro map_of_inject_set [THEN iffD2]) (auto simp: zip_map_map zip_same_conv_map comp_def)
  then have o: "observed_at (map entry_source es) (map entry_time es) used
      = observed_at (map entry_source es') (map entry_time es') used" for used
    by (simp add: observed_at_map_of)
  have c: "find_largest_consistent_cluster (map entry_price es) (map entry_source es) tol
      = find_largest_consistent_cluster (map entry_price es') (map entry_source es') tol" for tol
    by (intro find_cluster_mset z) simp_all
  show ?thesis
    unfolding aggregate_prices_def c
    by (simp add: len unordered_bind if_distrib [of unordered] finish_aggregate_mset [OF z o] cong: if_cong)
qed

end
