(* ===== verification/Oracle_Filter.thy ===== *)
theory Oracle_Filter
  imports Oracle_Aggregate
begin

text \<open>
  When the outlier filter keeps a price, when the aggregation panics and when it cannot, and
  the properties of \<^verbatim>\<open>aggregate_prices\<close> as a whole.
\<close>

section \<open>The median price survives\<close>

lemma partition_outliers_filter:
  "partition_outliers out dev ps ss = Some r \<Longrightarrow>
     ofr_prices r = filter (\<lambda>p. \<not> out p) ps \<and>
     map (fst \<circ> snd) (ofr_rejected r) = filter out ps"
  by (induction out dev ps ss arbitrary: r rule: partition_outliers.induct)
    (auto split: option.splits)

lemma partition_outliers_total:
  "length ss = length ps \<Longrightarrow> \<exists>r. partition_outliers out dev ps ss = Some r"
proof (induction out dev ps ss rule: partition_outliers.induct)
  case (3 out dev p ps s ss)
  then obtain r where "partition_outliers out dev ps ss = Some r" by auto
  then show ?case by simp
qed auto

lemma f64_mul_nonneg_not_lt_0:
  "0 \<le> c \<Longrightarrow> \<not> f64_lt x (Fin 0) \<Longrightarrow> \<not> f64_lt (f64_mul (Fin c) x) (Fin 0)"
  by (cases x) (auto simp: inf_of_def round64_nonneg_not_lt_0)

lemma f64_of_int_not_lt_0: "0 \<le> n \<Longrightarrow> \<not> f64_lt (f64_of_int n) (Fin 0)"
  by (simp add: f64_of_int_def round64_nonneg_not_lt_0)

lemma f64_lt_asym: "f64_lt a b \<Longrightarrow> \<not> f64_lt b a"
  by (cases a; cases b) auto

lemma is_outlier_median: "price_ok m \<Longrightarrow> \<not> is_outlier d m mad stddev m"
proof -
  assume m: "price_ok m"
  have z: "f64_abs (f64_sub (f64_of_int m) (f64_of_int m)) = Fin 0"
    using m by (simp add: price_ok_def f64_of_int_Fin f64_sub_def round64_Fin)
  have "\<not> f64_lt (f64_of_int (int d)) (deviation_bps m m)"
    using m by (simp add: price_ok_def deviation_bps_Fin f64_of_int_not_lt_0)
  moreover have "\<not> f64_lt (f64_mul (Fin 6) (f64_of_int mad)) (Fin 0)" if "0 < mad"
    using that by (intro f64_mul_nonneg_not_lt_0 f64_of_int_not_lt_0) simp_all
  moreover have "\<not> f64_lt (f64_mul (Fin 3) stddev) (Fin 0)" if "f64_lt (Fin 0) stddev"
    using f64_lt_asym [OF that] by (intro f64_mul_nonneg_not_lt_0) simp_all
  ultimately show ?thesis by (auto simp: is_outlier_def Let_def z)
qed

lemma filter_outliers_not_two:
  "length ps \<noteq> 2 \<Longrightarrow> ps \<noteq> [] \<Longrightarrow> filter_outliers ps ss d = or_panic (filter_many ps ss d)"
  by (auto simp: filter_outliers_def split: list.split)

lemma filter_many_keeps_median:
  assumes "filter_many ps ss d = Some r" and "odd (length ps)" and "list_all price_ok ps"
  shows "sort ps ! (length ps div 2) \<in> set (ofr_prices r)"
proof -
  let ?m = "sort ps ! (length ps div 2)"
  have "length ps div 2 < length (sort ps)" using assms(2) by (cases ps) auto
  then have m: "?m \<in> set ps" using nth_mem [of "length ps div 2" "sort ps"] by simp
  have "median_sorted (sort ps) = Some ?m" using assms(2) by (simp add: median_sorted_def Let_def)
  then obtain mad sd where
    "partition_outliers (is_outlier d ?m mad sd) (\<lambda>p. deviation_bps p ?m) ps ss = Some r"
    using assms(1) by (auto simp: filter_many_def Let_def split: option.splits)
  then have "ofr_prices r = filter (\<lambda>p. \<not> is_outlier d ?m mad sd p) ps"
    by (simp add: partition_outliers_filter)
  then show ?thesis
    using m is_outlier_median [of ?m] assms(3) by (auto simp: list_all_iff)
qed

section \<open>Exactly two prices\<close>

lemma half_representable: "\<bar>n\<bar> \<le> 2 ^ 53 \<Longrightarrow> rn (of_int n / 2) = of_int n / 2"
proof -
  assume "\<bar>n\<bar> \<le> 2 ^ 53"
  moreover have "(of_int n / 2 :: rat) = of_int n * 2 powi (- 1)"
    by (simp add: power_int_minus)
  ultimately have "representable (of_int n / 2)"
    unfolding representable_def by (intro exI [of _ n] exI [of _ "- 1"]) simp
  then show ?thesis by (rule rn_representable)
qed

lemma round64_half: "\<bar>n\<bar> \<le> 2 ^ 53 \<Longrightarrow> round64 (of_int n / 2) = Fin (of_int n / 2)"
proof -
  assume n: "\<bar>n\<bar> \<le> 2 ^ 53"
  have "\<bar>of_int n / 2 :: rat\<bar> \<le> of_int \<bar>n\<bar>" by simp
  also have "\<dots> \<le> of_int (2 ^ 53)" using n by (simp only: of_int_le_iff)
  also have "\<dots> \<le> (2 :: rat) ^ 300" by simp
  finally show ?thesis using n by (simp add: round64_Fin half_representable)
qed

lemma round64_int: "\<bar>n\<bar> \<le> 2 ^ 53 \<Longrightarrow> round64 (of_int n) = Fin (of_int n)"
proof -
  assume n: "\<bar>n\<bar> \<le> 2 ^ 53"
  have "\<bar>of_int n :: rat\<bar> \<le> of_int (2 ^ 53)" using n by (simp only: of_int_abs [symmetric] of_int_le_iff)
  also have "\<dots> \<le> (2 :: rat) ^ 300" by simp
  finally show ?thesis using n by (simp add: round64_Fin rn_of_int_exact)
qed

lemma filter_two_keeps_first:
  assumes q: "0 < q0" "q0 \<le> 2 ^ 51" "0 < q1" "q1 \<le> 2 ^ 51" and run: "filter_two q0 q1 [s0, s1] = Some r"
  shows "ofr_prices r = [q0, q1] \<or> (ofr_prices r = [q0] \<and> ofr_sources r = [s0])"
proof -
  have f: "f64_of_int q0 = Fin (of_int q0)" "f64_of_int q1 = Fin (of_int q1)"
    using q by (simp_all add: f64_of_int_def round64_int)
  have avg: "f64_div (f64_add (Fin (of_int q0)) (Fin (of_int q1))) (Fin 2) = Fin (of_int (q0 + q1) / 2)"
    using q round64_int [of "q0 + q1"] round64_half [of "q0 + q1"] by simp
  have e: "of_int q0 - of_int (q0 + q1) / 2 = (of_int (q0 - q1) / 2 :: rat)"
    "of_int q1 - of_int (q0 + q1) / 2 = (of_int (q1 - q0) / 2 :: rat)"
    by (simp_all add: field_simps)
  have d: "\<bar>q0 - q1\<bar> \<le> 2 ^ 53" "\<bar>q1 - q0\<bar> \<le> 2 ^ 53" using q by auto
  have "f64_sub (Fin (of_int q0)) (Fin (of_int (q0 + q1) / 2)) = Fin (of_int (q0 - q1) / 2)"
    and "f64_sub (Fin (of_int q1)) (Fin (of_int (q0 + q1) / 2)) = Fin (of_int (q1 - q0) / 2)"
    by (simp_all only: f64_sub_def f64_neg.simps f64_add.simps diff_conv_add_uminus [symmetric]
        e round64_half [OF d(1)] round64_half [OF d(2)])
  moreover have "\<bar>of_int (q0 - q1) / 2 :: rat\<bar> = \<bar>of_int (q1 - q0) / 2\<bar>" by simp
  ultimately show ?thesis
    using run
    by (auto simp: filter_two_def Let_def f avg index_def simp del: of_int_add of_int_diff f64_add.simps f64_div.simps split: if_splits)
qed

section \<open>Panics\<close>

text \<open>
  A vector of positive prices that is small enough: \<open>n\<close> times any of them fits an \<^verbatim>\<open>i128\<close>.
\<close>

definition fits :: "nat \<Rightarrow> i128 list \<Rightarrow> bool" where
  "fits n ps \<longleftrightarrow> list_all (\<lambda>p. 0 < p \<and> int n * p \<le> i128_max) ps \<and> length ps \<le> n \<and> n \<le> 2 ^ 50"

lemma fits_bound:
  assumes "fits n ps" and "p \<in> set ps" and "k \<le> n"
  shows "int k * p \<le> i128_max"
proof -
  have "0 < p" and n: "int n * p \<le> i128_max" using assms(1,2) by (auto simp: fits_def list_all_iff)
  then have "int k * p \<le> int n * p" using assms(3) by (intro mult_right_mono) simp_all
  then show ?thesis using n by (rule order_trans)
qed

lemma fits_pos: "fits n ps \<Longrightarrow> p \<in> set ps \<Longrightarrow> 0 < p"
  by (auto simp: fits_def list_all_iff)

lemma fits_ok: "fits n ps \<Longrightarrow> list_all price_ok ps"
  unfolding list_all_iff
proof
  fix p assume f: "fits n ps" and p: "p \<in> set ps"
  then have "1 \<le> n" by (cases ps) (auto simp: fits_def)
  then show "price_ok p"
    using fits_bound [OF f p, of 1] fits_pos [OF f p] by (auto simp: price_ok_def int_ops)
qed

lemma fits_subset:
  "fits n ps \<Longrightarrow> set qs \<subseteq> set ps \<Longrightarrow> length qs \<le> length ps \<Longrightarrow> fits n qs"
  by (auto simp: fits_def list_all_iff)

lemma fits_sort: "fits n ps \<Longrightarrow> fits n (sort ps)"
  by (erule fits_subset) simp_all

lemma median_sorted_total:
  assumes "\<And>x. x \<in> set s \<Longrightarrow> 0 \<le> x \<and> 2 \<le> length s \<longrightarrow> 2 * x \<le> i128_max"
    and "\<And>x. x \<in> set s \<Longrightarrow> 0 \<le> x" and "s \<noteq> []"
  shows "\<exists>m. median_sorted s = Some m \<and> 0 \<le> m"
proof (cases "even (length s)")
  case True
  let ?a = "s ! (length s div 2 - 1)" and ?b = "s ! (length s div 2)"
  have "length s \<noteq> 0" using assms(3) by simp
  then have l: "2 \<le> length s" using True by presburger
  then have "length s div 2 < length s" "length s div 2 - 1 < length s" by auto
  then have "?a \<in> set s" "?b \<in> set s" by simp_all
  then have "0 \<le> ?a" "0 \<le> ?b" "2 * ?a \<le> i128_max" "2 * ?b \<le> i128_max"
    using assms(1,2) l by blast+
  moreover have "i128_min \<le> 0" by (simp add: int_ops)
  ultimately have "in_i128 (?a + ?b)" and "0 \<le> ?a + ?b" by (simp_all add: in_i128_def)
  then show ?thesis using True by (simp add: median_sorted_def Let_def checked_i128_def)
next
  case False
  then have "length s div 2 < length s" using assms(3) by simp
  then show ?thesis using False assms(2) by (simp add: median_sorted_def Let_def)
qed

lemma fits_median:
  "fits n ps \<Longrightarrow> ps \<noteq> [] \<Longrightarrow> \<exists>m. median_sorted (sort ps) = Some m \<and> 0 \<le> m"
  using fits_bound [of n ps _ 2] fits_pos [of n ps]
  by (intro median_sorted_total) (auto simp: fits_def intro: less_imp_le dest!: arg_cong [of _ _ set])

lemma checked_abs_diff_total:
  "0 \<le> a \<Longrightarrow> 0 \<le> b \<Longrightarrow> a \<le> M \<Longrightarrow> b \<le> M \<Longrightarrow> M \<le> i128_max \<Longrightarrow>
     \<exists>d. checked_abs_diff a b = Some d \<and> 0 \<le> d \<and> d \<le> M"
  by (auto simp: checked_abs_diff_def checked_i128_def int_ops)

lemma map_option_list_total:
  "(\<And>x. x \<in> set xs \<Longrightarrow> \<exists>y. f x = Some y \<and> P y) \<Longrightarrow>
     \<exists>ys. map_option_list f xs = Some ys \<and> length ys = length xs \<and> list_all P ys"
proof (induction xs)
  case (Cons x xs)
  then show ?case by (force split: option.splits)
qed simp

lemma sum_i128_foldl_None: "foldl (\<lambda>acc x. case acc of None \<Rightarrow> None | Some a \<Rightarrow> checked_i128 (a + x)) None xs = None"
  by (induction xs) auto

lemma sum_i128_total:
  assumes "\<And>x. x \<in> set xs \<Longrightarrow> 0 \<le> x" and "sum_list xs \<le> i128_max"
  shows "sum_i128 xs = Some (sum_list xs)"
proof -
  have "foldl (\<lambda>acc x. case acc of None \<Rightarrow> None | Some a \<Rightarrow> checked_i128 (a + x)) (Some a) xs
      = Some (a + sum_list xs)" if "0 \<le> a" "a + sum_list xs \<le> i128_max" for a
    using that assms(1)
  proof (induction xs arbitrary: a)
    case Nil
    then show ?case by simp
  next
    case (Cons x xs)
    have "0 \<le> sum_list xs" using Cons.prems(3) by (intro sum_list_nonneg) simp
    moreover have "0 \<le> x" using Cons.prems(3) by simp
    ultimately have "in_i128 (a + x)"
      using Cons.prems(1,2) by (simp add: in_i128_def i128_min_def)
    then show ?case
      using Cons.IH [of "a + x"] Cons.prems by (simp add: checked_i128_def add.assoc)
  qed
  then show ?thesis using assms(2) by (simp add: sum_i128_def)
qed

text \<open>The median and the outlier filter of a fitting vector.\<close>

lemma fits_median_Ok:
  "fits n ps \<Longrightarrow> ps \<noteq> [] \<Longrightarrow> \<exists>m. compute_median_allow_single ps = Ok (Some m)"
  using fits_median [of n ps] by (auto simp: compute_median_allow_single_def)

lemma filter_many_total:
  assumes f: "fits n ps" and ne: "ps \<noteq> []" and len: "length ss = length ps"
  shows "\<exists>r. filter_many ps ss d = Some r"
proof -
  let ?M = "Max (set ps)"
  have M: "?M \<in> set ps" and le: "\<And>p. p \<in> set ps \<Longrightarrow> p \<le> ?M" using ne by simp_all
  have n1: "1 \<le> n" using f ne by (cases ps) (auto simp: fits_def)
  have M1: "?M \<le> i128_max" using fits_bound [OF f M, of 1] n1 by simp
  have nn: "\<And>p. p \<in> set ps \<Longrightarrow> 0 \<le> p" using fits_pos [OF f] by (auto intro: less_imp_le)
  obtain med where med: "median_sorted (sort ps) = Some med" "0 \<le> med"
    using fits_median [OF f ne] by blast
  have medM: "med \<le> ?M"
  proof -
    have l: "length ps div 2 < length ps" using ne by simp
    then have l': "length ps div 2 - 1 < length ps" by linarith
    have b: "sort ps ! k \<le> ?M" if "k < length ps" for k
      using that le nth_mem [of k "sort ps"] by simp
    show ?thesis
      using med b [OF l] b [OF l'] nn M
      by (auto simp: median_sorted_def Let_def checked_i128_Some_iff trunc_div_def sgn_if
          split: if_splits)
  qed
  have "\<And>p. p \<in> set ps \<Longrightarrow> \<exists>y. checked_abs_diff p med = Some y \<and> (0 \<le> y \<and> y \<le> ?M)"
    using checked_abs_diff_total [OF nn med(2) le medM M1] by blast
  from map_option_list_total [of ps "\<lambda>p. checked_abs_diff p med", OF this] obtain devs where
    devs: "map_option_list (\<lambda>p. checked_abs_diff p med) ps = Some devs" "length devs = length ps"
      "list_all (\<lambda>y. 0 \<le> y \<and> y \<le> ?M) devs" by blast
  have "\<exists>m. median_sorted (sort devs) = Some m \<and> 0 \<le> m"
  proof (rule median_sorted_total)
    fix x assume "x \<in> set (sort devs)"
    then have x: "0 \<le> x" "x \<le> ?M" using devs(3) by (auto simp: list_all_iff)
    then show "0 \<le> x" by simp
    have "2 * x \<le> i128_max" if "2 \<le> length (sort devs)"
      using that fits_bound [OF f M, of 2] x devs(2) f by (simp add: fits_def)
    then show "0 \<le> x \<and> 2 \<le> length (sort devs) \<longrightarrow> 2 * x \<le> i128_max" by blast
  next
    show "sort devs \<noteq> []" using devs(2) ne by (metis length_0_conv length_sort)
  qed
  then obtain mad where mad: "median_sorted (sort devs) = Some mad" by blast
  have "sum_list ps \<le> int (length ps) * ?M"
    using sum_list_abs_bound [of ps ?M] le nn by blast
  also have "\<dots> \<le> i128_max" using f by (intro fits_bound [OF f M]) (simp add: fits_def)
  finally have "sum_i128 ps = Some (sum_list ps)" by (intro sum_i128_total nn)
  then show ?thesis
    using med(1) devs(1) mad partition_outliers_total [OF len]
    by (simp add: filter_many_def Let_def)
qed

lemma filter_outliers_total:
  assumes f: "fits n ps" and len: "length ss = length ps"
  shows "\<exists>r. filter_outliers ps ss d = (Ok r :: ('e, _) outcome)"
proof (cases "ps = []")
  case True
  then show ?thesis by (simp add: filter_outliers_def)
next
  case ne: False
  show ?thesis
  proof (cases "length ps = 2")
    case True
    then obtain a b where ab: "ps = [a, b]" by (auto simp: length_Suc_conv numeral_2_eq_2)
    have "\<exists>r. filter_two a b ss = Some r"
      using len ab by (simp add: filter_two_def Let_def index_def)
    then show ?thesis using ab by (auto simp: filter_outliers_def)
  next
    case False
    then show ?thesis
      using ne filter_many_total [OF f ne len, of d] filter_outliers_not_two [of ps ss d] by auto
  qed
qed

section \<open>The index of a percentile\<close>

definition index_rat :: "nat \<Rightarrow> nat \<Rightarrow> rat" where
  "index_rat n p = rn (rn (of_nat p / 100) * of_nat (n - 1))"

lemma rn_percent: "p \<le> 100 \<Longrightarrow> 0 \<le> rn (of_nat p / 100) \<and> rn (of_nat p / 100) \<le> 1"
  using rn_nonneg [of "of_nat p / 100"] rn_mono [of "of_nat p / 100" 1]
    rn_of_int_exact [of 1] by simp

lemma index_rat_bounds:
  assumes "p \<le> 100" and "n \<le> 2 ^ 50" and "0 < n"
  shows "0 \<le> index_rat n p" and "index_rat n p \<le> of_nat (n - 1)"
proof -
  show "0 \<le> index_rat n p" using rn_percent [OF assms(1)] by (simp add: index_rat_def rn_nonneg)
  have "rn (of_nat p / 100) * of_nat (n - 1) \<le> of_int (int (n - 1))"
    using rn_percent [OF assms(1)] mult_right_mono [of "rn (of_nat p / 100)" 1 "of_nat (n - 1)"]
    by simp
  moreover have "representable (of_int (int (n - 1)))"
    using assms(2) by (intro representable_of_int) simp
  ultimately have "rn (rn (of_nat p / 100) * of_nat (n - 1)) \<le> of_int (int (n - 1))" by (rule rn_le)
  then show "index_rat n p \<le> of_nat (n - 1)" by (simp add: index_rat_def)
qed

lemma percentile_index_Fin:
  assumes "p \<le> 100" and "n \<le> 2 ^ 50" and "0 < n"
  shows "percentile_index n p = Fin (index_rat n p)"
proof -
  have n: "\<bar>int n\<bar> \<le> 2 ^ 53" "\<bar>int n - 1\<bar> \<le> 2 ^ 53" using assms(2,3) by auto
  have p: "\<bar>int p\<bar> \<le> 2 ^ 53" using assms(1) by simp
  have fn: "f64_of_int (int n) = Fin (of_int (int n))" "f64_of_int (int p) = Fin (of_int (int p))"
    unfolding f64_of_int_def by (rule round64_int [OF n(1)], rule round64_int [OF p])
  have sub: "f64_sub (Fin (of_int (int n))) (Fin 1) = Fin (of_int (int n - 1))"
    using round64_int [OF n(2)] by (simp add: f64_sub_def)
  have "\<bar>of_nat p / 100 :: rat\<bar> \<le> 1" using assms(1) by simp
  also have "\<dots> \<le> 2 ^ 300" by simp
  finally have div: "f64_div (Fin (of_int (int p))) (Fin 100) = Fin (rn (of_nat p / 100))"
    by (simp add: round64_Fin)
  have "\<bar>rn (of_nat p / 100) * of_int (int n - 1)\<bar> \<le> 1 * of_int (int n - 1)"
    using rn_percent [OF assms(1)] assms(3) unfolding abs_mult by (intro mult_mono) simp_all
  also have "\<dots> \<le> of_int (2 ^ 53)" using n(2) by (simp only: mult_1 of_int_le_iff abs_le_iff)
  also have "\<dots> \<le> (2 :: rat) ^ 300" by simp
  finally have "round64 (rn (of_nat p / 100) * of_int (int n - 1))
      = Fin (rn (rn (of_nat p / 100) * of_int (int n - 1)))" by (rule round64_Fin)
  moreover have "of_nat (n - 1) = (of_int (int n - 1) :: rat)" using assms(3) by (simp add: of_nat_diff)
  ultimately show ?thesis
    by (simp only: percentile_index_def fn sub div f64_mul.simps index_rat_def)
qed

lemma to_u64_floor: "0 \<le> x \<Longrightarrow> x \<le> of_nat n \<Longrightarrow> n \<le> 2 ^ 50 \<Longrightarrow>
    f64_to_u64 (f64_floor (Fin x)) = nat \<lfloor>x\<rfloor> \<and> f64_to_u64 (f64_ceil (Fin x)) = nat \<lceil>x\<rceil>"
proof -
  assume x: "0 \<le> x" "x \<le> of_nat n" and n: "n \<le> 2 ^ 50"
  have "\<lceil>x\<rceil> \<le> int n" using x by (simp add: ceiling_le_iff)
  moreover have "\<lfloor>x\<rfloor> \<le> \<lceil>x\<rceil>" by linarith
  moreover have "int n \<le> 2 ^ 64 - 1" using n by simp
  ultimately have "\<lceil>x\<rceil> \<le> 2 ^ 64 - 1" "\<lfloor>x\<rfloor> \<le> 2 ^ 64 - 1" by linarith+
  then show ?thesis
    by (simp only: f64_floor.simps f64_ceil.simps f64_to_u64.simps floor_of_int min.absorb2)
qed

text \<open>The percentile reads the vector at the floor and the ceiling of its index, both in range.\<close>

lemma percentile_eq:
  assumes "0 < p" and "p < 100" and "2 \<le> length xs" and "length xs \<le> 2 ^ 50"
  defines "x \<equiv> index_rat (length xs) p"
  shows "percentile xs p =
     (if \<lfloor>x\<rfloor> = \<lceil>x\<rceil> then Some (xs ! nat \<lfloor>x\<rfloor>)
      else Some (interpolate (Fin x) (nat \<lfloor>x\<rfloor>) (xs ! nat \<lfloor>x\<rfloor>) (xs ! nat \<lceil>x\<rceil>)))"
    and "0 \<le> \<lfloor>x\<rfloor>" and "\<lceil>x\<rceil> \<le> int (length xs) - 1"
proof -
  have pre: "p \<le> 100" "0 < length xs" using assms(2,3) by linarith+
  note b = index_rat_bounds [OF pre(1) assms(4) pre(2), folded x_def]
  show f0: "0 \<le> \<lfloor>x\<rfloor>" using b(1) by simp
  have "\<lceil>x\<rceil> \<le> int (length xs - 1)" using b(2) by (simp add: ceiling_le_iff)
  then show c: "\<lceil>x\<rceil> \<le> int (length xs) - 1" using assms(3) by (simp add: of_nat_diff)
  have fc: "\<lfloor>x\<rfloor> \<le> \<lceil>x\<rceil>" by linarith
  have "nat \<lceil>x\<rceil> < length xs" "nat \<lfloor>x\<rfloor> < length xs" using c f0 fc pre(2) by linarith+
  moreover have "length xs - 1 \<le> 2 ^ 50" using assms(4) by simp
  note u = to_u64_floor [OF b this]
  moreover have "nat \<lfloor>x\<rfloor> = nat \<lceil>x\<rceil> \<longleftrightarrow> \<lfloor>x\<rfloor> = \<lceil>x\<rceil>" using f0 fc by linarith
  ultimately show "percentile xs p = (if \<lfloor>x\<rfloor> = \<lceil>x\<rceil> then Some (xs ! nat \<lfloor>x\<rfloor>)
      else Some (interpolate (Fin x) (nat \<lfloor>x\<rfloor>) (xs ! nat \<lfloor>x\<rfloor>) (xs ! nat \<lceil>x\<rceil>)))"
    using assms(1-3) percentile_index_Fin [OF pre(1) assms(4) pre(2), folded x_def]
    by (simp add: percentile_def Let_def index_def del: f64_floor.simps f64_ceil.simps)
qed

lemma percentile_total:
  assumes "p \<le> 100" and "xs \<noteq> []" and "length xs \<le> 2 ^ 50"
  shows "\<exists>v. percentile xs p = Some v"
proof -
  have "length xs \<noteq> 0" using assms(2) by simp
  then consider "length xs = 1 \<or> p = 0" | "100 \<le> p" | "0 < p" "p < 100" "2 \<le> length xs" by linarith
  then show ?thesis
  proof cases
    case 3
    then show ?thesis using percentile_eq(1) [OF 3 assms(3)] by simp
  qed (use assms in \<open>auto simp: percentile_def index_def\<close>)
qed

lemma confidence_total:
  assumes f: "fits n ps" and ne: "ps \<noteq> []"
  shows "\<exists>props. compute_confidence_interval_with_spread ps d = (Ok (Some props) :: ('e, _) outcome)"
proof -
  have s: "fits n (sort ps)" "sort ps \<noteq> []"
    using fits_sort [OF f] ne by simp_all (metis length_0_conv length_sort)
  have len: "length (sort ps) \<le> 2 ^ 50" using f by (simp add: fits_def)
  obtain m where m: "compute_median_allow_single (sort ps) = (Ok (Some m) :: ('e, _) outcome)"
    using fits_median_Ok [OF s] by blast
  obtain lo hi where "percentile (sort ps) 10 = Some lo" "percentile (sort ps) 90 = Some hi"
    using percentile_total [OF _ s(2) len, of 10] percentile_total [OF _ s(2) len, of 90] by auto
  then show ?thesis
    using ne m by (simp add: compute_confidence_interval_with_spread_def Let_def)
qed

section \<open>The whole aggregation\<close>

lemma splits_subset:
  assumes "splits_entries (zip ps ss) r" and "length ss = length ps"
  shows "set (ofr_prices r) \<subseteq> set ps" and "length (ofr_prices r) \<le> length ps"
proof -
  have k: "length (ofr_prices r) = length (ofr_sources r)"
    and m: "mset (kept_entries r) + mset (rejected_entries r) = mset (zip ps ss)"
    using assms(1) by (simp_all add: splits_entries_def)
  have "mset (kept_entries r) \<subseteq># mset (zip ps ss)" unfolding m [symmetric] by simp
  then have sub: "image_mset fst (mset (kept_entries r)) \<subseteq># image_mset fst (mset (zip ps ss))"
    by (rule image_mset_subseteq_mono)
  moreover have "image_mset fst (mset (kept_entries r)) = mset (ofr_prices r)"
    by (simp only: kept_entries_def mset_map [symmetric] map_fst_zip [OF k])
  moreover have "image_mset fst (mset (zip ps ss)) = mset ps"
    by (simp only: mset_map [symmetric] map_fst_zip [OF assms(2) [symmetric]])
  ultimately have sub': "mset (ofr_prices r) \<subseteq># mset ps" by simp
  show "set (ofr_prices r) \<subseteq> set ps" using set_mset_mono [OF sub'] by (simp only: set_mset_mset)
  show "length (ofr_prices r) \<le> length ps" using size_mset_mono [OF sub'] by (simp only: size_mset)
qed

lemma cluster_total:
  assumes f: "fits n ps" and ne: "ps \<noteq> []" and len: "length ss = length ps"
  shows "\<exists>c. find_largest_consistent_cluster ps ss tol = (Ok (Some c) :: ('e, _) outcome) \<and>
           fits n (cr_prices c) \<and> length (cr_sources c) = length (cr_prices c)"
proof -
  obtain i j where c: "find_largest_consistent_cluster ps ss tol
      = (Ok (Some (cluster_of (sort (zip ps ss)) i j)) :: ('e, _) outcome)"
    using find_cluster_window [OF len ne] fits_ok [OF f] by (metis list_all_iff)
  let ?c = "cluster_of (sort (zip ps ss)) i j"
  have "set (cr_prices ?c) \<subseteq> set (map fst (sort (zip ps ss)))"
    by (auto simp: cluster_of_def dest!: in_set_dropD in_set_takeD)
  also have "set (map fst (sort (zip ps ss))) = set (map fst (zip ps ss))" by simp
  also have "\<dots> = set ps" by (simp only: map_fst_zip [OF len [symmetric]])
  finally have "set (cr_prices ?c) \<subseteq> set ps" .
  moreover have "length (cr_prices ?c) \<le> length ps" using len by simp
  ultimately have "fits n (cr_prices ?c)" by (rule fits_subset [OF f])
  moreover have "length (cr_sources ?c) = length (cr_prices ?c)" by simp
  ultimately show ?thesis using c by blast
qed

lemma aggregate_total:
  assumes f: "fits (length prices) prices"
  shows "aggregate_prices prices sources ts m d \<noteq> Panic"
proof (cases "prices = [] \<or> length prices \<noteq> length sources \<or> length prices \<noteq> length ts")
  case True
  then show ?thesis by (auto simp: aggregate_prices_def find_largest_consistent_cluster_def)
next
  case False
  then have ne: "prices \<noteq> []" and len: "length sources = length prices" by auto
  obtain c where c: "find_largest_consistent_cluster prices sources (cluster_tolerance_bps d)
      = (Ok (Some c) :: (agg_error, _) outcome)"
    and fc: "fits (length prices) (cr_prices c)" and lc: "length (cr_sources c) = length (cr_prices c)"
    using cluster_total [OF f ne len] by blast
  obtain fr where fr: "filter_outliers (cr_prices c) (cr_sources c) d = (Ok fr :: (agg_error, _) outcome)"
    using filter_outliers_total [OF fc lc] by blast
  have ff: "fits (length prices) (ofr_prices fr)"
    using splits_subset [OF filter_outliers_splits [OF fr lc] lc] fits_subset [OF fc] by blast
  have "finish_aggregate prices sources ts d c fr \<noteq> Panic"
  proof (cases "ofr_prices fr = []")
    case True
    then show ?thesis by (simp add: finish_aggregate_def compute_median_allow_single_def)
  next
    case False
    obtain x props where "compute_median_allow_single (ofr_prices fr) = (Ok (Some x) :: (agg_error, _) outcome)"
      "compute_confidence_interval_with_spread (ofr_prices fr) d = (Ok (Some props) :: (agg_error, _) outcome)"
      using fits_median_Ok [OF ff False] confidence_total [OF ff False] by blast
    then show ?thesis by (simp add: finish_aggregate_def outcome_ops)
  qed
  then show ?thesis by (auto simp: aggregate_prices_def c fr)
qed

text \<open>A zero price: every deviation from it is at least 10000 basis points.\<close>

lemma advance_start_runs_out:
  assumes "\<And>i. i < length xs \<Longrightarrow> exceeds_tolerance tol hi (fst (xs ! i))"
  shows "advance_start xs tol hi s = None"
proof (induction "length xs - s" arbitrary: s rule: less_induct)
  case less
  then show ?case using assms by (subst advance_start.simps) simp
qed

lemma exceeds_tolerance_zero:
  assumes "in_i128 m" and "0 \<le> m" and "tol < 10000"
  shows "exceeds_tolerance tol 0 m"
proof -
  have t: "f64_of_int (int tol) = Fin (of_int (int tol))"
    using assms(3) unfolding f64_of_int_def by (intro round64_int) simp
  show ?thesis
  proof (cases "m = 0")
    case True
    then show ?thesis by (simp add: exceeds_tolerance_def deviation_bps_def t)
  next
    case False
    then have "0 < frn m" using assms(2) by (intro frn_pos) simp
    moreover have "rn (frn m) = frn m" by (intro rn_representable) simp
    moreover have "rn 1 = 1" "rn 10000 = 10000" using rn_of_int_exact [of 1] rn_of_int_exact [of 10000] by simp_all
    ultimately have "dev_rat 0 m = 10000" by (simp add: dev_rat_def)
    then show ?thesis
      using False assms by (simp add: exceeds_tolerance_def deviation_bps_Fin t int_ops)
  qed
qed

lemma cluster_zero_panics:
  assumes len: "length ss = length ps" and z: "0 \<in> set ps"
    and r: "list_all (\<lambda>p. 0 \<le> p \<and> in_i128 p) ps" and tol: "tol < 10000"
  shows "find_largest_consistent_cluster ps ss tol = Panic"
proof -
  let ?xs = "sort (zip ps ss)"
  have ne: "ps \<noteq> []" using z by auto
  have l: "0 < length ?xs" using ne len by (cases ps; cases ss) auto
  have fsts: "set (map fst ?xs) = set ps" using len by simp (metis map_fst_zip list.set_map)
  have nth: "fst (?xs ! i) \<in> set ps" if "i < length ?xs" for i
    using nth_mem [OF that] fsts by auto
  have "0 \<in> set (map fst ?xs)" unfolding fsts by (rule z)
  then obtain k where "k < length (map fst ?xs)" "map fst ?xs ! k = 0"
    unfolding in_set_conv_nth by blast
  then have k: "k < length ?xs" "fst (?xs ! k) = 0" by simp_all
  have "?xs ! 0 \<le> ?xs ! k" using k(1) by (intro sorted_nth_mono) simp_all
  then have "fst (?xs ! 0) \<le> 0" using k(2) by (auto simp: less_eq_prod_def)
  then have h: "fst (?xs ! 0) = 0" using nth [OF l] r by (fastforce simp: list_all_iff)
  have "advance_start ?xs tol 0 0 = None"
    using nth r tol by (intro advance_start_runs_out exceeds_tolerance_zero) (auto simp: list_all_iff)
  then have "cluster_step ?xs tol 1 (0, 1, 0) = None"
    using h by (simp add: cluster_step_def)
  then show ?thesis
    using ne l by (simp add: find_largest_consistent_cluster_def Let_def upt_rec del: upt_Suc)
qed

end
