(* ===== verification/Oracle_Band.thy ===== *)
theory Oracle_Band
  imports Oracle_Filter
begin

text \<open>
  The price band of \<^verbatim>\<open>compute_confidence_interval_with_spread\<close> contains the median it is
  submitted with, although both ends come from an interpolation in floating point: below
  \<open>2 ^ 52\<close> the rounding is exact enough, and above it the spread outweighs the rounding error.
\<close>

section \<open>Interpolation\<close>

definition interp_rat :: "rat \<Rightarrow> nat \<Rightarrow> int \<Rightarrow> int \<Rightarrow> rat" where
  "interp_rat x lo a b =
     rn (rn (frn a + rn (rn (x - of_nat lo) * rn (frn b - frn a))) + 1 / 2)"

lemma frac_bounds:
  assumes "lo = nat \<lfloor>x\<rfloor>" and "0 \<le> x"
  shows "0 \<le> rn (x - of_nat lo)" and "rn (x - of_nat lo) \<le> 1"
proof -
  have "(of_nat lo :: rat) = of_int \<lfloor>x\<rfloor>" using assms by simp
  then have "0 \<le> x - of_nat lo" and "x - of_nat lo \<le> 1" by linarith+
  then show "0 \<le> rn (x - of_nat lo)" and "rn (x - of_nat lo) \<le> 1"
    using rn_mono [of "x - of_nat lo" 1] rn_of_int_exact [of 1] by (simp_all add: rn_nonneg)
qed

lemma interp_step_bounds:
  assumes f: "0 \<le> f" "f \<le> 1" and ab: "0 < a" "a \<le> b"
  defines "z \<equiv> rn (f * rn (frn b - frn a))"
  shows "0 \<le> z" and "z \<le> rn (frn b - frn a)"
proof -
  have d: "0 \<le> rn (frn b - frn a)" using frn_mono [OF ab(2)] by (simp add: rn_nonneg)
  then show "0 \<le> z" using f by (simp add: z_def rn_nonneg)
  have "f * rn (frn b - frn a) \<le> rn (frn b - frn a)" using mult_right_mono [OF f(2) d] by simp
  then show "z \<le> rn (frn b - frn a)" using rn_mono [of _ "rn (frn b - frn a)"] by (simp add: z_def)
qed

lemma interpolate_Fin:
  assumes "in_i128 a" and "in_i128 b" and "0 < a" and "a \<le> b"
    and lo: "lo = nat \<lfloor>x\<rfloor>" and x: "0 \<le> x" "x \<le> 2 ^ 50"
  shows "interpolate (Fin x) lo a b = f64_to_i128 (f64_floor (Fin (interp_rat x lo a b)))"
proof -
  have b0: "0 < b" using assms(3,4) by simp
  have lo50: "int lo \<le> 2 ^ 50" using lo x by (simp add: floor_le_iff le_floor_iff)
  then have L: "f64_of_int (int lo) = Fin (of_nat lo)"
    using round64_int [of "int lo"] by (simp add: f64_of_int_def)
  have eq: "(of_nat lo :: rat) = of_int \<lfloor>x\<rfloor>" using lo x(1) by simp
  have "\<bar>x - of_nat lo\<bar> \<le> 1" unfolding eq by linarith
  also have "\<dots> \<le> (2 :: rat) ^ 300" by simp
  finally have s1: "f64_sub (Fin x) (Fin (of_nat lo)) = Fin (rn (x - of_nat lo))"
    by (simp add: f64_sub_def round64_Fin)
  have fa: "0 \<le> frn a" "frn a \<le> 2 ^ 127" "0 \<le> frn b" "frn b \<le> 2 ^ 127"
    using frn_nonneg [of a] frn_nonneg [of b] frn_bound [OF assms(1)] frn_bound [OF assms(2)] assms(3) b0
    by simp_all
  have d: "\<bar>frn b - frn a\<bar> \<le> 2 ^ 127" using fa by linarith
  have s2: "f64_sub (Fin (frn b)) (Fin (frn a)) = Fin (rn (frn b - frn a))"
    using le_pow300 [OF d] by (simp add: f64_sub_def round64_Fin)
  define f where "f = rn (x - of_nat lo)"
  define D where "D = rn (frn b - frn a)"
  have f: "0 \<le> f" "f \<le> 1" using frac_bounds [OF lo x(1)] by (simp_all add: f_def)
  have D: "0 \<le> D" "D \<le> 2 ^ 127"
    using rn_abs_le_pow [OF d] frn_mono [OF assms(4)] by (simp_all add: D_def rn_nonneg)
  have "\<bar>f * D\<bar> \<le> 1 * 2 ^ 127" unfolding abs_mult using f D by (intro mult_mono) simp_all
  then have fD: "\<bar>f * D\<bar> \<le> 2 ^ 127" by (simp only: mult_1)
  have m: "f64_mul (Fin f) (Fin D) = Fin (rn (f * D))" using le_pow300 [OF fD] by (simp add: round64_Fin)
  have z: "0 \<le> rn (f * D)" "rn (f * D) \<le> 2 ^ 127"
    using rn_abs_le_pow [OF fD] f D by (simp_all add: rn_nonneg)
  have "\<bar>frn a + rn (f * D)\<bar> \<le> 2 ^ 127 + 2 ^ 127" using fa z by linarith
  then have A: "\<bar>frn a + rn (f * D)\<bar> \<le> 2 ^ 128" by simp
  have a1: "f64_add (Fin (frn a)) (Fin (rn (f * D))) = Fin (rn (frn a + rn (f * D)))"
    using le_pow300 [OF A] by (simp add: round64_Fin)
  have "\<bar>rn (frn a + rn (f * D)) + 1 / 2\<bar> \<le> 2 ^ 128 + 1 / 2" using rn_abs_le_pow [OF A] by linarith
  then have B: "\<bar>rn (frn a + rn (f * D)) + 1 / 2\<bar> \<le> 2 ^ 129" by simp
  have a2: "f64_add (Fin (rn (frn a + rn (f * D)))) (Fin (1 / 2))
      = Fin (rn (rn (frn a + rn (f * D)) + 1 / 2))"
    using le_pow300 [OF B] by (simp add: round64_Fin)
  show ?thesis
    by (simp only: interpolate_def Let_def L s1 s2 f64_of_int_Fin [OF assms(1)] f64_of_int_Fin [OF assms(2)]
        f_def [symmetric] D_def [symmetric] m a1 a2 interp_rat_def)
qed

lemma half_up_representable: "\<bar>n\<bar> \<le> 2 ^ 52 - 1 \<Longrightarrow> rn (of_int n + 1 / 2) = of_int n + 1 / 2"
proof -
  assume "\<bar>n\<bar> \<le> 2 ^ 52 - 1"
  then have "rn (of_int (2 * n + 1) / 2) = of_int (2 * n + 1) / 2" by (intro half_representable) simp
  then show ?thesis by (simp add: add_divide_distrib)
qed

text \<open>The interpolation from below: at least its lower end, up to one rounding when it is large.\<close>

lemma interp_ge_small:
  assumes ab: "0 < a" "a \<le> b" and lo: "lo = nat \<lfloor>x\<rfloor>" "0 \<le> x" and m: "m \<le> a" "0 < m" "m \<le> 2 ^ 52 - 1"
  shows "of_int m + 1 / 2 \<le> interp_rat x lo a b"
proof -
  let ?z = "rn (rn (x - of_nat lo) * rn (frn b - frn a))"
  have "0 \<le> ?z" using interp_step_bounds(1) [OF frac_bounds [OF lo] ab] .
  then have "frn m \<le> frn a + ?z" using frn_mono [OF m(1)] by simp
  then have "frn m \<le> rn (frn a + ?z)" by (intro rn_ge) simp_all
  moreover have "frn m = of_int m" using m by (intro frn_exact) simp
  ultimately have "of_int m + 1 / 2 \<le> rn (frn a + ?z) + 1 / 2" by simp
  then have "rn (of_int m + 1 / 2) \<le> interp_rat x lo a b" unfolding interp_rat_def by (rule rn_mono)
  then show ?thesis using half_up_representable [of m] m by simp
qed

lemma interp_ge_large:
  assumes ab: "0 < a" "a \<le> b" and lo: "lo = nat \<lfloor>x\<rfloor>" "0 \<le> x" and m: "0 < m" "m \<le> a"
  shows "of_int m * (1 - 1 / 2 ^ 53) \<le> interp_rat x lo a b"
proof -
  let ?z = "rn (rn (x - of_nat lo) * rn (frn b - frn a))"
  have "0 \<le> ?z" using interp_step_bounds(1) [OF frac_bounds [OF lo] ab] .
  then have "frn m \<le> frn a + ?z" using frn_mono [OF m(2)] by simp
  then have "frn m \<le> rn (frn a + ?z)" by (intro rn_ge) simp_all
  then have "frn m \<le> rn (frn a + ?z) + 1 / 2" by simp
  then have "frn m \<le> interp_rat x lo a b" unfolding interp_rat_def by (intro rn_ge) simp_all
  then show ?thesis using frn_lower [of m] m by linarith
qed

text \<open>The interpolation from above.\<close>

lemma interp_le_small:
  assumes ab: "0 < a" "a \<le> b" "b \<le> 2 ^ 52 - 1" and lo: "lo = nat \<lfloor>x\<rfloor>" "0 \<le> x"
  shows "interp_rat x lo a b \<le> of_int b + 1 / 2"
proof -
  let ?z = "rn (rn (x - of_nat lo) * rn (frn b - frn a))"
  have e: "frn a = of_int a" "frn b = of_int b" using ab by (simp_all add: frn_exact)
  have "rn (frn b - frn a) = of_int (b - a)"
    using ab rn_of_int_exact [of "b - a"] by (simp add: e)
  then have "?z \<le> of_int (b - a)" using interp_step_bounds(2) [OF frac_bounds [OF lo] ab(1,2)] by simp
  then have "frn a + ?z \<le> frn b" by (simp add: e)
  then have "rn (frn a + ?z) \<le> frn b" by (intro rn_le) simp_all
  then have "rn (frn a + ?z) + 1 / 2 \<le> of_int b + 1 / 2" by (simp add: e)
  then have "interp_rat x lo a b \<le> rn (of_int b + 1 / 2)" unfolding interp_rat_def by (rule rn_mono)
  then show ?thesis using half_up_representable [of b] ab by simp
qed

lemma normal_ge1: "1 \<le> x \<Longrightarrow> normal x"
  by (rule normal_ge) (rule order_trans [of _ 1], simp_all)

lemma interp_le_large:
  assumes ab: "0 < a" "a \<le> b" and lo: "lo = nat \<lfloor>x\<rfloor>" "0 \<le> x"
  shows "interp_rat x lo a b \<le> (of_int b + 1) * (1 + 1 / 2 ^ 48)"
proof -
  let ?z = "rn (rn (x - of_nat lo) * rn (frn b - frn a))"
  define u where "u = (1 / 2 ^ 53 :: rat)"
  have u: "0 < u" by (simp add: u_def)
  define B where "B = (of_int b :: rat)"
  have B: "1 \<le> B" using ab by (simp add: B_def)
  have fb: "frn b \<le> B * (1 + u)" using frn_upper [of b] ab by (simp add: B_def u_def)
  have fa: "1 \<le> frn a" using frn_ge_1 [of a] ab by simp
  have d: "0 \<le> frn b - frn a" using frn_mono [OF ab(2)] by simp
  have "normal (frn b - frn a)"
  proof -
    obtain i j where "frn b = of_int i" "frn a = of_int j" using frn_Ints by metis
    then show ?thesis using normal_of_int [of "i - j"] by simp
  qed
  then have "rn (frn b - frn a) \<le> (frn b - frn a) * (1 + u)" using rn_upper [OF d] by (simp add: u_def)
  also have "\<dots> \<le> frn b * (1 + u) - frn a"
    using fa u by (simp add: algebra_simps)
  finally have z: "frn a + ?z \<le> frn b * (1 + u)"
    using interp_step_bounds(2) [OF frac_bounds [OF lo] ab] by linarith
  have z0: "0 \<le> ?z" using interp_step_bounds(1) [OF frac_bounds [OF lo] ab] .
  have "rn (frn a + ?z) \<le> (frn a + ?z) * (1 + u)"
    unfolding u_def using fa z0 by (intro rn_upper normal_ge1) simp_all
  also have "\<dots> \<le> frn b * (1 + u) * (1 + u)" using z u by (intro mult_right_mono) simp_all
  also have "\<dots> \<le> B * (1 + u) * (1 + u) * (1 + u)" using fb u by (intro mult_right_mono) simp_all
  finally have r: "rn (frn a + ?z) \<le> B * (1 + u) ^ 3" by (simp add: power3_eq_cube mult.assoc)
  have r1: "1 \<le> rn (frn a + ?z)"
    using fa z0 rn_mono [of 1 "frn a + ?z"] rn_of_int_exact [of 1] by simp
  have "interp_rat x lo a b \<le> (rn (frn a + ?z) + 1 / 2) * (1 + u)"
    unfolding interp_rat_def u_def using r1 by (intro rn_upper normal_ge1) simp_all
  also have "\<dots> \<le> (B * (1 + u) ^ 3 + 1 / 2) * (1 + u)" using r u by (intro mult_right_mono) simp_all
  also have "\<dots> \<le> (B + 1) * (1 + u) ^ 4"
  proof -
    have "1 \<le> (1 + u) ^ 3" using u by (intro one_le_power) simp
    then have "1 / 2 \<le> (1 + u) ^ 3" by (rule order_trans [rotated]) simp
    then have "(B * (1 + u) ^ 3 + 1 / 2) * (1 + u) \<le> (B * (1 + u) ^ 3 + (1 + u) ^ 3) * (1 + u)"
      using u by (intro mult_right_mono) simp_all
    then show ?thesis by (simp add: algebra_simps power_Suc numeral_eq_Suc)
  qed
  also have "(1 + u) ^ 4 \<le> 1 + 1 / 2 ^ 48" by (simp add: u_def power_Suc numeral_eq_Suc)
  then have "(B + 1) * (1 + u) ^ 4 \<le> (B + 1) * (1 + 1 / 2 ^ 48)" using B by (intro mult_left_mono) simp_all
  finally show ?thesis by (simp add: B_def)
qed

section \<open>The percentiles around the median\<close>

lemma median_between:
  assumes "sorted s" and "2 \<le> length s" and "median_sorted s = Some m"
  shows "s ! ((length s - 1) div 2) \<le> m" and "m \<le> s ! (length s div 2)"
proof -
  have le: "s ! ((length s - 1) div 2) \<le> s ! (length s div 2)"
    using assms(1,2) by (intro sorted_nth_mono div_le_mono) auto
  have "s ! ((length s - 1) div 2) \<le> m \<and> m \<le> s ! (length s div 2)"
  proof (cases "even (length s)")
    case True
    then have eq: "length s div 2 - 1 = (length s - 1) div 2" using assms(2) by presburger
    define a where "a = s ! ((length s - 1) div 2)"
    define b where "b = s ! (length s div 2)"
    have "m = trunc_div (a + b) 2"
      using True assms(3) unfolding median_sorted_def Let_def eq a_def b_def
      by (auto simp only: if_True map_option_eq_Some checked_i128_Some_iff)
    moreover have "a \<le> b" using le by (simp only: a_def b_def)
    ultimately show ?thesis
      unfolding a_def [symmetric] b_def [symmetric] trunc_div_def sgn_if by (cases "a + b < 0") auto
  next
    case False
    then have "(length s - 1) div 2 = length s div 2" by presburger
    then show ?thesis
      using False assms(3) by (simp only: median_sorted_def Let_def if_False option.inject order.refl)
  qed
  then show "s ! ((length s - 1) div 2) \<le> m" and "m \<le> s ! (length s div 2)" by blast+
qed

lemma rn_nat_eighth: "n \<le> 2 ^ 50 \<Longrightarrow> k \<le> 8 \<Longrightarrow>
    rn (of_nat k / 8 * of_nat n) = of_nat k / 8 * (of_nat n :: rat)"
proof -
  assume n: "n \<le> 2 ^ 50" "k \<le> 8"
  have "(of_nat k / 8 * of_nat n :: rat) = of_int (int (k * n)) * 2 powi (- 3)"
    by (simp add: power_int_minus)
  moreover have "\<bar>int (k * n)\<bar> \<le> 2 ^ 53"
  proof -
    have "k * n \<le> 8 * 2 ^ 50" using n by (intro mult_le_mono) simp_all
    then have "int (k * n) \<le> int (8 * 2 ^ 50)" by (simp only: of_nat_le_iff)
    then show ?thesis by simp
  qed
  moreover have "- 1074 \<le> (- 3 :: int)" by simp
  ultimately have "representable (of_nat k / 8 * of_nat n)"
    unfolding representable_def by blast
  then show ?thesis by (rule rn_representable)
qed

lemma index_10_upper:
  assumes "3 \<le> n" and "n \<le> 2 ^ 50"
  shows "\<lceil>index_rat n 10\<rceil> \<le> int ((n - 1) div 2)"
proof -
  have "rn (of_nat 10 / 100) \<le> of_nat 1 / 8" by code_simp
  then have "rn (of_nat 10 / 100) * of_nat (n - 1) \<le> of_nat 1 / 8 * of_nat (n - 1)"
    by (intro mult_right_mono) simp_all
  then have "index_rat n 10 \<le> rn (of_nat 1 / 8 * of_nat (n - 1))"
    unfolding index_rat_def by (rule rn_mono)
  also have "\<dots> = of_nat 1 / 8 * of_nat (n - 1)" using assms(2) by (intro rn_nat_eighth) simp_all
  also have "\<dots> \<le> of_int (int ((n - 1) div 2))"
  proof -
    have "n - 1 \<le> 8 * ((n - 1) div 2)" using assms(1) by presburger
    then have "(of_nat (n - 1) :: rat) \<le> of_nat (8 * ((n - 1) div 2))" by (simp only: of_nat_le_iff)
    then show ?thesis by simp
  qed
  finally show ?thesis by (simp only: ceiling_le_iff)
qed

lemma index_90_lower:
  assumes "3 \<le> n" and "n \<le> 2 ^ 50"
  shows "int (n div 2) \<le> \<lfloor>index_rat n 90\<rfloor>"
proof -
  have "of_nat 7 / 8 \<le> rn (of_nat 90 / 100)" by code_simp
  then have "of_nat 7 / 8 * of_nat (n - 1) \<le> rn (of_nat 90 / 100) * of_nat (n - 1)"
    by (intro mult_right_mono) simp_all
  then have "rn (of_nat 7 / 8 * of_nat (n - 1)) \<le> index_rat n 90"
    unfolding index_rat_def by (rule rn_mono)
  moreover have "rn (of_nat 7 / 8 * of_nat (n - 1)) = of_nat 7 / 8 * of_nat (n - 1)"
    using assms(2) by (intro rn_nat_eighth) simp_all
  ultimately have le: "of_nat 7 / 8 * of_nat (n - 1) \<le> index_rat n 90" by simp
  have "8 * (n div 2) \<le> 7 * (n - 1)" using assms(1) by presburger
  then have "(of_nat (8 * (n div 2)) :: rat) \<le> of_nat (7 * (n - 1))" by (simp only: of_nat_le_iff)
  then have "of_int (int (n div 2)) \<le> of_nat 7 / 8 * (of_nat (n - 1) :: rat)" by simp
  then have "of_int (int (n div 2)) \<le> index_rat n 90" using le by linarith
  then show ?thesis by (simp only: le_floor_iff)
qed

text \<open>How far rounding can push a percentile past the median.\<close>

definition near_above :: "int \<Rightarrow> int \<Rightarrow> bool" where
  "near_above v m \<longleftrightarrow> v \<le> m \<or> (2 ^ 52 \<le> m \<and> 2 ^ 48 * v \<le> (m + 1) * (2 ^ 48 + 1))"

definition near_below :: "int \<Rightarrow> int \<Rightarrow> bool" where
  "near_below v m \<longleftrightarrow> m \<le> v \<or> (2 ^ 52 \<le> m \<and> m * (2 ^ 53 - 1) - 2 ^ 53 \<le> 2 ^ 53 * v)"

lemma to_i128_floor: "0 \<le> r \<Longrightarrow> f64_to_i128 (f64_floor (Fin r)) = saturate_i128 \<lfloor>r\<rfloor>"
  by simp

lemma saturate_nonneg_le: "0 \<le> x \<Longrightarrow> saturate_i128 x \<le> x"
  by (auto simp: saturate_i128_def int_ops)

lemma near_above_interp:
  assumes ab: "0 < a" "a \<le> b" "b \<le> m" and r: "in_i128 a" "in_i128 b"
    and lo: "lo = nat \<lfloor>x\<rfloor>" "0 \<le> x" "x \<le> 2 ^ 50"
  shows "near_above (interpolate (Fin x) lo a b) m"
proof -
  let ?i = "interp_rat x lo a b"
  have i0: "0 \<le> ?i"
    using interp_ge_small [OF ab(1,2) lo(1,2), of 1] ab(1) by simp
  have v: "interpolate (Fin x) lo a b \<le> \<lfloor>?i\<rfloor>"
    using interpolate_Fin [OF r ab(1,2) lo] to_i128_floor [OF i0] saturate_nonneg_le [of "\<lfloor>?i\<rfloor>"] i0 by simp
  show ?thesis
  proof (cases "m \<le> 2 ^ 52 - 1")
    case True
    then have "?i \<le> of_int b + 1 / 2" using interp_le_small [OF ab(1,2) _ lo(1,2)] ab(3) by simp
    then have "\<lfloor>?i\<rfloor> \<le> b" by linarith
    then show ?thesis using v ab(3) by (simp add: near_above_def)
  next
    case False
    have "of_int \<lfloor>?i\<rfloor> \<le> ?i" by simp
    also have "\<dots> \<le> (of_int b + 1) * (1 + 1 / 2 ^ 48)" by (rule interp_le_large [OF ab(1,2) lo(1,2)])
    also have "\<dots> \<le> (of_int m + 1) * (1 + 1 / 2 ^ 48)" using ab(3) by (intro mult_right_mono) simp_all
    finally have "(of_int (2 ^ 48 * \<lfloor>?i\<rfloor>) :: rat) \<le> of_int ((m + 1) * (2 ^ 48 + 1))"
      by (simp add: field_simps)
    then have "2 ^ 48 * \<lfloor>?i\<rfloor> \<le> (m + 1) * (2 ^ 48 + 1)" by (simp only: of_int_le_iff)
    then show ?thesis using False v by (simp add: near_above_def)
  qed
qed

lemma near_below_interp:
  assumes ab: "0 < a" "a \<le> b" and m: "0 < m" "m \<le> a" and r: "in_i128 a" "in_i128 b"
    and lo: "lo = nat \<lfloor>x\<rfloor>" "0 \<le> x" "x \<le> 2 ^ 50"
  shows "near_below (interpolate (Fin x) lo a b) m"
proof -
  let ?i = "interp_rat x lo a b"
  have i0: "0 \<le> ?i" using interp_ge_small [OF ab lo(1,2), of 1] ab(1) by simp
  have v: "interpolate (Fin x) lo a b = saturate_i128 \<lfloor>?i\<rfloor>"
    using interpolate_Fin [OF r ab lo] to_i128_floor [OF i0] by simp
  have mm: "m \<le> i128_max" using m r(1) by (simp add: in_i128_def)
  show ?thesis
  proof (cases "m \<le> 2 ^ 52 - 1")
    case True
    have "of_int m + 1 / 2 \<le> ?i" by (rule interp_ge_small [OF ab lo(1,2) m(2,1) True])
    then have "m \<le> \<lfloor>?i\<rfloor>" by linarith
    then show ?thesis using v mm by (simp add: near_below_def saturate_i128_ge)
  next
    case False
    have "of_int m * (1 - 1 / 2 ^ 53) \<le> ?i" by (rule interp_ge_large [OF ab lo(1,2) m])
    then have "of_int m * (1 - 1 / 2 ^ 53) \<le> (of_int \<lfloor>?i\<rfloor> + 1 :: rat)" by linarith
    then have "(of_int (m * (2 ^ 53 - 1) - 2 ^ 53) :: rat) \<le> of_int (2 ^ 53 * \<lfloor>?i\<rfloor>)"
      by (simp add: field_simps)
    then have "m * (2 ^ 53 - 1) - 2 ^ 53 \<le> 2 ^ 53 * \<lfloor>?i\<rfloor>" by (simp only: of_int_le_iff)
    note low = this
    show ?thesis
    proof (cases "m \<le> \<lfloor>?i\<rfloor>")
      case True
      then have "m \<le> saturate_i128 \<lfloor>?i\<rfloor>" using mm by (rule saturate_i128_ge)
      then show ?thesis by (simp add: near_below_def v)
    next
      case less: False
      have "0 \<le> \<lfloor>?i\<rfloor>" using i0 by simp
      then have "saturate_i128 \<lfloor>?i\<rfloor> = \<lfloor>?i\<rfloor>"
        using mm less by (intro saturate_i128_id) (simp add: in_i128_def i128_min_def)
      then show ?thesis using False low by (simp add: near_below_def v)
    qed
  qed
qed

lemma index_le_pow50:
  assumes "p \<le> 100" and "n \<le> 2 ^ 50" and "0 < n"
  shows "index_rat n p \<le> 2 ^ 50"
proof -
  have "index_rat n p \<le> of_nat (n - 1)" by (rule index_rat_bounds(2) [OF assms])
  also have "\<dots> \<le> of_nat (2 ^ 50)" using assms(2) by simp
  finally show ?thesis by simp
qed

lemma percentile_10_near:
  assumes so: "sorted s" and f: "fits n s" and len: "3 \<le> length s" and m: "s ! ((length s - 1) div 2) \<le> m"
    and v: "percentile s 10 = Some v"
  shows "near_above v m"
proof -
  let ?x = "index_rat (length s) 10"
  have l50: "length s \<le> 2 ^ 50" using f by (simp add: fits_def)
  have pre: "(0 :: nat) < 10" "(10 :: nat) < 100" "2 \<le> length s" "(10 :: nat) \<le> 100" "0 < length s" using len by linarith+
  note P = percentile_eq [OF pre(1-3) l50]
  have up: "\<lceil>?x\<rceil> \<le> int ((length s - 1) div 2)" by (rule index_10_upper [OF len l50])
  have fc: "\<lfloor>?x\<rfloor> \<le> \<lceil>?x\<rceil>" by linarith
  have idx: "nat \<lfloor>?x\<rfloor> \<le> nat \<lceil>?x\<rceil>" "nat \<lceil>?x\<rceil> \<le> (length s - 1) div 2" "(length s - 1) div 2 < length s"
    using up fc pre by linarith+
  let ?a = "s ! nat \<lfloor>?x\<rfloor>" and ?b = "s ! nat \<lceil>?x\<rceil>"
  have ab: "?a \<le> ?b" "?b \<le> m"
    using so idx m by (auto intro: sorted_nth_mono order_trans [OF sorted_nth_mono])
  have mem: "?a \<in> set s" "?b \<in> set s" using idx by simp_all
  have ok: "0 < ?a" "in_i128 ?a" "in_i128 ?b"
    using fits_ok [OF f] mem by (auto simp: list_all_iff price_ok_def)
  show ?thesis
  proof (cases "\<lfloor>?x\<rfloor> = \<lceil>?x\<rceil>")
    case True
    then have "v = ?a" using v P(1) by simp
    then show ?thesis using ab by (simp add: near_above_def)
  next
    case False
    then have "v = interpolate (Fin ?x) (nat \<lfloor>?x\<rfloor>) ?a ?b" using v P(1) by simp
    then show ?thesis
      using near_above_interp [OF ok(1) ab ok(2,3) refl index_rat_bounds(1) index_le_pow50] l50 pre by simp
  qed
qed

lemma percentile_90_near:
  assumes so: "sorted s" and f: "fits n s" and len: "3 \<le> length s" and m: "m \<le> s ! (length s div 2)" "0 < m"
    and v: "percentile s 90 = Some v"
  shows "near_below v m"
proof -
  let ?x = "index_rat (length s) 90"
  have l50: "length s \<le> 2 ^ 50" using f by (simp add: fits_def)
  have pre: "(0 :: nat) < 90" "(90 :: nat) < 100" "2 \<le> length s" "(90 :: nat) \<le> 100" "0 < length s" using len by linarith+
  note P = percentile_eq [OF pre(1-3) l50]
  have low: "int (length s div 2) \<le> \<lfloor>?x\<rfloor>" by (rule index_90_lower [OF len l50])
  have fc: "\<lfloor>?x\<rfloor> \<le> \<lceil>?x\<rceil>" by linarith
  have idx: "nat \<lfloor>?x\<rfloor> \<le> nat \<lceil>?x\<rceil>" "length s div 2 \<le> nat \<lfloor>?x\<rfloor>" "nat \<lceil>?x\<rceil> < length s"
    using low fc P(3) pre by linarith+
  let ?a = "s ! nat \<lfloor>?x\<rfloor>" and ?b = "s ! nat \<lceil>?x\<rceil>"
  have "s ! (length s div 2) \<le> ?a" using so idx by (intro sorted_nth_mono) simp_all
  then have ma: "m \<le> ?a" using m(1) by simp
  have ab: "?a \<le> ?b" using so idx by (intro sorted_nth_mono) simp_all
  have mem: "?a \<in> set s" "?b \<in> set s" using idx by simp_all
  have ok: "0 < ?a" "in_i128 ?a" "in_i128 ?b"
    using fits_ok [OF f] mem by (auto simp: list_all_iff price_ok_def)
  show ?thesis
  proof (cases "\<lfloor>?x\<rfloor> = \<lceil>?x\<rceil>")
    case True
    then have "v = ?a" using v P(1) by simp
    then show ?thesis using ma by (simp add: near_below_def)
  next
    case False
    then have "v = interpolate (Fin ?x) (nat \<lfloor>?x\<rfloor>) ?a ?b" using v P(1) by simp
    then show ?thesis
      using near_below_interp [OF ok(1) ab m(2) ma ok(2,3) refl index_rat_bounds(1) index_le_pow50] l50 pre by simp
  qed
qed

section \<open>The spread outweighs the rounding\<close>

lemma spread_of_ge:
  assumes "0 < m" and "in_i128 m" and "1 \<le> bps"
  shows "m div 10000 \<le> spread_of m bps"
proof -
  have "m \<le> m * int bps" using assms(1,3) mult_left_mono [of 1 "int bps" m] by simp
  then have sat: "m \<le> saturate_i128 (m * int bps)" using assms(2) by (simp add: saturate_i128_ge in_i128_def)
  then have "0 \<le> saturate_i128 (m * int bps)" using assms(1) by linarith
  then show ?thesis using sat by (simp add: spread_of_def zdiv_mono1)
qed

lemma band_near:
  assumes m: "0 < m" "in_i128 m" and bps: "1 \<le> bps" and lo: "near_above lo m" and hi: "near_below hi m"
  shows "pp_min (band lo hi (spread_of m bps)) \<le> m" and "m \<le> pp_max (band lo hi (spread_of m bps))"
proof -
  define S where "S = spread_of m bps"
  have S: "m div 10000 \<le> S" unfolding S_def by (rule spread_of_ge [OF m bps])
  have q: "m - 9999 \<le> 10000 * (m div 10000)" "0 \<le> m div 10000" using m(1) by linarith+
  have "lo - S \<le> m" using lo S q unfolding near_above_def by (auto simp: algebra_simps)
  then have "saturate_i128 (lo - S) \<le> m" using m by (intro saturate_i128_le) (simp_all add: in_i128_def)
  then show "pp_min (band lo hi (spread_of m bps)) \<le> m" using m(1) by (simp add: band_def S_def)
  have "m \<le> hi + S" using hi S q unfolding near_below_def by (auto simp: algebra_simps)
  then show "m \<le> pp_max (band lo hi (spread_of m bps))"
    using m(2) by (simp add: band_def S_def saturate_i128_ge in_i128_def)
qed

lemma median_in_range:
  assumes "fits n ps" and "compute_median_allow_single ps = Ok (Some m)"
  shows "0 < m \<and> in_i128 m"
proof -
  have ne: "ps \<noteq> []" using assms(2) by (auto simp: compute_median_allow_single_def)
  have ms: "median_sorted (sort ps) = Some m"
    using assms(2) ne by (auto simp: compute_median_allow_single_def or_panic_Ok_iff)
  have mem: "sort ps ! k \<in> set ps" if "k < length ps" for k using nth_mem [of k "sort ps"] that by simp
  have ok: "0 < p \<and> in_i128 p" if "p \<in> set ps" for p
    using fits_ok [OF assms(1)] that by (auto simp: list_all_iff price_ok_def)
  show ?thesis
  proof (cases "2 \<le> length ps")
    case True
    have i: "(length ps - 1) div 2 < length ps" "length ps div 2 < length ps" using True by auto
    have "sort ps ! ((length ps - 1) div 2) \<le> m" "m \<le> sort ps ! (length ps div 2)"
      using median_between [OF sorted_sort [of ps] _ ms] True by simp_all
    then show ?thesis using ok [OF mem [OF i(1)]] ok [OF mem [OF i(2)]] by (auto simp: in_i128_def)
  next
    case False
    then obtain p where "ps = [p]" using ne by (cases ps) (auto simp: Suc_le_eq)
    then show ?thesis using ms ok by (simp add: median_sorted_def)
  qed
qed

lemma confidence_contains_median:
  assumes f: "fits n ps" and bps: "1 \<le> bps" and m: "compute_median_allow_single ps = (Ok (Some m) :: ('e, _) outcome)"
    and c: "compute_confidence_interval_with_spread ps bps = (Ok (Some props) :: ('e, _) outcome)"
  shows "0 \<le> pp_min props \<and> pp_min props \<le> m \<and> m \<le> pp_max props"
proof -
  have ne: "ps \<noteq> []" using m by (auto simp: compute_median_allow_single_def)
  let ?s = "sort ps"
  have ms: "median_sorted ?s = Some m"
    using m ne by (auto simp: compute_median_allow_single_def or_panic_Ok_iff)
  have m2: "compute_median_allow_single ?s = (Ok (Some m) :: ('e, _) outcome)"
  proof -
    have "?s \<noteq> []" using ne length_sort by (metis length_0_conv)
    moreover have "sort ?s = ?s" by (simp add: sorted_sort_id)
    ultimately show ?thesis by (simp only: compute_median_allow_single_def if_False ms option.map or_panic_simps)
  qed
  note mr = median_in_range [OF f m]
  have "0 \<le> pp_min props" using c by (auto simp: compute_confidence_interval_with_spread_def Let_def
        outcome_ops band_def split: if_splits option.splits)
  moreover have "pp_min props \<le> m \<and> m \<le> pp_max props"
  proof (cases "3 \<le> length ps")
    case True
    then obtain lo hi where p: "percentile ?s 10 = Some lo" "percentile ?s 90 = Some hi"
      and props: "props = band lo hi (spread_of m bps)"
      using c m2 ne
      by (auto simp: compute_confidence_interval_with_spread_def Let_def outcome_ops
          MIN_SOURCES_FOR_PERCENTILE_def)
    have "?s ! ((length ?s - 1) div 2) \<le> m" "m \<le> ?s ! (length ?s div 2)"
      using median_between [OF sorted_sort [of ps] _ ms] True by simp_all
    then have "near_above lo m" "near_below hi m"
      using percentile_10_near [OF _ fits_sort [OF f] _ _ p(1)] percentile_90_near [OF _ fits_sort [OF f] _ _ _ p(2)]
        mr True by simp_all
    then show ?thesis using band_near mr bps unfolding props by blast
  next
    case False
    then have "props = band m m (spread_of m bps)"
      using c m2 ne
      by (auto simp: compute_confidence_interval_with_spread_def Let_def outcome_ops
          MIN_SOURCES_FOR_PERCENTILE_def)
    then show ?thesis using band_near [of m bps m m] mr bps by (simp add: near_above_def near_below_def)
  qed
  ultimately show ?thesis by blast
qed

end
