(* ===== verification/Oracle_Price_Spec.thy ===== *)
theory Oracle_Price_Spec
  imports Oracle_Band
begin

text \<open>
  The properties of the price aggregation, each applied once at a concrete input.
\<close>

lemma is_ok_E: "is_ok m \<Longrightarrow> (\<And>a. m = Ok a \<Longrightarrow> thesis) \<Longrightarrow> thesis"
  by (cases m) auto

lemma aggregate_band:
  assumes "fits (length prices) prices" and "1 \<le> d"
    and "aggregate_prices prices sources ts m d = Ok a"
  shows "0 \<le> ap_min a \<and> ap_min a \<le> ap_median a \<and> ap_median a \<le> ap_max a \<and> 0 < ap_median a"
proof -
  obtain c fr props median where len: "length sources = length prices"
    and c: "find_largest_consistent_cluster prices sources (cluster_tolerance_bps d)
      = (Ok (Some c) :: (agg_error, _) outcome)"
    and fr: "filter_outliers (cr_prices c) (cr_sources c) d = (Ok fr :: (agg_error, _) outcome)"
    and md: "compute_median_allow_single (ofr_prices fr) = (Ok (Some median) :: (agg_error, _) outcome)"
    and ci: "compute_confidence_interval_with_spread (ofr_prices fr) d = (Ok (Some props) :: (agg_error, _) outcome)"
    and a: "ap_min a = pp_min props" "ap_max a = pp_max props" "ap_median a = median"
    using aggregate_Ok_elim [OF assms(3)] by metis
  have "prices \<noteq> []" using c by (auto simp: find_largest_consistent_cluster_def)
  then obtain c' where "find_largest_consistent_cluster prices sources (cluster_tolerance_bps d)
      = (Ok (Some c') :: (agg_error, _) outcome)" "fits (length prices) (cr_prices c')"
      "length (cr_sources c') = length (cr_prices c')"
    using cluster_total [OF assms(1) _ len] by blast
  then have fc: "fits (length prices) (cr_prices c)" "length (cr_sources c) = length (cr_prices c)"
    using c by simp_all
  have ff: "fits (length prices) (ofr_prices fr)"
    using splits_subset [OF filter_outliers_splits [OF fr fc(2)] fc(2)] fits_subset [OF fc(1)] by blast
  show ?thesis
    using confidence_contains_median [OF ff assms(2) md ci] median_in_range [OF ff md] by (simp add: a)
qed

text \<open>
  C8: Let all prices be positive and small enough to be added up (\<open>fits\<close>: the number of prices
  times each price is at most \<open>i128::MAX\<close>), and let the tolerance be at least one basis point, as
  every accepted configuration has it. Then a successful aggregation submits a band
  \<open>0 \<le> min \<le> median \<le> max\<close> around a positive median, although both ends are interpolated in
  floating point.
\<close>

theorem aggregate_band_contains_median:
  assumes "fits (length prices) prices" and "1 \<le> d"
    and "aggregate_prices prices sources ts m d = Ok a"
  shows "0 \<le> ap_min a \<and> ap_min a \<le> ap_median a \<and> ap_median a \<le> ap_max a \<and> 0 < ap_median a"
  using assms by (rule aggregate_band)

theorem aggregate_band_contains_median_witness:
  "\<exists>a. aggregate_prices [1000, 1010, 1020] [''a'', ''b'', ''c''] [7, 5, 9] 2 100 = Ok a \<and>
     ap_min a \<le> ap_median a \<and> ap_median a \<le> ap_max a"
proof -
  have "is_ok (aggregate_prices [1000, 1010, 1020] [''a'', ''b'', ''c''] [7, 5, 9] 2 100)" by code_simp
  then obtain a where a: "aggregate_prices [1000, 1010, 1020] [''a'', ''b'', ''c''] [7, 5, 9] 2 100 = Ok a"
    by (rule is_ok_E)
  have "fits (length [1000, 1010, 1020 :: int]) [1000, 1010, 1020]" by (simp add: fits_def int_ops)
  from aggregate_band_contains_median [OF this _ a] show ?thesis using a by simp
qed

text \<open>
  The tolerance matters: with none at all, floating point loses the last unit of three equal
  prices, and the band ends below their median. The configuration excludes this case.
\<close>

lemma zero_tolerance_loses_median:
  "\<exists>a. aggregate_prices [2 ^ 53 + 1, 2 ^ 53 + 1, 2 ^ 53 + 1] [''a'', ''b'', ''c''] [7, 5, 9] 2 0 = Ok a \<and>
     ap_max a < ap_median a"
proof -
  have "case aggregate_prices [2 ^ 53 + 1, 2 ^ 53 + 1, 2 ^ 53 + 1] [''a'', ''b'', ''c''] [7, 5, 9] 2 0 of
      Ok a \<Rightarrow> ap_max a < ap_median a | _ \<Rightarrow> False" by code_simp
  then show ?thesis by (auto split: outcome.splits)
qed

text \<open>
  C28: On positive prices that are small enough to be added up, the aggregation ends in a
  result or an error, never in a panic: no index out of range, no overflow.
\<close>

theorem aggregate_never_panics:
  assumes "fits (length prices) prices"
  shows "aggregate_prices prices sources ts m d \<noteq> Panic"
  using assms by (rule aggregate_total)

theorem aggregate_never_panics_witness:
  "aggregate_prices [3, 100, 5000] [''a'', ''b'', ''c''] [1, 2, 3] 2 10 \<noteq> Panic"
  by (rule aggregate_never_panics) (simp add: fits_def int_ops)

text \<open>
  Every configured source is either used or reported as rejected, exactly once, with the
  price it delivered, and at least \<open>min_sources\<close> are used.
\<close>

theorem aggregate_accounts_for_every_source:
  assumes "distinct sources" and "aggregate_prices prices sources ts m d = Ok a"
  shows "m \<le> length (ap_sources_used a) \<and>
    (\<exists>ps. length ps = length (ap_sources_used a) \<and>
       mset (zip ps (ap_sources_used a))
         + mset (map (\<lambda>r. (rs_price r, rs_source r)) (ap_rejected_sources a))
       = mset (zip prices sources))"
proof -
  obtain c fr where c: "find_largest_consistent_cluster prices sources (cluster_tolerance_bps d)
      = (Ok (Some c) :: (agg_error, _) outcome)"
    and fr: "filter_outliers (cr_prices c) (cr_sources c) d = (Ok fr :: (agg_error, _) outcome)"
    and m: "m \<le> length (ofr_prices fr)" and used: "ap_sources_used a = ofr_sources fr"
    using aggregate_Ok_elim [OF assms(2)] by metis
  have "length (ofr_prices fr) = length (ofr_sources fr)"
    using filter_outliers_splits [OF fr cluster_entries(1) [OF c]] by (simp add: splits_entries_def)
  then show ?thesis using aggregate_partition [OF assms(2,1)] m used by simp
qed

theorem aggregate_accounts_for_every_source_witness:
  "\<exists>a. aggregate_prices [1000, 1010, 9000] [''a'', ''b'', ''c''] [7, 5, 9] 2 100 = Ok a \<and>
     2 \<le> length (ap_sources_used a)"
proof -
  have "is_ok (aggregate_prices [1000, 1010, 9000] [''a'', ''b'', ''c''] [7, 5, 9] 2 100)" by code_simp
  then obtain a where a: "aggregate_prices [1000, 1010, 9000] [''a'', ''b'', ''c''] [7, 5, 9] 2 100 = Ok a"
    by (rule is_ok_E)
  have "distinct [''a'', ''b'', ''c'']" by simp
  from aggregate_accounts_for_every_source [OF this a] show ?thesis using a by blast
qed

text \<open>
  The observation time of the result is the oldest one among the sources that are used:
  one of them has it, and no source that was used is older.
\<close>

theorem aggregate_reports_oldest_observation:
  assumes "distinct sources" and "aggregate_prices prices sources ts m d = Ok a"
  shows "(\<exists>i < length sources. sources ! i \<in> set (ap_sources_used a) \<and> ts ! i = ap_min_observation_time a)
     \<and> (\<forall>i < length sources. sources ! i \<in> set (ap_sources_used a) \<longrightarrow> ap_min_observation_time a \<le> ts ! i)"
proof -
  obtain fr :: outlier_filter_result where len: "length sources = length prices" "length ts = length prices"
    and t: "min_time (observed_at sources ts (ofr_sources fr)) = Some (ap_min_observation_time a)"
    and used: "ap_sources_used a = ofr_sources fr"
    using aggregate_Ok_elim [OF assms(2)] by metis
  show ?thesis
    using t set_observed_at [of ts sources "ofr_sources fr"] len assms(1)
    by (auto simp: min_time_Some_iff used)
qed

theorem aggregate_reports_oldest_observation_witness:
  "\<exists>a. aggregate_prices [1000, 1010, 9000] [''a'', ''b'', ''c''] [7, 5, 2] 2 100 = Ok a \<and>
     (\<exists>i < 3. [7, 5, 2] ! i = ap_min_observation_time a)"
proof -
  have "is_ok (aggregate_prices [1000, 1010, 9000] [''a'', ''b'', ''c''] [7, 5, 2] 2 100)" by code_simp
  then obtain a where a: "aggregate_prices [1000, 1010, 9000] [''a'', ''b'', ''c''] [7, 5, 2] 2 100 = Ok a"
    by (rule is_ok_E)
  have "distinct [''a'', ''b'', ''c'']" by simp
  from aggregate_reports_oldest_observation [OF this a] show ?thesis using a by (auto simp: eval_nat_numeral)
qed

text \<open>
  C29: The order in which the sources are configured does not matter: permuting the inputs
  yields the same outcome, up to the order in which rejected sources are listed.
\<close>

theorem aggregate_order_independent:
  assumes "mset es = mset es'" and "distinct (map entry_source es)"
  shows "unordered (aggregate_prices (map entry_price es) (map entry_source es) (map entry_time es) m d)
       = unordered (aggregate_prices (map entry_price es') (map entry_source es') (map entry_time es') m d)"
  using assms by (rule aggregate_permuted)

theorem aggregate_order_independent_witness:
  "unordered (aggregate_prices [100, 101, 102] [''a'', ''b'', ''c''] [1, 2, 3] 2 100)
     = unordered (aggregate_prices [102, 100, 101] [''c'', ''a'', ''b''] [3, 1, 2] 2 100)"
  using aggregate_order_independent
    [of "[(100, ''a'', 1), (101, ''b'', 2), (102, ''c'', 3)]"
        "[(102, ''c'', 3), (100, ''a'', 1), (101, ''b'', 2)]" 2 100]
  by (simp add: entry_price_def entry_source_def entry_time_def add_mset_commute)

text \<open>
  With an odd number of positive prices the outlier filter keeps at least the median price,
  whatever the tolerance.
\<close>

theorem filter_outliers_keeps_odd_median:
  assumes "filter_outliers prices sources d = Ok r" and "odd (length prices)"
    and "list_all price_ok prices"
  shows "sort prices ! (length prices div 2) \<in> set (ofr_prices r)"
proof -
  have "length prices \<noteq> 2" "prices \<noteq> []" using assms(2) by auto
  then have "filter_many prices sources d = Some r"
    using assms(1) filter_outliers_not_two by (metis or_panic_Ok_iff)
  then show ?thesis using assms(2,3) by (rule filter_many_keeps_median)
qed

theorem filter_outliers_keeps_odd_median_witness:
  "\<exists>r. filter_outliers [100, 200, 900] [''a'', ''b'', ''c''] 1
      = (Ok r :: (agg_error, _) outcome) \<and> 200 \<in> set (ofr_prices r)"
proof -
  have "is_ok (filter_outliers [100, 200, 900] [''a'', ''b'', ''c''] 1 :: (agg_error, _) outcome)" by code_simp
  then obtain r where r: "filter_outliers [100, 200, 900] [''a'', ''b'', ''c''] 1
      = (Ok r :: (agg_error, _) outcome)" by (rule is_ok_E)
  have "list_all price_ok [100, 200, 900]" by (simp add: price_ok_def int_ops)
  from filter_outliers_keeps_odd_median [OF r _ this] show ?thesis using r by simp
qed

lemma even_filter_example:
  "\<exists>r. filter_many [100, 100, 104, 104] [''a'', ''b'', ''c'', ''d''] 1 = Some r \<and> ofr_prices r = []"
proof -
  have med: "median_sorted (sort [100, 100, 104, 104]) = Some 102" by code_simp
  have dev: "map_option_list (\<lambda>p. checked_abs_diff p 102) [100, 100, 104, 104] = Some [2, 2, 2, 2]"
    by code_simp
  have mad: "median_sorted (sort [2, 2, 2, 2]) = Some 2" by code_simp
  have sum: "sum_i128 [100, 100, 104, 104] = Some 408" by code_simp
  have "case partition_outliers (is_outlier 1 102 2 (stddev_of [100, 100, 104, 104]
        (mean_of 408 (length [100, 100, 104, 104 :: int])))) (\<lambda>p. deviation_bps p 102)
        [100, 100, 104, 104] [''a'', ''b'', ''c'', ''d''] of
      Some r \<Rightarrow> ofr_prices r = [] | None \<Rightarrow> False" by code_simp
  then show ?thesis
    by (auto simp only: filter_many_def Let_def med dev mad sum option.case split: option.splits)
qed

text \<open>
  With an even number of prices that guarantee is lost: four prices that agree within 400
  basis points are all rejected when the tolerance is one, and the aggregation fails.
\<close>

theorem filter_outliers_may_reject_all:
  "aggregate_prices [100, 100, 104, 104] [''a'', ''b'', ''c'', ''d''] [1, 1, 1, 1] 1 1
     = Err (InsufficientAfterFilter 0 1)"
proof -
  have "find_largest_consistent_cluster [100, 100, 104, 104] [''a'', ''b'', ''c'', ''d'']
      (cluster_tolerance_bps 1) = (Ok (Some \<lparr>cr_prices = [100, 100, 104, 104],
        cr_sources = [''a'', ''b'', ''c'', ''d'']\<rparr>) :: (agg_error, _) outcome)" by code_simp
  then show ?thesis
    using even_filter_example by (auto simp: aggregate_prices_def filter_outliers_def)
qed

text \<open>
  When exactly two prices disagree, the filter keeps the first one, never the second:
  both are equally far from their average, so the comparison does not decide.
\<close>

theorem filter_outliers_two_keeps_first:
  assumes "0 < q0" and "q0 \<le> 2 ^ 51" and "0 < q1" and "q1 \<le> 2 ^ 51"
    and "filter_outliers [q0, q1] [s0, s1] d = Ok r"
  shows "ofr_prices r = [q0, q1] \<or> (ofr_prices r = [q0] \<and> ofr_sources r = [s0])"
  using assms filter_two_keeps_first [of q0 q1 s0 s1 r]
  by (simp add: filter_outliers_def or_panic_Ok_iff)

theorem filter_outliers_two_keeps_first_witness:
  "\<exists>r. filter_outliers [100, 150] [''a'', ''b''] 100 = (Ok r :: (agg_error, _) outcome) \<and>
     100 \<in> set (ofr_prices r)"
proof -
  have "is_ok (filter_outliers [100, 150] [''a'', ''b''] 100 :: (agg_error, _) outcome)" by code_simp
  then obtain r where r: "filter_outliers [100, 150] [''a'', ''b''] 100
      = (Ok r :: (agg_error, _) outcome)" by (rule is_ok_E)
  from filter_outliers_two_keeps_first [OF _ _ _ _ r] show ?thesis using r by auto
qed

text \<open>
  A zero price among non-negative ones makes the cluster search read past the end of its
  vector: it panics for every tolerance below 10000 basis points, so the sources must reject
  prices that are not positive.
\<close>

theorem find_largest_consistent_cluster_zero_panics:
  assumes "length sources = length prices" and "0 \<in> set prices"
    and "list_all (\<lambda>p. 0 \<le> p \<and> in_i128 p) prices" and "tol < 10000"
  shows "find_largest_consistent_cluster prices sources tol = Panic"
  using assms by (rule cluster_zero_panics)

theorem find_largest_consistent_cluster_zero_panics_witness:
  "find_largest_consistent_cluster [100, 0, 101] [''a'', ''b'', ''c''] 500
     = (Panic :: (agg_error, _) outcome)"
  by (rule find_largest_consistent_cluster_zero_panics) (simp_all add: int_ops)

end
