(* ===== verification/Oracle_Effects.thy ===== *)
theory Oracle_Effects
  imports Oracle_F64
begin

text \<open>
  The outside world of the oracle and the retry loop of \<^verbatim>\<open>oracle/src/retry.rs\<close>.

  Clock, random numbers, sleeping and HTTP are operations on an abstract world \<open>'w\<close>, given by
  an \<open>env\<close>; what a service answers is theirs to decide. A call of an \<^verbatim>\<open>async\<close> function is the
  function from the world before it to its outcome and the world after it.
\<close>

section \<open>The world\<close>

record request =
  rq_url :: string
  rq_query :: "(string \<times> string) list"
  rq_bearer :: "string option"
  rq_body :: "string option"

text \<open>\<^verbatim>\<open>send()\<close> fails with a message, or yields a status and the outcome of \<^verbatim>\<open>text()\<close>.\<close>

type_synonym http_reply = "(string, u16 \<times> (string, string) outcome) outcome"

record 'w env =
  env_system :: "'w \<Rightarrow> nat \<times> 'w"
  env_instant :: "'w \<Rightarrow> nat \<times> 'w"
  env_random :: "'w \<Rightarrow> f64 \<times> 'w"
  env_sleep :: "nat \<Rightarrow> 'w \<Rightarrow> 'w"
  env_http :: "request \<Rightarrow> 'w \<Rightarrow> http_reply \<times> 'w"

text \<open>
  \<^verbatim>\<open>SystemTime::now()\<close> is a number of milliseconds since the epoch and \<^verbatim>\<open>Instant::now()\<close> one on
  a monotonic clock; \<^verbatim>\<open>current_timestamp_secs\<close> (\<^verbatim>\<open>lib.rs\<close>) truncates the first to seconds.
\<close>

definition current_timestamp_secs :: "'w env \<Rightarrow> 'w \<Rightarrow> u64 \<times> 'w" where
  "current_timestamp_secs env w = (case env_system env w of (t, w') \<Rightarrow> (t div 1000, w'))"

type_synonym ('w, 'e, 'a) action = "'w \<Rightarrow> ('e, 'a) outcome \<times> 'w"

definition return_action :: "('e, 'a) outcome \<Rightarrow> ('w, 'e, 'a) action" where
  "return_action r w = (r, w)"

definition bind_action :: "('w, 'e, 'a) action \<Rightarrow> ('a \<Rightarrow> ('w, 'e, 'b) action) \<Rightarrow> ('w, 'e, 'b) action" where
  "bind_action m f w =
     (case m w of (Ok a, w') \<Rightarrow> f a w' | (Err e, w') \<Rightarrow> (Err e, w') | (Panic, w') \<Rightarrow> (Panic, w'))"

definition map_err_action :: "('e \<Rightarrow> 'f) \<Rightarrow> ('w, 'e, 'a) action \<Rightarrow> ('w, 'f, 'a) action" where
  "map_err_action g m w = (case m w of (r, w') \<Rightarrow> (map_err g r, w'))"

section \<open>HTTP helpers (\<^verbatim>\<open>http.rs\<close>)\<close>

definition HTTP_ERROR_BODY_MAX_CHARS :: nat where "HTTP_ERROR_BODY_MAX_CHARS = 512"

definition truncate_error_body :: "string \<Rightarrow> string" where
  "truncate_error_body body =
     (let trimmed = trim body
      in if length trimmed \<le> HTTP_ERROR_BODY_MAX_CHARS then trimmed
         else take HTTP_ERROR_BODY_MAX_CHARS trimmed)"

text \<open>A GET request whose status and body are read; both failures are network errors.\<close>

definition http_get :: "'w env \<Rightarrow> request \<Rightarrow> ('w, string, u16 \<times> string) action" where
  "http_get env rq w =
     (case env_http env rq w of
        (Err e, w') \<Rightarrow> (Err e, w')
      | (Panic, w') \<Rightarrow> (Panic, w')
      | (Ok (status, text), w') \<Rightarrow> (bind_outcome text (\<lambda>body. Ok (status, body)), w'))"

lemma truncate_error_body_length: "length (truncate_error_body body) \<le> 512"
  by (simp add: truncate_error_body_def HTTP_ERROR_BODY_MAX_CHARS_def Let_def)

section \<open>Retry with backoff (\<^verbatim>\<open>retry.rs\<close>)\<close>

definition MAX_BACKOFF_DELAY_MS :: u64 where "MAX_BACKOFF_DELAY_MS = 30000"

definition jitter :: "'w env \<Rightarrow> u64 \<Rightarrow> 'w \<Rightarrow> u64 \<times> 'w" where
  "jitter env delay_ms w =
     (case env_random env w of (r, w') \<Rightarrow>
        let factor = f64_add (Fin (1 / 2)) (f64_mul r (Fin (1 / 2)))
        in (f64_to_u64 (f64_mul (f64_of_int (int delay_ms)) factor), w'))"

definition sleep_ms :: "'w env \<Rightarrow> u64 \<Rightarrow> 'w \<Rightarrow> 'w" where
  "sleep_ms env ms w = (if 0 < ms then env_sleep env ms w else w)"

text \<open>
  The loop, by the attempts that remain; \<open>delay * 2\<close> overflows a \<^verbatim>\<open>u64\<close> only for delays no
  caller configures.
\<close>

fun retry_loop ::
  "'w env \<Rightarrow> ('e \<Rightarrow> bool) \<Rightarrow> ('w, 'e, 'a) action \<Rightarrow> u64 \<Rightarrow> nat \<Rightarrow> u64 \<Rightarrow> ('w, 'e, 'a) action" where
  "retry_loop env retryable f max_delay 0 delay w = (Panic, w)"
| "retry_loop env retryable f max_delay (Suc n) delay w =
     (case f w of
        (Ok v, w1) \<Rightarrow> (Ok v, w1)
      | (Panic, w1) \<Rightarrow> (Panic, w1)
      | (Err e, w1) \<Rightarrow>
          if \<not> retryable e then (Err e, w1)
          else if n = 0 then (Err e, w1)
          else case jitter env delay w1 of (d, w2) \<Rightarrow>
            let w3 = sleep_ms env d w2
            in if u64_max < delay * 2 then (Panic, w3)
               else retry_loop env retryable f max_delay n (min (delay * 2) max_delay) w3)"

definition retry_with_backoff ::
  "'w env \<Rightarrow> ('e \<Rightarrow> bool) \<Rightarrow> ('w, 'e, 'a) action \<Rightarrow> nat \<Rightarrow> u64 \<Rightarrow> u64 \<Rightarrow> ('w, 'e, 'a) action" where
  "retry_with_backoff env retryable f max_attempts base_delay max_delay w =
     (if max_attempts = 0 then (Panic, w)
      else retry_loop env retryable f max_delay max_attempts (min base_delay max_delay) w)"

text \<open>
  What a caller relies on: a quantity \<open>\<mu>\<close> of the world that one call raises by at most \<open>c\<close> and
  that sleeping and random numbers leave alone is raised by at most \<open>max_attempts * c\<close>.
\<close>

definition quiet :: "'w env \<Rightarrow> ('w \<Rightarrow> nat) \<Rightarrow> bool" where
  "quiet env \<mu> \<longleftrightarrow> (\<forall>w. \<mu> (snd (env_random env w)) = \<mu> w) \<and> (\<forall>ms w. \<mu> (env_sleep env ms w) = \<mu> w)"

lemma quiet_jitter: "quiet env \<mu> \<Longrightarrow> \<mu> (snd (jitter env d w)) = \<mu> w"
  by (cases "env_random env w") (simp add: quiet_def jitter_def Let_def, metis snd_conv)

lemma quiet_sleep: "quiet env \<mu> \<Longrightarrow> \<mu> (sleep_ms env d w) = \<mu> w"
  by (simp add: quiet_def sleep_ms_def)

lemma retry_loop_calls:
  assumes q: "quiet env \<mu>" and f: "\<And>w. \<mu> (snd (f w)) \<le> \<mu> w + c"
  shows "\<mu> (snd (retry_loop env retryable f max_delay n delay w)) \<le> \<mu> w + n * c"
proof (induction n arbitrary: delay w)
  case 0
  then show ?case by simp
next
  case (Suc n)
  obtain r w1 where fw: "f w = (r, w1)" by (cases "f w")
  have w1: "\<mu> w1 \<le> \<mu> w + c" using f [of w] fw by simp
  obtain d w2 where j: "jitter env delay w1 = (d, w2)" by (cases "jitter env delay w1")
  have "\<mu> (sleep_ms env d w2) = \<mu> w1"
    using quiet_jitter [OF q, of delay w1] j by (simp add: quiet_sleep [OF q])
  then show ?case
    using Suc [of "min (delay * 2) max_delay" "sleep_ms env d w2"] w1 fw j
    by (auto simp: Let_def split: outcome.splits)
qed

lemma retry_loop_Ok:
  assumes "fst (retry_loop env retryable f max_delay n delay w) = Ok v"
  shows "\<exists>w'. fst (f w') = Ok v"
  using assms
proof (induction n arbitrary: delay w)
  case (Suc n)
  show ?case
  proof (cases "f w")
    case (Pair r w1)
    obtain d w2 where "jitter env delay w1 = (d, w2)" by (cases "jitter env delay w1")
    then show ?thesis
      using Suc.prems Suc.IH [of "min (delay * 2) max_delay" "sleep_ms env d w2"] Pair
      by (cases r) (auto simp: Let_def split: if_splits intro: exI [of _ w])
  qed
qed simp

lemma retry_Ok:
  "fst (retry_with_backoff env retryable f n b m w) = Ok v \<Longrightarrow> \<exists>w'. fst (f w') = Ok v"
  using retry_loop_Ok by (auto simp: retry_with_backoff_def split: if_splits)

text \<open>Whatever holds of every world a call can produce holds of the world after the loop.\<close>

lemma retry_loop_invariant:
  assumes f: "\<And>w. I w \<Longrightarrow> I (snd (f w))"
    and r: "\<And>w. I w \<Longrightarrow> I (snd (env_random env w))" and s: "\<And>ms w. I w \<Longrightarrow> I (env_sleep env ms w)"
  shows "I w \<Longrightarrow> I (snd (retry_loop env retryable f max_delay n delay w))"
proof (induction n arbitrary: delay w)
  case (Suc n)
  obtain x w1 where fw: "f w = (x, w1)" by (cases "f w")
  have w1: "I w1" using f [OF Suc.prems] fw by simp
  obtain d w2 where j: "jitter env delay w1 = (d, w2)" by (cases "jitter env delay w1")
  have "w2 = snd (env_random env w1)"
    using j by (cases "env_random env w1") (simp add: jitter_def Let_def)
  then have "I (sleep_ms env d w2)" using r [OF w1] s by (simp add: sleep_ms_def)
  then show ?case
    using Suc.IH [of "sleep_ms env d w2"] w1 fw j by (auto simp: Let_def split: outcome.splits)
qed simp

section \<open>The delays\<close>

text \<open>\<^verbatim>\<open>rand::random::<f64>()\<close> lies in the half-open unit interval.\<close>

definition unit_random :: "'w env \<Rightarrow> bool" where
  "unit_random env \<longleftrightarrow> (\<forall>w. \<exists>q. fst (env_random env w) = Fin q \<and> 0 \<le> q \<and> q < 1)"

lemma rn_between: "representable a \<Longrightarrow> representable b \<Longrightarrow> a \<le> x \<Longrightarrow> x \<le> b \<Longrightarrow> a \<le> rn x \<and> rn x \<le> b"
  using rn_ge [of a x] rn_le [of x b] by simp

lemma half_int_representable: "\<bar>n\<bar> \<le> 2 ^ 53 \<Longrightarrow> representable (of_int n / 2)"
proof -
  assume "\<bar>n\<bar> \<le> 2 ^ 53"
  moreover have "(of_int n / 2 :: rat) = of_int n * 2 powi (- 1)" by (simp add: power_int_minus)
  moreover have "- 1074 \<le> (- 1 :: int)" by simp
  ultimately show ?thesis unfolding representable_def by blast
qed

lemma jitter_bounds:
  assumes "unit_random env" and "d \<le> 2 ^ 50"
  shows "d div 2 \<le> fst (jitter env d w) \<and> fst (jitter env d w) \<le> d"
proof -
  obtain q w' where r: "env_random env w = (Fin q, w')" and q: "0 \<le> q" "q < 1"
    using assms(1) unfolding unit_random_def by (metis prod.exhaust_sel)
  have one: "representable 1" using representable_of_int [of 1] by simp
  have half: "representable (1 / 2)" using half_int_representable [of 1] by simp
  have zero: "representable 0" using representable_of_int [of 0] by simp
  have dd: "\<bar>int d\<bar> \<le> 2 ^ 53" using assms(2) by simp
  define g where "g = rn (q * (1 / 2))"
  have g: "0 \<le> g" "g \<le> 1 / 2"
    using rn_between [OF zero half, of "q * (1 / 2)"] q by (simp_all add: g_def)
  define h where "h = rn (1 / 2 + g)"
  have h: "1 / 2 \<le> h" "h \<le> 1" using rn_between [OF half one, of "1 / 2 + g"] g by (simp_all add: h_def)
  define x where "x = rn (of_nat d * h)"
  have dh: "of_int (int d) / 2 \<le> of_nat d * h" "of_nat d * h \<le> of_int (int d)"
    using h mult_left_mono [OF h(1), of "of_nat d"] mult_left_mono [OF h(2), of "of_nat d"] by simp_all
  have x: "of_int (int d) / 2 \<le> x" "x \<le> of_int (int d)"
    using rn_between [OF half_int_representable [OF dd] representable_of_int [OF dd] dh]
    by (simp_all add: x_def)
  have big: "(of_int (int d) :: rat) \<le> 2 ^ 300"
  proof -
    have "(of_int (int d) :: rat) \<le> of_int (2 ^ 53)" using dd by (simp only: of_int_le_iff abs_le_iff)
    also have "\<dots> \<le> 2 ^ 300" by simp
    finally show ?thesis .
  qed
  have le1: "(1 :: rat) \<le> 2 ^ 300" by simp
  have "f64_mul (Fin q) (Fin (1 / 2)) = Fin g"
    using q le1 by (simp add: g_def round64_Fin)
  moreover have "f64_add (Fin (1 / 2)) (Fin g) = Fin h"
    using g le1 unfolding h_def by (simp add: round64_Fin)
  moreover have "f64_of_int (int d) = Fin (of_int (int d))"
    unfolding f64_of_int_def using big by (subst round64_Fin) (simp_all add: rn_of_int_exact [OF dd, simplified])
  moreover have "f64_mul (Fin (of_int (int d))) (Fin h) = Fin x"
    unfolding x_def using dh big h by (simp add: round64_Fin)
  ultimately have "fst (jitter env d w) = f64_to_u64 (Fin x)" by (simp add: jitter_def r)
  also have "\<dots> = nat \<lfloor>x\<rfloor>"
  proof -
    have "\<lfloor>x\<rfloor> \<le> int d" using x(2) by (simp add: floor_le_iff)
    moreover have "int d \<le> 2 ^ 64 - 1" using assms(2) by simp
    ultimately have "\<lfloor>x\<rfloor> \<le> 2 ^ 64 - 1" by (rule order_trans)
    then show ?thesis by (simp only: f64_to_u64.simps min.absorb2)
  qed
  finally have j: "fst (jitter env d w) = nat \<lfloor>x\<rfloor>" .
  have "int d div 2 = \<lfloor>of_int (int d) / (of_int 2 :: rat)\<rfloor>" by (rule floor_divide_of_int_eq [symmetric])
  also have "\<dots> \<le> \<lfloor>x\<rfloor>" using x(1) by (intro floor_mono) simp
  finally have "int (d div 2) \<le> \<lfloor>x\<rfloor>" by (simp add: zdiv_int)
  moreover have "\<lfloor>x\<rfloor> \<le> int d" using x(2) by (simp add: floor_le_iff)
  ultimately show ?thesis unfolding j by linarith
qed

text \<open>The longest total wait of a loop with \<open>n\<close> attempts left.\<close>

fun backoff_total :: "u64 \<Rightarrow> nat \<Rightarrow> u64 \<Rightarrow> nat" where
  "backoff_total max_delay 0 delay = 0"
| "backoff_total max_delay (Suc n) delay =
     (if n = 0 then 0 else delay + backoff_total max_delay n (min (delay * 2) max_delay))"

definition sleep_meter :: "'w env \<Rightarrow> ('w \<Rightarrow> nat) \<Rightarrow> bool" where
  "sleep_meter env \<mu> \<longleftrightarrow> (\<forall>w. \<mu> (snd (env_random env w)) = \<mu> w) \<and> (\<forall>ms w. \<mu> (env_sleep env ms w) = \<mu> w + ms)"

lemma sleep_meter_sleep: "sleep_meter env \<mu> \<Longrightarrow> \<mu> (sleep_ms env d w) = \<mu> w + d"
  by (simp add: sleep_meter_def sleep_ms_def)

lemma sleep_meter_jitter: "sleep_meter env \<mu> \<Longrightarrow> \<mu> (snd (jitter env d w)) = \<mu> w"
  by (cases "env_random env w") (simp add: sleep_meter_def jitter_def Let_def, metis snd_conv)

lemma retry_loop_sleep:
  assumes m: "sleep_meter env \<mu>" and u: "unit_random env" and f: "\<And>w. \<mu> (snd (f w)) = \<mu> w"
    and cap: "max_delay \<le> 2 ^ 50"
  shows "delay \<le> max_delay \<Longrightarrow>
    \<mu> (snd (retry_loop env retryable f max_delay n delay w)) \<le> \<mu> w + backoff_total max_delay n delay"
proof (induction n arbitrary: delay w)
  case 0
  then show ?case by simp
next
  case (Suc n)
  obtain r w1 where fw: "f w = (r, w1)" by (cases "f w")
  obtain d w2 where j: "jitter env delay w1 = (d, w2)" by (cases "jitter env delay w1")
  have "d \<le> delay" using jitter_bounds [OF u, of delay w1] Suc.prems cap j by simp
  moreover have "\<mu> w2 = \<mu> w" using sleep_meter_jitter [OF m, of delay w1] f [of w] fw j by simp
  ultimately have w3: "\<mu> (sleep_ms env d w2) \<le> \<mu> w + delay" by (simp add: sleep_meter_sleep [OF m])
  have w1: "\<mu> w1 = \<mu> w" using f [of w] fw by simp
  show ?case
    using Suc.IH [of "min (delay * 2) max_delay" "sleep_ms env d w2"] w1 w3 fw j
    by (auto simp: Let_def split: outcome.splits)
qed

lemma retry_calls:
  assumes "quiet env \<mu>" and "\<And>w. \<mu> (snd (f w)) \<le> \<mu> w + c"
  shows "\<mu> (snd (retry_with_backoff env retryable f n b m w)) \<le> \<mu> w + n * c"
  using retry_loop_calls [OF assms] by (auto simp: retry_with_backoff_def)

lemma retry_sleep:
  assumes "sleep_meter env \<mu>" and "unit_random env" and "\<And>w. \<mu> (snd (f w)) = \<mu> w" and "m \<le> 2 ^ 50"
  shows "\<mu> (snd (retry_with_backoff env retryable f n b m w)) \<le> \<mu> w + backoff_total m n (min b m)"
  using retry_loop_sleep [OF assms(1,2,3,4)] by (simp add: retry_with_backoff_def)

section \<open>Properties\<close>

text \<open>
  C40: A retry loop calls its operation at most \<open>max_attempts\<close> times: no quantity that one call
  raises by at most \<open>c\<close> is raised by more than \<open>max_attempts * c\<close>.
\<close>

theorem retry_attempts_bounded:
  assumes "quiet env \<mu>" and "\<And>w. \<mu> (snd (f w)) \<le> \<mu> w + c"
  shows "\<mu> (snd (retry_with_backoff env retryable f max_attempts base cap w)) \<le> \<mu> w + max_attempts * c"
  using assms by (rule retry_calls)

definition counter_env :: "(nat \<times> nat) env" where
  "counter_env = \<lparr>env_system = (\<lambda>w. (0, w)), env_instant = (\<lambda>w. (0, w)), env_random = (\<lambda>w. (Fin (1 / 2), w)),
     env_sleep = (\<lambda>ms (c, t). (c, t + ms)), env_http = (\<lambda>_ w. (Err [], w))\<rparr>"

lemma counter_env_unit: "unit_random counter_env"
  by (auto simp: unit_random_def counter_env_def intro!: exI [of _ "1 / 2"])

definition counter_call :: "nat \<times> nat \<Rightarrow> (string, unit) outcome \<times> (nat \<times> nat)" where
  "counter_call w = (Err ''down'', (Suc (fst w), snd w))"

theorem retry_attempts_bounded_witness:
  "fst (snd (retry_with_backoff counter_env (\<lambda>_. True) counter_call 3 100 30000 (0, 0))) \<le> 0 + 3 * 1"
proof -
  have "quiet counter_env fst" by (auto simp: quiet_def counter_env_def split: prod.splits)
  from retry_attempts_bounded [OF this, of counter_call 1 "\<lambda>_. True" 3 100 30000 "(0, 0)"]
  show ?thesis by (simp add: counter_call_def)
qed

text \<open>
  The waiting time of a retry loop is bounded by the doubling schedule under its cap,
  because jitter only shortens a delay.
\<close>

theorem retry_sleep_bounded:
  assumes "sleep_meter env \<mu>" and "unit_random env" and "\<And>w. \<mu> (snd (f w)) = \<mu> w"
    and "max_delay \<le> 2 ^ 50"
  shows "\<mu> (snd (retry_with_backoff env retryable f n base max_delay w))
    \<le> \<mu> w + backoff_total max_delay n (min base max_delay)"
  using assms by (rule retry_sleep)

theorem retry_sleep_bounded_witness:
  "snd (snd (retry_with_backoff counter_env (\<lambda>_. True) counter_call 3 100 30000 (0, 0))) \<le> 300"
proof -
  have "sleep_meter counter_env snd" by (auto simp: sleep_meter_def counter_env_def split: prod.splits)
  moreover note counter_env_unit
  ultimately have "snd (snd (retry_with_backoff counter_env (\<lambda>_. True) counter_call 3 100 30000 (0, 0)))
      \<le> snd (0 :: nat, 0 :: nat) + backoff_total 30000 3 (min 100 30000)"
    by (rule retry_sleep_bounded) (simp_all add: counter_call_def)
  then show ?thesis by (simp add: numeral_3_eq_3)
qed

text \<open>
  A jittered delay stays between half of the delay and the delay itself.
\<close>

theorem jitter_within_half:
  assumes "unit_random env" and "d \<le> 2 ^ 50"
  shows "d div 2 \<le> fst (jitter env d w) \<and> fst (jitter env d w) \<le> d"
  using assms by (rule jitter_bounds)

theorem jitter_within_half_witness:
  "500 div 2 \<le> fst (jitter counter_env 500 (0, 0)) \<and> fst (jitter counter_env 500 (0, 0)) \<le> 500"
  by (rule jitter_within_half [OF counter_env_unit]) simp

end
