(* ===== verification/Oracle_Rpc.thy ===== *)
theory Oracle_Rpc
  imports Oracle_Effects
begin

text \<open>
  The Stellar RPC and Horizon clients (\<^verbatim>\<open>stellar_rpc.rs\<close>), the keeper balance check
  (\<^verbatim>\<open>keeper.rs\<close>) and transaction submission (\<^verbatim>\<open>submit.rs\<close>). JSON, XDR, strkeys and the
  formatting of floating-point numbers are library code and a parameter, \<open>codec\<close>; bytes are a
  \<^typ>\<open>string\<close>.
\<close>

section \<open>Errors\<close>

datatype rpc_error =
    RpcNetwork string
  | UnfundedAccount string
  | RpcHttp u16 string
  | RpcJson string
  | RpcFault i64 string
  | BalanceBelowMinimum i64 f64 f64

fun rpc_retryable :: "rpc_error \<Rightarrow> bool" where
  "rpc_retryable (RpcNetwork _) = True"
| "rpc_retryable (RpcHttp status _) = (500 \<le> status \<or> status = 429)"
| "rpc_retryable (RpcJson _) = False"
| "rpc_retryable (RpcFault _ _) = False"
| "rpc_retryable (BalanceBelowMinimum _ _ _) = False"
| "rpc_retryable (UnfundedAccount _) = False"

fun rpc_error_message :: "(f64 \<Rightarrow> string) \<Rightarrow> rpc_error \<Rightarrow> string" where
  "rpc_error_message fmt (RpcNetwork msg) = ''network error: '' @ msg"
| "rpc_error_message fmt (RpcHttp status body) =
     (if body = '''' then ''HTTP '' @ nat_digits status
      else ''HTTP '' @ nat_digits status @ '': '' @ body)"
| "rpc_error_message fmt (RpcJson msg) = ''JSON parse error: '' @ msg"
| "rpc_error_message fmt (UnfundedAccount msg) = ''unfunded account: '' @ msg"
| "rpc_error_message fmt (RpcFault code message) = ''RPC fault '' @ int_digits code @ '': '' @ message"
| "rpc_error_message fmt (BalanceBelowMinimum _ balance_xlm min_xlm) =
     ''balance '' @ fmt balance_xlm @ '' XLM is below minimum '' @ fmt min_xlm @ '' XLM''"

section \<open>Wire data\<close>

record rpc_fault =
  fault_code :: i64
  fault_message :: string

record 'a rpc_response =
  resp_result :: "'a option"
  resp_error :: "rpc_fault option"

datatype rpc_params = NoParams | KeysParam "string list" | TransactionParam string | HashParam string

datatype ledger_entry = AccountEntry i64 | OtherEntry

record horizon_balance =
  hb_asset_type :: string
  hb_balance :: string

record send_result =
  sr_status :: string
  sr_hash :: string
  sr_error_result_xdr :: "string option"

record get_result =
  gr_status :: string
  gr_ledger :: "u32 option"
  gr_events :: "string list option"

record codec =
  cd_request :: "string \<Rightarrow> rpc_params \<Rightarrow> (string, string) outcome"
  cd_latest_ledger :: "string \<Rightarrow> (string, u32 rpc_response) outcome"
  cd_ledger_entries :: "string \<Rightarrow> (string, string list rpc_response) outcome"
  cd_horizon :: "string \<Rightarrow> (string, horizon_balance list) outcome"
  cd_send :: "string \<Rightarrow> (string, send_result rpc_response) outcome"
  cd_get :: "string \<Rightarrow> (string, get_result rpc_response) outcome"
  cd_public_key :: "string \<Rightarrow> (string, string) outcome"
  cd_ledger_key :: "string \<Rightarrow> (string, string) outcome"
  cd_ledger_entry :: "string \<Rightarrow> (string, ledger_entry) outcome"
  cd_is_tx_bad_seq :: "string \<Rightarrow> bool option"
  cd_float :: "f64 \<Rightarrow> string"
  cd_debug_strings :: "string list \<Rightarrow> string"

text \<open>The \<^verbatim>\<open>error\<close> field of a response wins over its \<^verbatim>\<open>result\<close>; one of them must be there.\<close>

definition rpc_result :: "'a rpc_response \<Rightarrow> (rpc_error, 'a) outcome" where
  "rpc_result resp =
     (case resp_error resp of
        Some fault \<Rightarrow> Err (RpcFault (fault_code fault) (fault_message fault))
      | None \<Rightarrow> or_err (RpcJson ''missing 'result' field'') (resp_result resp))"

section \<open>The RPC client\<close>

definition rpc_post :: "'w env \<Rightarrow> string \<Rightarrow> string \<Rightarrow> ('w, rpc_error, string) action" where
  "rpc_post env rpc_url payload w =
     (case http_get env \<lparr>rq_url = rpc_url, rq_query = [], rq_bearer = None, rq_body = Some payload\<rparr> w of
        (r, w') \<Rightarrow>
          (bind_outcome (map_err RpcNetwork r) (\<lambda>(status, body).
             if status \<noteq> 200 then Err (RpcHttp status (truncate_error_body body)) else Ok body), w'))"

definition parse_latest_ledger_response :: "codec \<Rightarrow> string \<Rightarrow> (rpc_error, u32) outcome" where
  "parse_latest_ledger_response cd body =
     bind_outcome (map_err RpcJson (cd_latest_ledger cd body)) rpc_result"

definition get_latest_ledger_sequence ::
  "'w env \<Rightarrow> codec \<Rightarrow> string \<Rightarrow> ('w, rpc_error, u32) action" where
  "get_latest_ledger_sequence env cd rpc_url =
     bind_action (return_action (map_err RpcJson (cd_request cd ''getLatestLedger'' NoParams)))
       (\<lambda>payload. bind_action (rpc_post env rpc_url payload)
       (\<lambda>body. return_action (parse_latest_ledger_response cd body)))"

definition account_ledger_key_xdr :: "codec \<Rightarrow> string \<Rightarrow> (rpc_error, string) outcome" where
  "account_ledger_key_xdr cd account_id =
     bind_outcome (map_err (\<lambda>e. RpcJson (''invalid account id '' @ [char_of (39 :: nat)] @ account_id
         @ [char_of (39 :: nat)] @ '': '' @ e)) (cd_public_key cd account_id)) (\<lambda>bytes.
       map_err (\<lambda>e. RpcJson (''failed to encode account ledger key: '' @ e)) (cd_ledger_key cd bytes))"

definition parse_account_sequence_response :: "codec \<Rightarrow> string \<Rightarrow> (rpc_error, u64) outcome" where
  "parse_account_sequence_response cd body =
     bind_outcome (map_err RpcJson (cd_ledger_entries cd body)) (\<lambda>resp.
     bind_outcome (rpc_result resp) (\<lambda>entries.
     bind_outcome (or_err (RpcJson ''account ledger entry not found'')
         (case entries of [] \<Rightarrow> None | e # _ \<Rightarrow> Some e)) (\<lambda>xdr.
     bind_outcome (map_err (\<lambda>e. RpcJson (''invalid ledger entry XDR: '' @ e)) (cd_ledger_entry cd xdr))
       (\<lambda>data.
       case data of
         AccountEntry seq_num \<Rightarrow>
           (if seq_num < 0
            then Err (RpcJson (''account sequence number '' @ int_digits seq_num @ '' is negative''))
            else Ok (saturate_u64 (nat seq_num + 1)))
       | OtherEntry \<Rightarrow> Err (RpcJson ''ledger entry is not an account'')))))"

definition get_account_sequence_rpc ::
  "'w env \<Rightarrow> codec \<Rightarrow> string \<Rightarrow> string \<Rightarrow> ('w, rpc_error, u64) action" where
  "get_account_sequence_rpc env cd rpc_url account_id =
     bind_action (return_action (account_ledger_key_xdr cd account_id)) (\<lambda>key.
     bind_action (return_action (map_err RpcJson (cd_request cd ''getLedgerEntries'' (KeysParam [key]))))
       (\<lambda>payload. bind_action (rpc_post env rpc_url payload)
       (\<lambda>body. return_action (parse_account_sequence_response cd body))))"

section \<open>The Horizon client\<close>

definition STROOPS_PER_XLM :: i64 where "STROOPS_PER_XLM = 10000000"
definition HORIZON_XLM_DECIMALS :: nat where "HORIZON_XLM_DECIMALS = 7"

text \<open>\<^verbatim>\<open>split_once(c)\<close>.\<close>

definition split_once :: "char \<Rightarrow> string \<Rightarrow> (string \<times> string) option" where
  "split_once c s =
     (if c \<in> set s then Some (takeWhile (\<lambda>x. x \<noteq> c) s, tl (dropWhile (\<lambda>x. x \<noteq> c) s)) else None)"

definition fraction_stroops :: "string \<Rightarrow> i64" where
  "fraction_stroops fraction =
     foldl (\<lambda>acc position.
       acc * 10 + int (digit_val (if position < length fraction then fraction ! position else CHR ''0'')))
       0 [0..<HORIZON_XLM_DECIMALS]"

definition parse_xlm_balance_to_stroops :: "string \<Rightarrow> (rpc_error, i64) outcome" where
  "parse_xlm_balance_to_stroops raw =
     (let unparseable = RpcJson (''unparseable balance: '' @ raw);
          balance = trim raw;
          (whole, fraction) = (case split_once (CHR ''.'') balance of
                                 Some p \<Rightarrow> p | None \<Rightarrow> (balance, ''''))
      in if whole = '''' \<or> \<not> list_all is_digit whole \<or> \<not> list_all is_digit fraction
         then Err unparseable
         else bind_outcome (or_err unparseable (parse_i64 whole)) (\<lambda>w.
              bind_outcome (or_err unparseable (checked_i64 (w * STROOPS_PER_XLM))) (\<lambda>stroops.
                or_err unparseable (checked_i64 (stroops + fraction_stroops fraction)))))"

definition parse_account_balance_response :: "codec \<Rightarrow> string \<Rightarrow> (rpc_error, i64) outcome" where
  "parse_account_balance_response cd body =
     bind_outcome (map_err RpcJson (cd_horizon cd body)) (\<lambda>balances.
     bind_outcome (or_err (RpcJson ''no native balance entry'')
         (find (\<lambda>b. hb_asset_type b = ''native'') balances)) (\<lambda>native.
       parse_xlm_balance_to_stroops (hb_balance native)))"

definition get_account_balance_stroops ::
  "'w env \<Rightarrow> codec \<Rightarrow> string \<Rightarrow> string \<Rightarrow> ('w, rpc_error, i64) action" where
  "get_account_balance_stroops env cd horizon_url account_id w =
     (case http_get env \<lparr>rq_url = horizon_url @ ''/accounts/'' @ account_id, rq_query = [],
                         rq_bearer = None, rq_body = None\<rparr> w of
        (r, w') \<Rightarrow>
          (bind_outcome (map_err RpcNetwork r) (\<lambda>(status, body).
             if status = 404 then Err (UnfundedAccount account_id)
             else if status \<noteq> 200 then Err (RpcHttp status (truncate_error_body body))
             else parse_account_balance_response cd body), w'))"

section \<open>The keeper balance (\<^verbatim>\<open>keeper.rs\<close>)\<close>

definition XLM_IN_STROOPS :: i64 where "XLM_IN_STROOPS = 10000000"

record keeper_balance_config =
  kb_horizon_url :: string
  kb_account_id :: string
  kb_min_balance_xlm :: f64

definition spendable_xlm :: "i64 \<Rightarrow> f64" where
  "spendable_xlm stroops =
     f64_sub (f64_div (f64_of_int stroops) (f64_of_int XLM_IN_STROOPS)) (Fin 1)"

text \<open>The shared flag \<^verbatim>\<open>below_min\<close> is threaded through: its new value comes first.\<close>

definition check_keeper_balance ::
  "'w env \<Rightarrow> codec \<Rightarrow> keeper_balance_config \<Rightarrow> bool \<Rightarrow> 'w \<Rightarrow> (bool \<times> (rpc_error, i64) outcome) \<times> 'w" where
  "check_keeper_balance env cd cfg below_min w =
     (case get_account_balance_stroops env cd (kb_horizon_url cfg) (kb_account_id cfg) w of
        (Ok stroops, w') \<Rightarrow>
          if f64_lt (spendable_xlm stroops) (kb_min_balance_xlm cfg)
          then ((True, Err (BalanceBelowMinimum stroops (spendable_xlm stroops) (kb_min_balance_xlm cfg))), w')
          else ((False, Ok stroops), w')
      | (Err e, w') \<Rightarrow> ((below_min, Err e), w')
      | (Panic, w') \<Rightarrow> ((below_min, Panic), w'))"

record balance_response =
  br_account_id :: string
  br_balance_stroops :: i64
  br_balance_xlm :: f64
  br_below_minimum :: bool
  br_min_balance_xlm :: f64

definition build_balance_response :: "keeper_balance_config \<Rightarrow> i64 \<Rightarrow> balance_response" where
  "build_balance_response cfg stroops =
     \<lparr>br_account_id = kb_account_id cfg, br_balance_stroops = stroops,
      br_balance_xlm = spendable_xlm stroops,
      br_below_minimum = f64_lt (spendable_xlm stroops) (kb_min_balance_xlm cfg),
      br_min_balance_xlm = kb_min_balance_xlm cfg\<rparr>"

section \<open>Submission (\<^verbatim>\<open>submit.rs\<close>)\<close>

datatype submit_error =
    SubmitRpc rpc_error
  | SubmitJson string
  | Rejected string "string option"
  | SubmitRetryable string
  | TransactionFailed "string list"
  | PollTimeout string

definition MAX_POLL_ATTEMPTS :: nat where "MAX_POLL_ATTEMPTS = 6"
definition MAX_BACKOFF_MS :: u64 where "MAX_BACKOFF_MS = 16000"
definition INITIAL_BACKOFF_MS :: u64 where "INITIAL_BACKOFF_MS = 1000"
definition SEND_TRANSACTION_RETRY_ATTEMPTS :: nat where "SEND_TRANSACTION_RETRY_ATTEMPTS = 3"
definition SEND_TRANSACTION_RETRY_BASE_DELAY_MS :: u64 where "SEND_TRANSACTION_RETRY_BASE_DELAY_MS = 100"
definition MAX_LOGGED_EVENTS :: nat where "MAX_LOGGED_EVENTS = 5"
definition MAX_EVENT_PREVIEW_LEN :: nat where "MAX_EVENT_PREVIEW_LEN = 128"

fun submit_error_message :: "codec \<Rightarrow> submit_error \<Rightarrow> string" where
  "submit_error_message cd (SubmitRpc e) = ''RPC error: '' @ rpc_error_message (cd_float cd) e"
| "submit_error_message cd (SubmitJson msg) = ''JSON parse error: '' @ msg"
| "submit_error_message cd (Rejected status xdr) =
     ''transaction rejected: '' @ status
       @ (case xdr of None \<Rightarrow> '''' | Some x \<Rightarrow> '' (errorResultXdr: '' @ x @ '')'')"
| "submit_error_message cd (SubmitRetryable msg) = ''retryable: '' @ msg"
| "submit_error_message cd (TransactionFailed events) =
     ''transaction failed on-chain; diagnostic events: '' @ cd_debug_strings cd events"
| "submit_error_message cd (PollTimeout hash) =
     ''transaction not confirmed after '' @ nat_digits MAX_POLL_ATTEMPTS @ '' attempts (hash: ''
       @ hash @ ''); check status on next cycle''"

fun may_still_confirm :: "submit_error \<Rightarrow> bool" where
  "may_still_confirm (PollTimeout _) = True"
| "may_still_confirm _ = False"

fun diagnostic_events :: "submit_error \<Rightarrow> string list" where
  "diagnostic_events (TransactionFailed events) = events"
| "diagnostic_events _ = []"

text \<open>
  Slicing a string at a byte that is not a character boundary panics: the byte there
  continues a character when its two top bits are \<open>10\<close>.
\<close>

definition continuation_byte :: "char \<Rightarrow> bool" where
  "continuation_byte c \<longleftrightarrow> 128 \<le> (of_char c :: nat) \<and> (of_char c :: nat) < 192"

definition slice_to :: "string \<Rightarrow> nat \<Rightarrow> string option" where
  "slice_to s n =
     (if n < length s \<and> \<not> continuation_byte (s ! n) then Some (take n s)
      else if n = length s then Some s else None)"

definition ellipsis :: string where
  "ellipsis = [char_of (226 :: nat), char_of (128 :: nat), char_of (166 :: nat)]"

definition truncate_event :: "string \<Rightarrow> string option" where
  "truncate_event e =
     (if MAX_EVENT_PREVIEW_LEN < length e
      then map_option (\<lambda>p. p @ ellipsis) (slice_to e MAX_EVENT_PREVIEW_LEN) else Some e)"

definition truncate_events_for_log :: "string list \<Rightarrow> string list option" where
  "truncate_events_for_log events = those (map truncate_event (take MAX_LOGGED_EVENTS events))"

definition parse_send_response :: "codec \<Rightarrow> string \<Rightarrow> (submit_error, send_result) outcome" where
  "parse_send_response cd body =
     bind_outcome (map_err SubmitJson (cd_send cd body)) (\<lambda>resp.
       case resp_error resp of
         Some fault \<Rightarrow> Err (SubmitRpc (RpcFault (fault_code fault) (fault_message fault)))
       | None \<Rightarrow> or_err (SubmitJson ''missing 'result' field'') (resp_result resp))"

definition parse_get_transaction_response :: "codec \<Rightarrow> string \<Rightarrow> (submit_error, get_result) outcome" where
  "parse_get_transaction_response cd body =
     bind_outcome (map_err SubmitJson (cd_get cd body)) (\<lambda>resp.
       case resp_error resp of
         Some fault \<Rightarrow> Err (SubmitRpc (RpcFault (fault_code fault) (fault_message fault)))
       | None \<Rightarrow> or_err (SubmitJson ''missing 'result' field'') (resp_result resp))"

definition send_status :: "send_result \<Rightarrow> (submit_error, string) outcome" where
  "send_status result =
     (if sr_status result = ''PENDING'' then Ok (sr_hash result)
      else if sr_status result = ''DUPLICATE'' then Ok (sr_hash result)
      else if sr_status result = ''TRY_AGAIN_LATER''
      then Err (SubmitRetryable (''sendTransaction returned TRY_AGAIN_LATER for hash '' @ sr_hash result))
      else Err (Rejected (sr_status result) (sr_error_result_xdr result)))"

definition send_transaction_xdr ::
  "'w env \<Rightarrow> codec \<Rightarrow> string \<Rightarrow> string \<Rightarrow> ('w, submit_error, string) action" where
  "send_transaction_xdr env cd rpc_url signed_xdr =
     bind_action (return_action (map_err SubmitJson
         (cd_request cd ''sendTransaction'' (TransactionParam signed_xdr)))) (\<lambda>payload.
     bind_action (map_err_action SubmitRpc
         (retry_with_backoff env rpc_retryable (rpc_post env rpc_url payload)
            SEND_TRANSACTION_RETRY_ATTEMPTS SEND_TRANSACTION_RETRY_BASE_DELAY_MS MAX_BACKOFF_DELAY_MS))
       (\<lambda>body. bind_action (return_action (parse_send_response cd body))
       (\<lambda>result. return_action (send_status result))))"

text \<open>What one poll decides: the transaction's fate, or to wait with the next delay.\<close>

datatype poll_step = PollDone "(submit_error, u32) outcome" | PollWait u64 u64

definition poll_status :: "get_result \<Rightarrow> u64 \<Rightarrow> poll_step" where
  "poll_status result backoff_ms =
     (if gr_status result = ''SUCCESS''
      then PollDone (Ok (case gr_ledger result of None \<Rightarrow> 0 | Some l \<Rightarrow> l))
      else if gr_status result = ''FAILED''
      then let events = (case gr_events result of None \<Rightarrow> [] | Some es \<Rightarrow> es)
           in (case truncate_events_for_log events of
                 None \<Rightarrow> PollDone Panic
               | Some _ \<Rightarrow> PollDone (Err (TransactionFailed events)))
      else PollWait backoff_ms (min (backoff_ms * 2) MAX_BACKOFF_MS))"

definition poll_once ::
  "'w env \<Rightarrow> codec \<Rightarrow> string \<Rightarrow> string \<Rightarrow> u64 \<Rightarrow> 'w \<Rightarrow> poll_step \<times> 'w" where
  "poll_once env cd rpc_url hash backoff_ms w =
     (case cd_request cd ''getTransaction'' (HashParam hash) of
        Err e \<Rightarrow> (PollDone (Err (SubmitJson e)), w)
      | Panic \<Rightarrow> (PollDone Panic, w)
      | Ok payload \<Rightarrow>
          (case rpc_post env rpc_url payload w of
             (Ok body, w1) \<Rightarrow>
               (case parse_get_transaction_response cd body of
                  Ok result \<Rightarrow> (poll_status result backoff_ms, w1)
                | Err e \<Rightarrow> (PollDone (Err e), w1)
                | Panic \<Rightarrow> (PollDone Panic, w1))
           | (Err rpc_err, w1) \<Rightarrow>
               if rpc_retryable rpc_err
               then (case jitter env backoff_ms w1 of (d, w2) \<Rightarrow>
                       (PollWait d (min (backoff_ms * 2) MAX_BACKOFF_DELAY_MS), w2))
               else (PollDone (Err (SubmitRpc rpc_err)), w1)
           | (Panic, w1) \<Rightarrow> (PollDone Panic, w1)))"

fun poll_loop ::
  "'w env \<Rightarrow> codec \<Rightarrow> string \<Rightarrow> string \<Rightarrow> nat \<Rightarrow> u64 \<Rightarrow> ('w, submit_error, u32) action" where
  "poll_loop env cd rpc_url hash 0 backoff_ms w = (Err (PollTimeout hash), w)"
| "poll_loop env cd rpc_url hash (Suc n) backoff_ms w =
     (case poll_once env cd rpc_url hash backoff_ms w of
        (PollDone r, w1) \<Rightarrow> (r, w1)
      | (PollWait d backoff', w1) \<Rightarrow> poll_loop env cd rpc_url hash n backoff' (env_sleep env d w1))"

definition poll_until_confirmed ::
  "'w env \<Rightarrow> codec \<Rightarrow> string \<Rightarrow> string \<Rightarrow> ('w, submit_error, u32) action" where
  "poll_until_confirmed env cd rpc_url hash =
     poll_loop env cd rpc_url hash MAX_POLL_ATTEMPTS INITIAL_BACKOFF_MS"

definition submit_and_poll ::
  "'w env \<Rightarrow> codec \<Rightarrow> string \<Rightarrow> string \<Rightarrow> ('w, submit_error, u32) action" where
  "submit_and_poll env cd rpc_url signed_xdr =
     bind_action (send_transaction_xdr env cd rpc_url signed_xdr)
       (\<lambda>hash. poll_until_confirmed env cd rpc_url hash)"

section \<open>Balances are exact\<close>

lemma fraction_stroops_eq: "fraction_stroops f = int (digits_val (pad_digits 7 f))"
proof -
  let ?g = "f @ replicate 7 (CHR ''0'')"
  have "foldl (\<lambda>acc i. acc * 10 + int (digit_val (if i < length f then f ! i else CHR ''0''))) 0 [0..<n]
      = int (digits_val (take n ?g))" if "n \<le> 7" for n
    using that
  proof (induction n)
    case 0
    then show ?case by simp
  next
    case (Suc n)
    have "(if n < length f then f ! n else CHR ''0'') = ?g ! n"
      using Suc.prems by (auto simp: nth_append)
    moreover have "digits_val (take (Suc n) ?g) = 10 * digits_val (take n ?g) + digit_val (?g ! n)"
      using Suc.prems by (subst take_Suc_conv_app_nth) (simp_all del: take_append)
    ultimately show ?case using Suc by (simp del: take_append)
  qed
  from this [of 7] show ?thesis
    by (simp only: fraction_stroops_def HORIZON_XLM_DECIMALS_def pad_digits_def order.refl)
qed

lemma fraction_stroops_nonneg: "0 \<le> fraction_stroops f"
  by (simp add: fraction_stroops_eq)

lemma split_once_dot:
  assumes "CHR ''.'' \<notin> set w"
  shows "split_once (CHR ''.'') (w @ CHR ''.'' # f) = Some (w, f)"
proof -
  have "takeWhile (\<lambda>x. x \<noteq> CHR ''.'') w = w" "dropWhile (\<lambda>x. x \<noteq> CHR ''.'') w = []"
    using assms by (auto simp: takeWhile_eq_all_conv dropWhile_eq_Nil_conv)
  then show ?thesis using assms by (simp add: split_once_def takeWhile_append dropWhile_append)
qed

lemma parse_balance_eq:
  assumes w: "list_all is_digit w" "w \<noteq> ''''" and f: "list_all is_digit f"
  shows "parse_xlm_balance_to_stroops (w @ CHR ''.'' # f) =
    or_err (RpcJson (''unparseable balance: '' @ w @ CHR ''.'' # f))
      (checked_i64 (int (digits_val w) * 10 ^ 7 + fraction_stroops f))"
proof -
  have p: "parse_i64 w = checked_i64 (int (digits_val w))"
    using w by (simp add: parse_i64_def parse_int_digits)
  have "in_i64 (int (digits_val w) * 10 ^ 7 + fraction_stroops f) \<Longrightarrow>
      in_i64 (int (digits_val w)) \<and> in_i64 (int (digits_val w) * 10 ^ 7)"
    using fraction_stroops_nonneg [of f] by (simp add: int_ops)
  then show ?thesis
    using w f digits_no_dot [OF w(1)]
    by (auto simp: parse_xlm_balance_to_stroops_def trim_decimal split_once_dot Let_def p
        checked_i64_def STROOPS_PER_XLM_def)
qed

lemma parse_render_stroops:
  assumes "0 \<le> s" and "in_i64 s"
  shows "parse_xlm_balance_to_stroops (decimal 7 (nat s)) = Ok s"
proof -
  let ?q = "nat s div 10 ^ 7" and ?r = "nat s mod 10 ^ 7"
  have r: "?r < 10 ^ 7" "(0 :: nat) < 7" by simp_all
  note f = fixed_digits_props [OF r]
  have "?q * 10 ^ 7 + ?r = nat s" by simp
  then have "int (?q * 10 ^ 7 + ?r) = s" using assms(1) by (simp only: int_nat_eq if_True)
  then have "int ?q * 10 ^ 7 + int ?r = s"
    by (simp only: of_nat_add of_nat_mult of_nat_power of_nat_numeral)
  then have "int (digits_val (nat_digits ?q)) * 10 ^ 7 + fraction_stroops (fixed_digits 7 ?r) = s"
    by (simp only: fraction_stroops_eq pad_digits_id [OF f(1)] f(3) digits_val_nat_digits)
  then show ?thesis
    using parse_balance_eq [OF nat_digits_digits nat_digits_nonempty f(2), of ?q] assms(2)
    by (simp only: decimal_def checked_i64_def if_True or_err_simps)
qed

lemma parse_balance_truncates:
  assumes w: "list_all is_digit w" "w \<noteq> ''''" and f: "list_all is_digit f"
    and ok: "parse_xlm_balance_to_stroops (w @ CHR ''.'' # f) = Ok s"
  shows "s * 10 ^ length f \<le> int (digits_val (w @ f)) * 10 ^ 7 \<and>
         int (digits_val (w @ f)) * 10 ^ 7 < (s + 1) * 10 ^ length f"
proof -
  let ?t = "digits_val (pad_digits 7 f)"
  have s: "s = int (digits_val w * 10 ^ 7 + ?t)"
    using ok unfolding parse_balance_eq [OF w f] by (auto simp: or_err_Ok_iff checked_i64_Some_iff fraction_stroops_eq)
  have b: "?t * 10 ^ length f \<le> digits_val f * 10 ^ 7" "digits_val f * 10 ^ 7 < (?t + 1) * 10 ^ length f"
    using pad_digits_bounds [OF f, of 7] by simp_all
  have "(digits_val w * 10 ^ 7 + ?t) * 10 ^ length f \<le> digits_val (w @ f) * 10 ^ 7"
    and "digits_val (w @ f) * 10 ^ 7 < (digits_val w * 10 ^ 7 + ?t + 1) * 10 ^ length f"
    using b unfolding digits_val_append by (simp_all add: algebra_simps)
  then have "int ((digits_val w * 10 ^ 7 + ?t) * 10 ^ length f) \<le> int (digits_val (w @ f) * 10 ^ 7)"
    and "int (digits_val (w @ f) * 10 ^ 7) < int ((digits_val w * 10 ^ 7 + ?t + 1) * 10 ^ length f)"
    by (simp_all only: of_nat_le_iff of_nat_less_iff)
  then show ?thesis unfolding s by (simp add: algebra_simps)
qed

end
