(* ===== verification/Oracle_Submit_Spec.thy ===== *)
theory Oracle_Submit_Spec
  imports Oracle_Rpc
begin

text \<open>
  What the clients of \<^verbatim>\<open>stellar_rpc.rs\<close>, \<^verbatim>\<open>keeper.rs\<close> and \<^verbatim>\<open>submit.rs\<close> may rely on: exact
  balances, a bounded number of requests and a bounded wait per submission, and what each
  outcome of a submission says about the transaction.
\<close>

section \<open>Requests and waiting\<close>

text \<open>A quantity of the world that every HTTP request raises by at most \<open>c\<close>.\<close>

definition http_cost :: "'w env \<Rightarrow> ('w \<Rightarrow> nat) \<Rightarrow> nat \<Rightarrow> bool" where
  "http_cost env \<mu> c \<longleftrightarrow> (\<forall>rq w. \<mu> (snd (env_http env rq w)) \<le> \<mu> w + c)"

lemma http_get_cost:
  assumes "http_cost env \<mu> c"
  shows "\<mu> (snd (http_get env rq w)) \<le> \<mu> w + c"
proof -
  obtain r w' where r: "env_http env rq w = (r, w')" by (cases "env_http env rq w")
  moreover have "\<mu> w' \<le> \<mu> w + c" using assms r unfolding http_cost_def by (metis snd_conv)
  ultimately show ?thesis by (cases r) (auto simp: http_get_def)
qed

lemma rpc_post_cost:
  assumes "http_cost env \<mu> c"
  shows "\<mu> (snd (rpc_post env url payload w)) \<le> \<mu> w + c"
  using http_get_cost [OF assms] unfolding rpc_post_def by (simp add: case_prod_beta)

lemma snd_return_action [simp]: "snd (return_action r w) = w"
  by (simp add: return_action_def)

lemma snd_map_err_action [simp]: "snd (map_err_action g m w) = snd (m w)"
  by (simp add: map_err_action_def case_prod_beta)

lemma fst_map_err_action [simp]: "fst (map_err_action g m w) = map_err g (fst (m w))"
  by (simp add: map_err_action_def case_prod_beta)

lemma bind_action_cost:
  fixes \<mu> :: "'w \<Rightarrow> nat"
  assumes m: "\<mu> (snd (m w)) \<le> \<mu> w + c" and f: "\<And>a w. \<mu> (snd (f a w)) \<le> \<mu> w + d"
  shows "\<mu> (snd (bind_action m f w)) \<le> \<mu> w + (c + d)"
proof -
  obtain r w' where r: "m w = (r, w')" by (cases "m w")
  have w': "\<mu> w' \<le> \<mu> w + c" using m by (simp only: r snd_conv)
  show ?thesis
  proof (cases r)
    case (Ok a)
    have "\<mu> (snd (f a w')) \<le> \<mu> w' + d" by (rule f)
    then show ?thesis using w' by (simp only: bind_action_def r Ok prod.case outcome.case)
  qed (use w' in \<open>simp_all only: bind_action_def r prod.case outcome.case snd_conv\<close>)
qed

text \<open>Sending: one retried request between two pure steps.\<close>

definition send_request :: "'w env \<Rightarrow> string \<Rightarrow> string \<Rightarrow> ('w, submit_error, string) action" where
  "send_request env url payload =
     map_err_action SubmitRpc (retry_with_backoff env rpc_retryable (rpc_post env url payload)
       SEND_TRANSACTION_RETRY_ATTEMPTS SEND_TRANSACTION_RETRY_BASE_DELAY_MS MAX_BACKOFF_DELAY_MS)"

lemma send_budget:
  fixes \<mu> :: "'w \<Rightarrow> nat"
  assumes "\<And>payload w. \<mu> (snd (send_request env url payload w)) \<le> \<mu> w + c"
  shows "\<mu> (snd (send_transaction_xdr env cd url xdr w)) \<le> \<mu> w + c"
proof -
  have tail: "\<mu> (snd (bind_action (return_action (parse_send_response cd body))
      (\<lambda>result. return_action (send_status result)) w)) \<le> \<mu> w + 0" for body w
    using bind_action_cost [of \<mu> "return_action (parse_send_response cd body)" w 0
        "\<lambda>result. return_action (send_status result)" 0] by simp
  have step: "\<mu> (snd (bind_action (send_request env url payload)
      (\<lambda>body. bind_action (return_action (parse_send_response cd body))
        (\<lambda>result. return_action (send_status result))) w)) \<le> \<mu> w + c" for payload w
    using bind_action_cost [where m = "send_request env url payload" and \<mu> = \<mu> and c = c and d = 0
        and f = "\<lambda>body. bind_action (return_action (parse_send_response cd body))
          (\<lambda>result. return_action (send_status result))", OF assms tail] by simp
  have "\<mu> (snd (bind_action (return_action r) (\<lambda>payload. bind_action (send_request env url payload)
      (\<lambda>body. bind_action (return_action (parse_send_response cd body))
        (\<lambda>result. return_action (send_status result)))) w)) \<le> \<mu> w + (0 + c)" for r
    by (rule bind_action_cost) (simp_all add: step)
  then show ?thesis by (simp only: send_transaction_xdr_def send_request_def add_0)
qed

lemma send_cost:
  assumes "quiet env \<mu>" and "http_cost env \<mu> c"
  shows "\<mu> (snd (send_transaction_xdr env cd url xdr w)) \<le> \<mu> w + 3 * c"
proof (rule send_budget)
  show "\<mu> (snd (send_request env url payload w)) \<le> \<mu> w + 3 * c" for payload w
    unfolding send_request_def snd_map_err_action SEND_TRANSACTION_RETRY_ATTEMPTS_def
    using retry_calls [OF assms(1), of "rpc_post env url payload" c] rpc_post_cost [OF assms(2)] by blast
qed

lemma poll_once_cost:
  assumes "quiet env \<mu>" and "http_cost env \<mu> c"
  shows "\<mu> (snd (poll_once env cd url hash b w)) \<le> \<mu> w + c"
proof -
  have "\<mu> (snd (jitter env b w1)) = \<mu> w1" for w1 by (rule quiet_jitter [OF assms(1)])
  then have j: "jitter env b w1 = (d, w2) \<Longrightarrow> \<mu> w2 = \<mu> w1" for d w1 w2 by (metis snd_conv)
  have p: "rpc_post env url payload w = (r, w1) \<Longrightarrow> \<mu> w1 \<le> \<mu> w + c" for payload r w1
    using rpc_post_cost [OF assms(2), of url payload w] by simp
  show ?thesis
    by (auto simp: poll_once_def j split: outcome.splits prod.splits dest: p)
qed

lemma poll_loop_cost:
  assumes "quiet env \<mu>" and "http_cost env \<mu> c"
  shows "\<mu> (snd (poll_loop env cd url hash n b w)) \<le> \<mu> w + n * c"
proof (induction n arbitrary: b w)
  case (Suc n)
  obtain p w1 where pw: "poll_once env cd url hash b w = (p, w1)" by (cases "poll_once env cd url hash b w")
  then have w1: "\<mu> w1 \<le> \<mu> w + c" using poll_once_cost [OF assms, of cd url hash b w] by simp
  have s: "\<mu> (env_sleep env d w1) = \<mu> w1" for d using assms(1) by (simp add: quiet_def)
  show ?case
  proof (cases p)
    case (PollDone r)
    then show ?thesis using pw w1 by simp
  next
    case (PollWait d b')
    then show ?thesis using Suc.IH [of b' "env_sleep env d w1"] pw w1 s by simp
  qed
qed simp

section \<open>How long a submission waits\<close>

text \<open>The delays of a polling loop with \<open>n\<close> polls left: every poll may be a transient failure.\<close>

fun poll_total :: "nat \<Rightarrow> u64 \<Rightarrow> nat" where
  "poll_total 0 b = 0"
| "poll_total (Suc n) b = b + poll_total n (min (b * 2) MAX_BACKOFF_DELAY_MS)"

lemma poll_total_mono: "a \<le> b \<Longrightarrow> poll_total n a \<le> poll_total n b"
proof (induction n arbitrary: a b)
  case (Suc n)
  have "min (a * 2) MAX_BACKOFF_DELAY_MS \<le> min (b * 2) MAX_BACKOFF_DELAY_MS" using Suc.prems by simp
  then show ?case using Suc by (simp add: add_mono)
qed simp

definition http_instant :: "'w env \<Rightarrow> ('w \<Rightarrow> nat) \<Rightarrow> bool" where
  "http_instant env \<mu> \<longleftrightarrow> (\<forall>rq w. \<mu> (snd (env_http env rq w)) = \<mu> w)"

lemma rpc_post_instant: "http_instant env \<mu> \<Longrightarrow> \<mu> (snd (rpc_post env url payload w)) = \<mu> w"
  by (auto simp: http_instant_def rpc_post_def http_get_def split: prod.splits outcome.splits dest: spec)
    (metis snd_conv)+

lemma poll_status_wait:
  "poll_status r b = PollWait d b' \<Longrightarrow> d = b \<and> b' \<le> min (b * 2) MAX_BACKOFF_DELAY_MS"
  by (auto simp: poll_status_def Let_def MAX_BACKOFF_MS_def MAX_BACKOFF_DELAY_MS_def
      split: if_splits option.splits)

lemma poll_once_wait:
  assumes "sleep_meter env \<mu>" and "unit_random env" and "http_instant env \<mu>" and "b \<le> MAX_BACKOFF_DELAY_MS"
  shows "\<mu> (snd (poll_once env cd url hash b w)) = \<mu> w"
    and "fst (poll_once env cd url hash b w) = PollWait d b' \<Longrightarrow>
      d \<le> b \<and> b' \<le> min (b * 2) MAX_BACKOFF_DELAY_MS"
proof -
  have j: "jitter env b w1 = (d, w2) \<Longrightarrow> \<mu> w2 = \<mu> w1 \<and> d \<le> b" for d w1 w2
    using sleep_meter_jitter [OF assms(1), of b w1] jitter_bounds [OF assms(2), of b w1] assms(4)
    by (simp add: MAX_BACKOFF_DELAY_MS_def)
  have p: "rpc_post env url payload w = (r, w1) \<Longrightarrow> \<mu> w1 = \<mu> w" for payload r w1
    using rpc_post_instant [OF assms(3), of url payload w] by simp
  show "\<mu> (snd (poll_once env cd url hash b w)) = \<mu> w"
    by (auto simp: poll_once_def conjunct1 [OF j] split: outcome.splits prod.splits dest: p)
  show "fst (poll_once env cd url hash b w) = PollWait d b' \<Longrightarrow>
      d \<le> b \<and> b' \<le> min (b * 2) MAX_BACKOFF_DELAY_MS"
    by (auto simp: poll_once_def split: outcome.splits prod.splits if_splits dest: j poll_status_wait)
qed

lemma poll_loop_wait:
  assumes "sleep_meter env \<mu>" and "unit_random env" and "http_instant env \<mu>"
  shows "b \<le> MAX_BACKOFF_DELAY_MS \<Longrightarrow>
    \<mu> (snd (poll_loop env cd url hash n b w)) \<le> \<mu> w + poll_total n b"
proof (induction n arbitrary: b w)
  case (Suc n)
  note wait = poll_once_wait [OF assms Suc.prems, of cd url hash w]
  obtain p w1 where pw: "poll_once env cd url hash b w = (p, w1)" by (cases "poll_once env cd url hash b w")
  show ?case
  proof (cases p)
    case (PollDone r)
    then show ?thesis using pw wait(1) by simp
  next
    case (PollWait d b')
    then have b: "d \<le> b" "b' \<le> min (b * 2) MAX_BACKOFF_DELAY_MS" using wait(2) [of d b'] pw by simp_all
    then have "\<mu> (snd (poll_loop env cd url hash n b' (env_sleep env d w1)))
        \<le> \<mu> (env_sleep env d w1) + poll_total n b'" using Suc.IH by simp
    moreover have "\<mu> (env_sleep env d w1) = \<mu> w + d"
      using assms(1) wait(1) pw by (simp add: sleep_meter_def)
    ultimately show ?thesis
      using b poll_total_mono [OF b(2), of n] pw PollWait by simp
  qed
qed simp

lemma send_wait:
  assumes "sleep_meter env \<mu>" and "unit_random env" and "http_instant env \<mu>"
  shows "\<mu> (snd (send_transaction_xdr env cd url xdr w)) \<le> \<mu> w + 300"
proof (rule send_budget)
  fix payload w
  have cap: "MAX_BACKOFF_DELAY_MS \<le> 2 ^ 50" by (simp add: MAX_BACKOFF_DELAY_MS_def)
  have "backoff_total MAX_BACKOFF_DELAY_MS SEND_TRANSACTION_RETRY_ATTEMPTS
      (min SEND_TRANSACTION_RETRY_BASE_DELAY_MS MAX_BACKOFF_DELAY_MS) = 300"
    by (simp add: SEND_TRANSACTION_RETRY_ATTEMPTS_def SEND_TRANSACTION_RETRY_BASE_DELAY_MS_def
        MAX_BACKOFF_DELAY_MS_def numeral_3_eq_3)
  then show "\<mu> (snd (send_request env url payload w)) \<le> \<mu> w + 300"
    using retry_sleep [where f = "rpc_post env url payload", OF assms(1,2) rpc_post_instant [OF assms(3)] cap,
        of rpc_retryable SEND_TRANSACTION_RETRY_ATTEMPTS SEND_TRANSACTION_RETRY_BASE_DELAY_MS w]
    by (simp only: send_request_def snd_map_err_action)
qed

section \<open>What an outcome says\<close>

lemma bind_action_cases:
  "bind_action m f w = (r, w') \<Longrightarrow>
     (\<exists>a w1. m w = (Ok a, w1) \<and> f a w1 = (r, w')) \<or> (\<exists>e. m w = (Err e, w') \<and> r = Err e)
     \<or> m w = (Panic, w') \<and> r = Panic"
  by (cases "m w") (auto simp: bind_action_def split: outcome.splits)

lemma send_error_final:
  "fst (send_transaction_xdr env cd url xdr w) = Err e \<Longrightarrow> \<not> may_still_confirm e"
proof -
  assume "fst (send_transaction_xdr env cd url xdr w) = Err e"
  then obtain w' where "send_transaction_xdr env cd url xdr w = (Err e, w')" by (metis prod.collapse)
  then show ?thesis
    unfolding send_transaction_xdr_def
    by (auto dest!: bind_action_cases simp: return_action_def map_err_action_def parse_send_response_def
        send_status_def outcome_ops split: if_splits prod.splits option.splits)
qed

lemma poll_once_Err:
  "fst (poll_once env cd url hash b w) = PollDone (Err e) \<Longrightarrow> \<not> may_still_confirm e"
  by (auto simp: poll_once_def poll_status_def parse_get_transaction_response_def outcome_ops Let_def
      split: outcome.splits prod.splits if_splits option.splits)

lemma poll_loop_timeout:
  "fst (poll_loop env cd url hash n b w) = Err e \<Longrightarrow> may_still_confirm e \<Longrightarrow> e = PollTimeout hash"
proof (induction n arbitrary: b w)
  case (Suc n)
  then show ?case
    using poll_once_Err [of env cd url hash b w e]
    by (cases "poll_once env cd url hash b w") (auto split: poll_step.splits)
qed auto

lemma poll_loop_Ok:
  "fst (poll_loop env cd url hash n b w) = Ok ledger \<Longrightarrow>
     \<exists>b' w'. fst (poll_once env cd url hash b' w') = PollDone (Ok ledger)"
proof (induction n arbitrary: b w)
  case (Suc n)
  obtain p w1 where pw: "poll_once env cd url hash b w = (p, w1)" by (cases "poll_once env cd url hash b w")
  show ?case
  proof (cases p)
    case (PollDone r)
    then have "fst (poll_once env cd url hash b w) = PollDone (Ok ledger)" using Suc.prems pw by simp
    then show ?thesis by blast
  next
    case (PollWait d b')
    then show ?thesis using Suc pw by simp
  qed
qed simp

text \<open>The reply of a poll that confirms the transaction.\<close>

definition confirms :: "'w env \<Rightarrow> codec \<Rightarrow> string \<Rightarrow> string \<Rightarrow> get_result \<Rightarrow> bool" where
  "confirms env cd url hash r \<longleftrightarrow>
     (\<exists>payload w body. cd_request cd ''getTransaction'' (HashParam hash) = Ok payload
        \<and> fst (rpc_post env url payload w) = Ok body
        \<and> parse_get_transaction_response cd body = Ok r \<and> gr_status r = ''SUCCESS'')"

lemma poll_once_Ok:
  assumes "fst (poll_once env cd url hash b w) = PollDone (Ok ledger)"
  shows "\<exists>r. confirms env cd url hash r \<and> ledger = (case gr_ledger r of None \<Rightarrow> 0 | Some l \<Rightarrow> l)"
proof -
  from assms obtain payload body w1 r where "cd_request cd ''getTransaction'' (HashParam hash) = Ok payload"
    and "rpc_post env url payload w = (Ok body, w1)"
    and "parse_get_transaction_response cd body = Ok r" and "poll_status r b = PollDone (Ok ledger)"
    by (auto simp: poll_once_def split: outcome.splits prod.splits if_splits)
  moreover from this(4) have "gr_status r = ''SUCCESS''"
    and "ledger = (case gr_ledger r of None \<Rightarrow> 0 | Some l \<Rightarrow> l)"
    by (auto simp: poll_status_def Let_def split: if_splits option.splits)
  ultimately show ?thesis unfolding confirms_def by (metis fst_conv)
qed

lemma balance_never_low:
  "fst (get_account_balance_stroops env cd url acc w) \<noteq> Err (BalanceBelowMinimum s x m)"
  by (auto simp: get_account_balance_stroops_def parse_account_balance_response_def
      parse_xlm_balance_to_stroops_def Let_def outcome_ops split: prod.splits if_splits option.splits)

lemma poll_until_confirmed_step:
  "poll_until_confirmed env cd url hash w =
     (case poll_once env cd url hash INITIAL_BACKOFF_MS w of
        (PollDone r, w1) \<Rightarrow> (r, w1)
      | (PollWait d b, w1) \<Rightarrow> poll_loop env cd url hash 5 b (env_sleep env d w1))"
proof -
  have six: "(6 :: nat) = Suc 5" by simp
  show ?thesis unfolding poll_until_confirmed_def MAX_POLL_ATTEMPTS_def six poll_loop.simps(2) by (rule refl)
qed

section \<open>A sample node\<close>

text \<open>
  A world for the witnesses: the replies still to come, the number of requests and the
  milliseconds slept; and a codec that names each message by its body.
\<close>

type_synonym script = "http_reply list \<times> nat \<times> nat"

definition script_env :: "script env" where
  "script_env = \<lparr>env_system = (\<lambda>w. (1700000000000, w)), env_instant = (\<lambda>w. (0, w)),
     env_random = (\<lambda>w. (Fin (1 / 2), w)), env_sleep = (\<lambda>ms (rs, n, t). (rs, n, t + ms)),
     env_http = (\<lambda>_ (rs, n, t). case rs of [] \<Rightarrow> (Err ''closed'', ([], Suc n, t))
                                          | r # rs' \<Rightarrow> (r, (rs', Suc n, t)))\<rparr>"

definition reply :: "string \<Rightarrow> http_reply" where
  "reply body = Ok (200, Ok body)"

definition sample_codec :: codec where
  "sample_codec =
    \<lparr>cd_request = (\<lambda>m _. Ok m),
     cd_latest_ledger = (\<lambda>_. Ok \<lparr>resp_result = Some 100, resp_error = None\<rparr>),
     cd_ledger_entries = (\<lambda>b. Ok \<lparr>resp_result = Some [b], resp_error = None\<rparr>),
     cd_horizon = (\<lambda>b. Ok [\<lparr>hb_asset_type = ''native'', hb_balance = b\<rparr>]),
     cd_send = (\<lambda>b. Ok \<lparr>resp_result = Some \<lparr>sr_status = b, sr_hash = ''h'', sr_error_result_xdr = None\<rparr>,
                       resp_error = None\<rparr>),
     cd_get = (\<lambda>b. Ok \<lparr>resp_result = Some \<lparr>gr_status = b, gr_ledger = Some 100, gr_events = None\<rparr>,
                      resp_error = None\<rparr>),
     cd_public_key = Ok, cd_ledger_key = Ok, cd_ledger_entry = (\<lambda>_. Ok (AccountEntry 7)),
     cd_is_tx_bad_seq = (\<lambda>_. None), cd_float = (\<lambda>_. ''0.0''), cd_debug_strings = (\<lambda>_. ''[]'')\<rparr>"

lemma script_quiet: "quiet script_env (\<lambda>w. fst (snd w))"
  by (auto simp: quiet_def script_env_def)

lemma script_cost: "http_cost script_env (\<lambda>w. fst (snd w)) 1"
  by (auto simp: http_cost_def script_env_def split: list.splits)

lemma script_sleep: "sleep_meter script_env (\<lambda>w. snd (snd w))"
  by (auto simp: sleep_meter_def script_env_def)

lemma script_unit: "unit_random script_env"
  by (auto simp: unit_random_def script_env_def intro!: exI [of _ "1 / 2"])

lemma script_instant: "http_instant script_env (\<lambda>w. snd (snd w))"
  by (auto simp: http_instant_def script_env_def split: list.splits)

lemma script_post [simp]:
  "rpc_post script_env url payload (reply b # rs, n, t) = (Ok b, (rs, Suc n, t))"
  "rpc_post script_env url payload (Ok (404, Ok b) # rs, n, t)
    = (Err (RpcHttp 404 (truncate_error_body b)), (rs, Suc n, t))"
  by (simp_all add: rpc_post_def http_get_def script_env_def reply_def)

lemma script_random [simp]: "env_random script_env w = (Fin (1 / 2), w)"
  by (simp add: script_env_def)

lemma script_sleeps [simp]: "env_sleep script_env ms (rs, n, t) = (rs, n, t + ms)"
  by (simp add: script_env_def)

lemmas sample_codec_simps [simp] = sample_codec_def [THEN arg_cong, of cd_request, simplified]
  sample_codec_def [THEN arg_cong, of cd_send, simplified]
  sample_codec_def [THEN arg_cong, of cd_get, simplified]

lemma sample_send [simp]:
  "send_transaction_xdr script_env sample_codec url xdr (reply ''PENDING'' # rs, n, t) = (Ok ''h'', (rs, Suc n, t))"
proof -
  have "retry_with_backoff script_env rpc_retryable (rpc_post script_env url p) 3 100 30000
      (reply ''PENDING'' # rs, n, t) = (Ok ''PENDING'', (rs, Suc n, t))" for p
    by (simp add: retry_with_backoff_def numeral_3_eq_3)
  then show ?thesis
    by (simp add: send_transaction_xdr_def bind_action_def map_err_action_def return_action_def
        SEND_TRANSACTION_RETRY_ATTEMPTS_def SEND_TRANSACTION_RETRY_BASE_DELAY_MS_def
        MAX_BACKOFF_DELAY_MS_def parse_send_response_def send_status_def)
qed

lemma sample_poll:
  "poll_once script_env sample_codec url hash b (reply st # rs, n, t) =
    (poll_status \<lparr>gr_status = st, gr_ledger = Some 100, gr_events = None\<rparr> b, (rs, Suc n, t))"
  by (simp add: poll_once_def parse_get_transaction_response_def)

section \<open>Properties\<close>

text \<open>
  C39: A balance is read exactly: every stroop amount a Horizon server prints with its seven
  decimals is recovered, for the whole range of an \<^verbatim>\<open>i64\<close>.
\<close>

theorem balance_roundtrip:
  assumes "0 \<le> s" and "in_i64 s"
  shows "parse_xlm_balance_to_stroops (decimal 7 (nat s)) = Ok s"
  using assms by (rule parse_render_stroops)

theorem balance_roundtrip_witness:
  "parse_xlm_balance_to_stroops (decimal 7 (nat 1234567890123)) = Ok 1234567890123"
  by (rule balance_roundtrip) (simp_all add: int_ops)

text \<open>
  A balance with any number of decimals is rounded down to whole stroops, never up.
\<close>

theorem balance_rounds_down:
  assumes "list_all is_digit w" and "w \<noteq> ''''" and "list_all is_digit f"
    and "parse_xlm_balance_to_stroops (w @ CHR ''.'' # f) = Ok s"
  shows "s * 10 ^ length f \<le> int (digits_val (w @ f)) * 10 ^ 7 \<and>
         int (digits_val (w @ f)) * 10 ^ 7 < (s + 1) * 10 ^ length f"
  using assms by (rule parse_balance_truncates)

theorem balance_rounds_down_witness:
  "19 * 10 ^ 8 \<le> int (digits_val (''0'' @ ''00000199'')) * 10 ^ 7 \<and>
   int (digits_val (''0'' @ ''00000199'')) * 10 ^ 7 < (19 + 1) * 10 ^ 8"
proof -
  have d: "list_all is_digit ''0''" "list_all is_digit ''00000199''" by (simp_all add: is_digit_def)
  have "parse_xlm_balance_to_stroops (''0'' @ CHR ''.'' # ''00000199'') = Ok 19"
    by (subst parse_balance_eq [OF d(1) _ d(2)])
      (simp_all add: fraction_stroops_eq pad_digits_def digits_val_def digit_val_def checked_i64_def int_ops)
  from balance_rounds_down [OF d(1) _ d(2) this] show ?thesis by simp
qed

text \<open>
  One submission sends at most nine HTTP requests, three to submit and six to poll:
  a quantity that a request raises by at most \<open>c\<close> is raised by at most \<open>9 * c\<close>.
\<close>

theorem submit_requests_bounded:
  assumes "quiet env \<mu>" and "http_cost env \<mu> c"
  shows "\<mu> (snd (submit_and_poll env cd url xdr w)) \<le> \<mu> w + 9 * c"
proof -
  have poll: "\<mu> (snd (poll_until_confirmed env cd url hash w)) \<le> \<mu> w + 6 * c" for hash w
    using poll_loop_cost [OF assms, of cd url hash MAX_POLL_ATTEMPTS INITIAL_BACKOFF_MS w]
    by (simp only: poll_until_confirmed_def MAX_POLL_ATTEMPTS_def)
  have "\<mu> (snd (submit_and_poll env cd url xdr w)) \<le> \<mu> w + (3 * c + 6 * c)"
    unfolding submit_and_poll_def
    by (rule bind_action_cost [where \<mu> = \<mu>, OF _ poll]) (rule send_cost [OF assms])
  then show ?thesis by simp
qed

theorem submit_requests_bounded_witness:
  "fst (snd (snd (submit_and_poll script_env sample_codec ''u'' ''x'' ([], 0, 0)))) \<le> 9"
  using submit_requests_bounded [OF script_quiet script_cost, of sample_codec "''u''" "''x''" "([], 0, 0)"]
  by simp

text \<open>
  C38: The waits of one submission add up to at most 61.3 seconds, which transient failures of
  all requests can reach up to jitter; the keeper cycle allows the whole cycle 50 seconds.
\<close>

theorem submit_wait_bounded:
  assumes "sleep_meter env \<mu>" and "unit_random env" and "http_instant env \<mu>"
  shows "\<mu> (snd (submit_and_poll env cd url xdr w)) \<le> \<mu> w + 61300"
proof -
  have six: "MAX_POLL_ATTEMPTS = Suc (Suc (Suc (Suc (Suc (Suc 0)))))" by (simp add: MAX_POLL_ATTEMPTS_def)
  have total: "poll_total MAX_POLL_ATTEMPTS INITIAL_BACKOFF_MS = 61000"
    by (simp add: six INITIAL_BACKOFF_MS_def MAX_BACKOFF_DELAY_MS_def)
  have cap: "INITIAL_BACKOFF_MS \<le> MAX_BACKOFF_DELAY_MS"
    by (simp add: INITIAL_BACKOFF_MS_def MAX_BACKOFF_DELAY_MS_def)
  have "\<mu> (snd (submit_and_poll env cd url xdr w)) \<le> \<mu> w + (300 + 61000)"
    unfolding submit_and_poll_def poll_until_confirmed_def total [symmetric]
    by (rule bind_action_cost [where \<mu> = \<mu>]) (rule send_wait [OF assms], rule poll_loop_wait [OF assms cap])
  then show ?thesis by simp
qed

theorem submit_wait_bounded_witness:
  "snd (snd (snd (submit_and_poll script_env sample_codec ''u'' ''x'' ([], 0, 0)))) \<le> 61300"
  using submit_wait_bounded [OF script_sleep script_unit script_instant, of sample_codec "''u''" "''x''" "([], 0, 0)"]
  by simp

text \<open>
  What the polls of an undecided transaction saw. Of \<open>n\<close> polls in a row each was answered with a
  status that is neither \<^verbatim>\<open>SUCCESS\<close> nor \<^verbatim>\<open>FAILED\<close>, or failed with an error worth
  retrying, and was followed by its delay.
\<close>

inductive unanswered :: "'w env \<Rightarrow> codec \<Rightarrow> string \<Rightarrow> string \<Rightarrow> nat \<Rightarrow> u64 \<Rightarrow> 'w \<Rightarrow> 'w \<Rightarrow> bool"
  for env cd url payload where
  no_poll: "unanswered env cd url payload 0 b w w"
| pending: "rpc_post env url payload w = (Ok body, w1) \<Longrightarrow> parse_get_transaction_response cd body = Ok r
    \<Longrightarrow> gr_status r \<noteq> ''SUCCESS'' \<Longrightarrow> gr_status r \<noteq> ''FAILED''
    \<Longrightarrow> unanswered env cd url payload n (min (b * 2) MAX_BACKOFF_MS) (env_sleep env b w1) w'
    \<Longrightarrow> unanswered env cd url payload (Suc n) b w w'"
| transient: "rpc_post env url payload w = (Err e, w1) \<Longrightarrow> rpc_retryable e \<Longrightarrow> jitter env b w1 = (d, w2)
    \<Longrightarrow> unanswered env cd url payload n (min (b * 2) MAX_BACKOFF_DELAY_MS) (env_sleep env d w2) w'
    \<Longrightarrow> unanswered env cd url payload (Suc n) b w w'"

inductive_simps unanswered_simps:
  "unanswered env cd url payload 0 b w w'" "unanswered env cd url payload (Suc n) b w w'"

lemma poll_once_waits:
  "poll_once env cd url hash b w = (PollWait d b', w2) \<longleftrightarrow>
    (\<exists>payload. cd_request cd ''getTransaction'' (HashParam hash) = Ok payload \<and>
      ((\<exists>body r. rpc_post env url payload w = (Ok body, w2) \<and> parse_get_transaction_response cd body = Ok r
          \<and> gr_status r \<noteq> ''SUCCESS'' \<and> gr_status r \<noteq> ''FAILED'' \<and> d = b \<and> b' = min (b * 2) MAX_BACKOFF_MS)
        \<or> (\<exists>e w1. rpc_post env url payload w = (Err e, w1) \<and> rpc_retryable e \<and> jitter env b w1 = (d, w2)
          \<and> b' = min (b * 2) MAX_BACKOFF_DELAY_MS)))"
  by (auto simp: poll_once_def poll_status_def Let_def split: outcome.splits prod.splits if_splits option.splits)

text \<open>A poll is repeated exactly when it was inconclusive.\<close>

lemma unanswered_step:
  assumes "cd_request cd ''getTransaction'' (HashParam hash) = Ok payload"
  shows "unanswered env cd url payload (Suc n) b w w' \<longleftrightarrow>
    (\<exists>d b' w2. poll_once env cd url hash b w = (PollWait d b', w2) \<and> unanswered env cd url payload n b' (env_sleep env d w2) w')"
  unfolding poll_once_waits unanswered_simps using assms by auto

lemma poll_loop_undecided:
  assumes "cd_request cd ''getTransaction'' (HashParam hash) = Ok payload" and "may_still_confirm e"
  shows "poll_loop env cd url hash n b w = (Err e, w') \<longleftrightarrow>
    e = PollTimeout hash \<and> unanswered env cd url payload n b w w'"
proof (induction n arbitrary: b w)
  case 0
  then show ?case by (auto simp: unanswered_simps)
next
  case (Suc n)
  obtain p w1 where p: "poll_once env cd url hash b w = (p, w1)" by (rule prod.exhaust)
  show ?case
  proof (cases p)
    case (PollDone r)
    then have "r \<noteq> Err e" using poll_once_Err [of env cd url hash b w e] p assms(2) by auto
    then show ?thesis using p PollDone by (simp add: unanswered_step [OF assms(1)])
  next
    case (PollWait d b')
    then show ?thesis using p by (simp add: unanswered_step [OF assms(1)] Suc.IH)
  qed
qed

lemma six_polls: "(6 :: nat) = Suc 5"
  by simp

lemma poll_loop_request:
  assumes "poll_loop env cd url hash (Suc n) b w = (Err e, w')" and "may_still_confirm e"
  obtains payload where "cd_request cd ''getTransaction'' (HashParam hash) = Ok payload"
proof (cases "cd_request cd ''getTransaction'' (HashParam hash)")
  case (Err j)
  then have "e = SubmitJson j" using assms(1) by (simp add: poll_once_def)
  then show ?thesis using assms(2) by simp
next
  case Panic
  then show ?thesis using assms(1) by (simp add: poll_once_def)
qed (rule that)

text \<open>
  C34: A submission leaves its transaction undecided exactly when the node accepted it and every
  one of the six polls of its hash was inconclusive: answered with a status other than
  \<^verbatim>\<open>SUCCESS\<close> and \<^verbatim>\<open>FAILED\<close>, or failed with an error worth retrying. The error then names
  the hash. Every other error of a submission is classified as final.
\<close>

theorem undecided_only_after_acceptance:
  "submit_and_poll env cd url xdr w = (Err e, w') \<and> may_still_confirm e \<longleftrightarrow>
    (\<exists>hash w1 payload. send_transaction_xdr env cd url xdr w = (Ok hash, w1)
      \<and> cd_request cd ''getTransaction'' (HashParam hash) = Ok payload
      \<and> unanswered env cd url payload 6 INITIAL_BACKOFF_MS w1 w' \<and> e = PollTimeout hash)"
proof
  assume "submit_and_poll env cd url xdr w = (Err e, w') \<and> may_still_confirm e"
  then have r: "submit_and_poll env cd url xdr w = (Err e, w')" and u: "may_still_confirm e" by blast+
  have "send_transaction_xdr env cd url xdr w \<noteq> (Err e, w')"
    using send_error_final [of env cd url xdr w e] u by auto
  with bind_action_cases [OF r [unfolded submit_and_poll_def]]
  obtain hash w1 where s: "send_transaction_xdr env cd url xdr w = (Ok hash, w1)"
    and p: "poll_loop env cd url hash MAX_POLL_ATTEMPTS INITIAL_BACKOFF_MS w1 = (Err e, w')"
    by (auto simp: poll_until_confirmed_def)
  have p6: "poll_loop env cd url hash (Suc 5) INITIAL_BACKOFF_MS w1 = (Err e, w')"
    using p by (simp only: MAX_POLL_ATTEMPTS_def six_polls)
  obtain payload where q: "cd_request cd ''getTransaction'' (HashParam hash) = Ok payload"
    by (rule poll_loop_request [OF p6 u])
  have "e = PollTimeout hash \<and> unanswered env cd url payload 6 INITIAL_BACKOFF_MS w1 w'"
    using p by (simp only: MAX_POLL_ATTEMPTS_def poll_loop_undecided [OF q u])
  then show "\<exists>hash w1 payload. send_transaction_xdr env cd url xdr w = (Ok hash, w1)
      \<and> cd_request cd ''getTransaction'' (HashParam hash) = Ok payload
      \<and> unanswered env cd url payload 6 INITIAL_BACKOFF_MS w1 w' \<and> e = PollTimeout hash"
    using s q by blast
next
  assume "\<exists>hash w1 payload. send_transaction_xdr env cd url xdr w = (Ok hash, w1)
      \<and> cd_request cd ''getTransaction'' (HashParam hash) = Ok payload
      \<and> unanswered env cd url payload 6 INITIAL_BACKOFF_MS w1 w' \<and> e = PollTimeout hash"
  then obtain hash w1 payload where s: "send_transaction_xdr env cd url xdr w = (Ok hash, w1)"
    and q: "cd_request cd ''getTransaction'' (HashParam hash) = Ok payload" and e: "e = PollTimeout hash"
    and n: "unanswered env cd url payload 6 INITIAL_BACKOFF_MS w1 w'" by blast
  from e have u: "may_still_confirm e" by simp
  have "poll_loop env cd url hash 6 INITIAL_BACKOFF_MS w1 = (Err e, w')"
    by (rule iffD2 [OF poll_loop_undecided [OF q u]]) (rule conjI [OF e n])
  then have "submit_and_poll env cd url xdr w = (Err e, w')"
    by (simp only: submit_and_poll_def bind_action_def poll_until_confirmed_def MAX_POLL_ATTEMPTS_def s prod.case outcome.case)
  then show "submit_and_poll env cd url xdr w = (Err e, w') \<and> may_still_confirm e" using u by blast
qed

definition stalled :: script where
  "stalled = (reply ''PENDING'' # replicate 6 (reply ''NOT_FOUND''), 0, 0)"

lemma stalled_timeout:
  "fst (submit_and_poll script_env sample_codec url xdr stalled) = Err (PollTimeout ''h'')"
proof -
  have six: "(6 :: nat) = Suc (Suc (Suc (Suc (Suc (Suc 0)))))" by simp
  show ?thesis
    unfolding submit_and_poll_def bind_action_def poll_until_confirmed_def MAX_POLL_ATTEMPTS_def
      stalled_def sample_send prod.case outcome.case six
    by (simp add: sample_poll poll_status_def)
qed

theorem undecided_only_after_acceptance_witness:
  "\<exists>w'. unanswered script_env sample_codec ''u'' ''getTransaction'' 6 INITIAL_BACKOFF_MS
     (replicate 6 (reply ''NOT_FOUND''), 1, 0) w'"
proof -
  obtain w' where "submit_and_poll script_env sample_codec ''u'' ''x'' stalled = (Err (PollTimeout ''h''), w')"
    using stalled_timeout by (metis prod.collapse)
  then obtain hash w1 payload where "send_transaction_xdr script_env sample_codec ''u'' ''x'' stalled = (Ok hash, w1)"
    and "cd_request sample_codec ''getTransaction'' (HashParam hash) = Ok payload"
    and n: "unanswered script_env sample_codec ''u'' payload 6 INITIAL_BACKOFF_MS w1 w'"
    using undecided_only_after_acceptance [of script_env sample_codec "''u''" "''x''" stalled "PollTimeout ''h''" w'] by auto
  then have "w1 = (replicate 6 (reply ''NOT_FOUND''), 1, 0)" "payload = ''getTransaction''"
    by (simp_all add: stalled_def)
  then show ?thesis using n by blast
qed

text \<open>
  A submission succeeds only when the node accepted the transaction and a poll of its hash
  answered \<^verbatim>\<open>SUCCESS\<close> with the ledger that is returned.
\<close>

theorem submit_success_is_confirmed:
  assumes "fst (submit_and_poll env cd url xdr w) = Ok ledger"
  shows "\<exists>hash r. fst (send_transaction_xdr env cd url xdr w) = Ok hash
    \<and> confirms env cd url hash r \<and> ledger = (case gr_ledger r of None \<Rightarrow> 0 | Some l \<Rightarrow> l)"
proof -
  obtain w' where r: "submit_and_poll env cd url xdr w = (Ok ledger, w')" using assms by (metis prod.collapse)
  from bind_action_cases [OF r [unfolded submit_and_poll_def]]
  obtain hash w1 where s: "send_transaction_xdr env cd url xdr w = (Ok hash, w1)"
    and p: "poll_until_confirmed env cd url hash w1 = (Ok ledger, w')" by auto
  from p have "fst (poll_loop env cd url hash MAX_POLL_ATTEMPTS INITIAL_BACKOFF_MS w1) = Ok ledger"
    by (simp add: poll_until_confirmed_def)
  from poll_loop_Ok [OF this] obtain b' w2 where "fst (poll_once env cd url hash b' w2) = PollDone (Ok ledger)"
    by blast
  from poll_once_Ok [OF this] s show ?thesis by (metis fst_conv)
qed

theorem submit_success_is_confirmed_witness:
  "\<exists>hash r. fst (send_transaction_xdr script_env sample_codec ''u'' ''x''
       ([reply ''PENDING'', reply ''SUCCESS''], 0, 0)) = Ok hash
     \<and> confirms script_env sample_codec ''u'' hash r
     \<and> 100 = (case gr_ledger r of None \<Rightarrow> 0 | Some l \<Rightarrow> l)"
proof (rule submit_success_is_confirmed)
  show "fst (submit_and_poll script_env sample_codec ''u'' ''x'' ([reply ''PENDING'', reply ''SUCCESS''], 0, 0)) = Ok 100"
    by (simp add: submit_and_poll_def bind_action_def poll_until_confirmed_step sample_poll poll_status_def)
qed

text \<open>
  C35: After the node accepted a transaction, a first poll that fails with a non-retryable error
  is reported as final (\<^verbatim>\<open>may_still_confirm\<close> is false), although the transaction may still be
  included in a ledger.
\<close>

theorem accepted_but_reported_final:
  assumes "send_transaction_xdr env cd url xdr w = (Ok hash, w1)"
    and "cd_request cd ''getTransaction'' (HashParam hash) = Ok payload"
    and "rpc_post env url payload w1 = (Err e, w2)" and "\<not> rpc_retryable e"
  shows "submit_and_poll env cd url xdr w = (Err (SubmitRpc e), w2) \<and> \<not> may_still_confirm (SubmitRpc e)"
proof -
  have "poll_once env cd url hash b w1 = (PollDone (Err (SubmitRpc e)), w2)" for b
    using assms(2,3,4) by (simp add: poll_once_def)
  then show ?thesis
    using assms(1)
    by (simp add: submit_and_poll_def bind_action_def poll_until_confirmed_step)
qed

theorem accepted_but_reported_final_witness:
  "submit_and_poll script_env sample_codec ''u'' ''x'' ([reply ''PENDING'', Ok (404, Ok [])], 0, 0)
     = (Err (SubmitRpc (RpcHttp 404 (truncate_error_body []))), ([], 2, 0))
   \<and> \<not> may_still_confirm (SubmitRpc (RpcHttp 404 (truncate_error_body [])))"
  by (rule accepted_but_reported_final [OF sample_send]) simp_all

text \<open>
  The result of a balance check and the shared low-balance flag agree: an accepted balance
  clears the flag and is not reported as below the minimum, a low balance sets it and is, and a
  failed request leaves the flag as it was.
\<close>

theorem balance_check_flag:
  "case check_keeper_balance env cd cfg below_min w of ((flag, r), w') \<Rightarrow>
     (case r of
        Ok stroops \<Rightarrow> flag = False \<and> br_below_minimum (build_balance_response cfg stroops) = False
      | Err (BalanceBelowMinimum stroops xlm least) \<Rightarrow>
          flag = True \<and> br_below_minimum (build_balance_response cfg stroops) = True
          \<and> xlm = spendable_xlm stroops \<and> least = kb_min_balance_xlm cfg
      | _ \<Rightarrow> flag = below_min)"
proof -
  have "get_account_balance_stroops env cd url acc w \<noteq> (Err (BalanceBelowMinimum s x m), w')"
    for url acc s x m w' using balance_never_low [of env cd url acc w s x m] by auto
  then show ?thesis
    by (auto simp: check_keeper_balance_def build_balance_response_def
        split: prod.splits outcome.splits rpc_error.splits)
qed

end
