(* ===== verification/Oracle_Sources.thy ===== *)
theory Oracle_Sources
  imports Oracle_Effects
begin

text \<open>
  The price sources: \<^verbatim>\<open>fixed.rs\<close>, \<^verbatim>\<open>binance.rs\<close>, \<^verbatim>\<open>coinbase.rs\<close>, \<^verbatim>\<open>pyth.rs\<close>, and the token
  configuration they read (\<^verbatim>\<open>shared/config\<close>). Deserialisation is \<^verbatim>\<open>serde_json\<close>'s: the decoders
  are a parameter, collected in \<open>json\<close>. The message of a failed decode is its \<open>Err\<close>.
\<close>

section \<open>Token configuration\<close>

record token_config =
  tc_symbol :: string
  tc_display_symbol :: "string option"
  tc_stellar_address :: string
  tc_sources :: "string list"
  tc_binance_symbol :: "string option"
  tc_coinbase_symbol :: "string option"
  tc_pyth_feed_id :: "string option"
  tc_fixed_price :: "string option"
  tc_min_sources :: nat
  tc_max_deviation_bps :: u32
  tc_stale_after_seconds :: u64
  tc_submit_threshold_bps :: u32
  tc_pyth_max_confidence_bps :: u32

definition token_config_default :: token_config where
  "token_config_default =
     \<lparr>tc_symbol = '''', tc_display_symbol = None, tc_stellar_address = '''', tc_sources = [],
      tc_binance_symbol = None, tc_coinbase_symbol = None, tc_pyth_feed_id = None,
      tc_fixed_price = None, tc_min_sources = 2, tc_max_deviation_bps = 100,
      tc_stale_after_seconds = 60, tc_submit_threshold_bps = 10,
      tc_pyth_max_confidence_bps = 50\<rparr>"

definition lookup_key :: "token_config \<Rightarrow> string" where
  "lookup_key token =
     (if tc_stellar_address token = '''' then to_lowercase (tc_symbol token)
      else to_lowercase (tc_stellar_address token))"

definition display_symbol :: "token_config \<Rightarrow> string" where
  "display_symbol token =
     (case tc_display_symbol token of
        None \<Rightarrow> tc_symbol token
      | Some s \<Rightarrow> if s = '''' then tc_symbol token else s)"

section \<open>Wire data\<close>

record ticker_entry =
  te_symbol :: string
  te_price :: string

datatype ticker_response = TickerSingle ticker_entry | TickerMany "ticker_entry list"

record coinbase_data =
  cb_currency :: string
  cb_rates :: "string \<rightharpoonup> string"

record pyth_price_data =
  pd_price :: string
  pd_conf :: "string option"
  pd_expo :: int
  pd_publish_time :: "i64 option"

record pyth_price_feed =
  pf_id :: string
  pf_price :: pyth_price_data

datatype hermes_response = HermesArray "pyth_price_feed list" | HermesWrapped pyth_price_feed

record json =
  js_ticker :: "string \<Rightarrow> (string, ticker_response) outcome"
  js_coinbase :: "string \<Rightarrow> (string, coinbase_data) outcome"
  js_hermes :: "string \<Rightarrow> (string, hermes_response) outcome"
  js_string_array :: "string list \<Rightarrow> string"

section \<open>Precision\<close>

definition SCALE_DIGITS :: u32 where "SCALE_DIGITS = 30"

definition FLOAT_PRECISION :: i128 where "FLOAT_PRECISION = 10 ^ SCALE_DIGITS"

section \<open>Fixed prices (\<^verbatim>\<open>fixed.rs\<close>)\<close>

datatype fixed_error = MissingFixedPrice | InvalidFixedPrice string

fun fixed_error_message :: "fixed_error \<Rightarrow> string" where
  "fixed_error_message MissingFixedPrice = ''fixed price is not configured''"
| "fixed_error_message (InvalidFixedPrice price) = ''invalid fixed price: '' @ price"

definition fixed_retryable :: "fixed_error \<Rightarrow> bool" where
  "fixed_retryable e = False"

definition fixed_price :: "token_config \<Rightarrow> (fixed_error, i128) outcome" where
  "fixed_price token =
     bind_outcome (or_err MissingFixedPrice (tc_fixed_price token)) (\<lambda>raw.
     bind_outcome (or_err (InvalidFixedPrice raw) (parse_i128 raw)) (\<lambda>price.
       if price \<le> 0 then Err (InvalidFixedPrice raw) else Ok price))"

section \<open>Binance (\<^verbatim>\<open>binance.rs\<close>)\<close>

datatype binance_error =
    BinanceNetwork string
  | BinanceHttp u16 string
  | BinanceJson string
  | BinancePriceParse string

definition http_message :: "string \<Rightarrow> u16 \<Rightarrow> string \<Rightarrow> string" where
  "http_message provider status body =
     (if body = '''' then provider @ '' returned HTTP '' @ nat_digits status
      else provider @ '' returned HTTP '' @ nat_digits status @ '': '' @ body)"

fun binance_error_message :: "binance_error \<Rightarrow> string" where
  "binance_error_message (BinanceNetwork error) = ''Binance network error: '' @ error"
| "binance_error_message (BinanceHttp status body) = http_message ''Binance'' status body"
| "binance_error_message (BinanceJson error) = ''invalid Binance response: '' @ error"
| "binance_error_message (BinancePriceParse error) = ''invalid Binance price: '' @ error"

definition http_status_retryable :: "u16 \<Rightarrow> bool" where
  "http_status_retryable status \<longleftrightarrow> 500 \<le> status \<or> status = 429"

fun binance_retryable :: "binance_error \<Rightarrow> bool" where
  "binance_retryable (BinanceNetwork _) = True"
| "binance_retryable (BinanceHttp status _) = http_status_retryable status"
| "binance_retryable (BinanceJson _) = False"
| "binance_retryable (BinancePriceParse _) = False"

text \<open>The fraction padded or cut to the on-chain precision.\<close>

definition normalized_frac :: "string \<Rightarrow> string" where
  "normalized_frac decimals =
     (if SCALE_DIGITS \<le> length decimals then take SCALE_DIGITS decimals
      else decimals @ replicate (SCALE_DIGITS - length decimals) (CHR ''0''))"

definition scale_parts :: "string \<Rightarrow> string \<Rightarrow> string \<Rightarrow> (binance_error, i128) outcome" where
  "scale_parts text whole decimals =
     bind_outcome (or_err (BinancePriceParse (''overflow for price (whole part too large): '' @ text))
         (parse_i128 whole)) (\<lambda>whole_val.
     bind_outcome (if normalized_frac decimals = '''' then Ok 0
         else or_err (BinancePriceParse (''invalid fractional part: '' @ text))
                (parse_i128 (normalized_frac decimals))) (\<lambda>frac_val.
     bind_outcome (or_err (BinancePriceParse (''overflow for price: '' @ text))
         (checked_i128 (whole_val * FLOAT_PRECISION))) (\<lambda>whole_scaled.
     bind_outcome (or_err (BinancePriceParse (''overflow for price: '' @ text))
         (checked_i128 (whole_scaled + frac_val))) (\<lambda>scaled.
       if scaled = 0 then Err (BinancePriceParse ''price must be greater than zero'')
       else Ok scaled))))"

definition parse_price_to_precision :: "string \<Rightarrow> (binance_error, i128) outcome" where
  "parse_price_to_precision raw =
     (let text = trim raw
      in if text = '''' then Err (BinancePriceParse ''empty price string'')
         else if starts_with text ''-''
         then Err (BinancePriceParse ''negative prices are not supported'')
         else
           let parts = split_on (CHR ''.'') text;
               whole = (case parts of [] \<Rightarrow> ''0'' | w # _ \<Rightarrow> w);
               decimals = (case parts of _ # f # _ \<Rightarrow> f | _ \<Rightarrow> '''')
           in if 2 < length parts
              then Err (BinancePriceParse (''invalid decimal format: '' @ text))
              else if \<not> list_all is_digit whole
              then Err (BinancePriceParse (''invalid whole part: '' @ text))
              else if \<not> list_all is_digit decimals \<and> decimals \<noteq> ''''
              then Err (BinancePriceParse (''invalid fractional part: '' @ text))
              else scale_parts text whole decimals)"

fun collect_symbols ::
  "ticker_entry list \<Rightarrow> string list \<Rightarrow> (binance_error, (string \<times> i128) list) outcome" where
  "collect_symbols entries [] = Ok []"
| "collect_symbols entries (symbol # symbols) =
     (case find (\<lambda>e. te_symbol e = symbol) entries of
        None \<Rightarrow> collect_symbols entries symbols
      | Some found \<Rightarrow>
          bind_outcome (parse_price_to_precision (te_price found)) (\<lambda>scaled.
          bind_outcome (collect_symbols entries symbols) (\<lambda>rest.
            Ok ((te_symbol found, scaled) # rest))))"

definition parse_ticker_response_body ::
  "json \<Rightarrow> string \<Rightarrow> string list \<Rightarrow> (binance_error, (string \<times> i128) list) outcome" where
  "parse_ticker_response_body js body symbols =
     bind_outcome (map_err BinanceJson (js_ticker js body)) (\<lambda>response.
       collect_symbols (case response of TickerSingle e \<Rightarrow> [e] | TickerMany es \<Rightarrow> es) symbols)"

definition parse_ticker_http_response ::
  "json \<Rightarrow> u16 \<Rightarrow> string \<Rightarrow> string list \<Rightarrow> (binance_error, (string \<times> i128) list) outcome" where
  "parse_ticker_http_response js status_code body symbols =
     (if status_code \<noteq> 200 then Err (BinanceHttp status_code (truncate_error_body body))
      else parse_ticker_response_body js body symbols)"

definition parse_ticker_http_result ::
  "json \<Rightarrow> (string, u16 \<times> string) outcome \<Rightarrow> string list
     \<Rightarrow> (binance_error, (string \<times> i128) list) outcome" where
  "parse_ticker_http_result js response symbols =
     bind_outcome (map_err BinanceNetwork response) (\<lambda>(status, body).
       parse_ticker_http_response js status body symbols)"

definition build_spot_price_url_for :: "json \<Rightarrow> string \<Rightarrow> string list \<Rightarrow> string" where
  "build_spot_price_url_for js base_url symbols =
     (if length symbols = 1 then base_url @ ''?symbol='' @ symbols ! 0
      else base_url @ ''?symbols='' @ js_string_array js symbols)"

definition BINANCE_TICKER_PRICE_URL :: string where
  "BINANCE_TICKER_PRICE_URL = ''https://data-api.binance.vision/api/v3/ticker/price''"

definition fetch_spot_prices_with_url ::
  "'w env \<Rightarrow> json \<Rightarrow> string \<Rightarrow> string list \<Rightarrow> ('w, binance_error, (string \<times> i128) list) action" where
  "fetch_spot_prices_with_url env js base_url symbols w =
     (let url = build_spot_price_url_for js base_url symbols
      in case http_get env \<lparr>rq_url = url, rq_query = [], rq_bearer = None, rq_body = None\<rparr> w of
           (r, w') \<Rightarrow> (parse_ticker_http_result js r symbols, w'))"

definition fetch_spot_prices ::
  "'w env \<Rightarrow> json \<Rightarrow> string list \<Rightarrow> ('w, binance_error, (string \<times> i128) list) action" where
  "fetch_spot_prices env js symbols = fetch_spot_prices_with_url env js BINANCE_TICKER_PRICE_URL symbols"

section \<open>Coinbase (\<^verbatim>\<open>coinbase.rs\<close>)\<close>

datatype coinbase_error =
    CoinbaseNetwork string
  | CoinbaseHttp u16 string
  | CoinbaseJson string
  | CoinbasePriceParse string
  | MissingUsdRate
  | CurrencyMismatch string string

fun coinbase_error_message :: "coinbase_error \<Rightarrow> string" where
  "coinbase_error_message (CoinbaseNetwork error) = ''Coinbase network error: '' @ error"
| "coinbase_error_message (CoinbaseHttp status body) = http_message ''Coinbase'' status body"
| "coinbase_error_message (CoinbaseJson error) = ''invalid Coinbase response: '' @ error"
| "coinbase_error_message (CoinbasePriceParse error) = ''invalid Coinbase price: '' @ error"
| "coinbase_error_message MissingUsdRate = ''Coinbase response has no USD rate''"
| "coinbase_error_message (CurrencyMismatch expected got) =
     ''Coinbase currency mismatch: expected '' @ [char_of (39 :: nat)] @ expected
       @ [char_of (39 :: nat)] @ '', got '' @ [char_of (39 :: nat)] @ got @ [char_of (39 :: nat)]"

fun coinbase_retryable :: "coinbase_error \<Rightarrow> bool" where
  "coinbase_retryable (CoinbaseNetwork _) = True"
| "coinbase_retryable (CoinbaseHttp status _) = http_status_retryable status"
| "coinbase_retryable (CoinbaseJson _) = False"
| "coinbase_retryable (CoinbasePriceParse _) = False"
| "coinbase_retryable MissingUsdRate = False"
| "coinbase_retryable (CurrencyMismatch _ _) = False"

text \<open>
  The remapping of a parse error. The last arm, which the code calls unreachable, renders the
  error with \<^verbatim>\<open>Debug\<close>, a parameter here.
\<close>

fun remap_parse_error :: "(binance_error \<Rightarrow> string) \<Rightarrow> binance_error \<Rightarrow> coinbase_error" where
  "remap_parse_error dbg (BinancePriceParse msg) = CoinbasePriceParse msg"
| "remap_parse_error dbg other = CoinbasePriceParse (''unexpected parse error: '' @ dbg other)"

definition parse_coinbase_response_body ::
  "json \<Rightarrow> (binance_error \<Rightarrow> string) \<Rightarrow> string \<Rightarrow> string \<Rightarrow> (coinbase_error, i128) outcome" where
  "parse_coinbase_response_body js dbg body expected_currency =
     bind_outcome (map_err CoinbaseJson (js_coinbase js body)) (\<lambda>resp.
       if to_uppercase (cb_currency resp) \<noteq> to_uppercase expected_currency
       then Err (CurrencyMismatch expected_currency (cb_currency resp))
       else bind_outcome (or_err MissingUsdRate (cb_rates resp ''USD'')) (\<lambda>usd_price_str.
         map_err (remap_parse_error dbg) (parse_price_to_precision usd_price_str)))"

definition parse_coinbase_http_response ::
  "json \<Rightarrow> (binance_error \<Rightarrow> string) \<Rightarrow> u16 \<Rightarrow> string \<Rightarrow> string \<Rightarrow> (coinbase_error, i128) outcome" where
  "parse_coinbase_http_response js dbg status_code body expected_currency =
     (if status_code \<noteq> 200 then Err (CoinbaseHttp status_code (truncate_error_body body))
      else parse_coinbase_response_body js dbg body expected_currency)"

definition parse_coinbase_http_result ::
  "json \<Rightarrow> (binance_error \<Rightarrow> string) \<Rightarrow> (string, u16 \<times> string) outcome \<Rightarrow> string
     \<Rightarrow> (coinbase_error, i128) outcome" where
  "parse_coinbase_http_result js dbg response expected_currency =
     bind_outcome (map_err CoinbaseNetwork response) (\<lambda>(status, body).
       parse_coinbase_http_response js dbg status body expected_currency)"

definition base_currency :: "string \<Rightarrow> string" where
  "base_currency symbol =
     (let stripped = (case strip_suffix symbol ''USDT'' of
                        Some s \<Rightarrow> Some s | None \<Rightarrow> strip_suffix symbol ''USD'')
      in case stripped of Some s \<Rightarrow> if s = '''' then symbol else s | None \<Rightarrow> symbol)"

text \<open>\<^verbatim>\<open>trim_end_matches(pat)\<close> strips the pattern as often as it occurs.\<close>

function trim_end_matches :: "string \<Rightarrow> string \<Rightarrow> string" where
  "trim_end_matches s p =
     (if p = '''' then s
      else case strip_suffix s p of None \<Rightarrow> s | Some s' \<Rightarrow> trim_end_matches s' p)"
  by pat_completeness auto
termination
  by (relation "measure (\<lambda>(s, p). length s)")
    (auto simp: strip_suffix_def suffix_def split: if_splits)

declare trim_end_matches.simps [simp del]

definition coinbase_request :: "string \<Rightarrow> string \<Rightarrow> request" where
  "coinbase_request base_url currency =
     (if contains_str base_url ''currency='' \<or> contains_str base_url ''exchange-rates''
      then \<lparr>rq_url = trim_end_matches (trim_end_matches base_url ''?currency='') ''&currency='',
            rq_query = [(''currency'', currency)], rq_bearer = None, rq_body = None\<rparr>
      else \<lparr>rq_url = base_url @ currency, rq_query = [], rq_bearer = None, rq_body = None\<rparr>)"

definition fetch_spot_price_with_url ::
  "'w env \<Rightarrow> json \<Rightarrow> (binance_error \<Rightarrow> string) \<Rightarrow> string \<Rightarrow> string \<Rightarrow> ('w, coinbase_error, i128) action" where
  "fetch_spot_price_with_url env js dbg base_url symbol w =
     (let currency = base_currency symbol
      in case http_get env (coinbase_request base_url currency) w of
           (r, w') \<Rightarrow> (parse_coinbase_http_result js dbg r currency, w'))"

section \<open>Pyth (\<^verbatim>\<open>pyth.rs\<close>)\<close>

datatype pyth_error =
    PythNetwork string
  | PythHttp u16 string
  | PythJson string
  | PythPriceParse string
  | MissingFeedId string
  | StalePrice u64 u64
  | ConfidenceTooWide f64 u32
  | MissingPublishTime
  | InvalidPublishTime i64

text \<open>\<^verbatim>\<open>{:.2}\<close> of an \<^verbatim>\<open>f64\<close> is the standard library's formatting, a parameter.\<close>

fun pyth_error_message :: "(f64 \<Rightarrow> string) \<Rightarrow> pyth_error \<Rightarrow> string" where
  "pyth_error_message fmt (PythNetwork error) = ''Pyth network error: '' @ error"
| "pyth_error_message fmt (PythHttp status body) = http_message ''Pyth'' status body"
| "pyth_error_message fmt (PythJson error) = ''invalid Pyth response: '' @ error"
| "pyth_error_message fmt (PythPriceParse error) = ''invalid Pyth price: '' @ error"
| "pyth_error_message fmt (MissingFeedId i) = ''Pyth response is missing feed '' @ i"
| "pyth_error_message fmt (StalePrice age limit) =
     ''Pyth price is stale ('' @ nat_digits age @ ''s; maximum '' @ nat_digits limit @ ''s)''"
| "pyth_error_message fmt (ConfidenceTooWide bps limit) =
     ''Pyth confidence interval is too wide ('' @ fmt bps @ '' bps; maximum ''
       @ nat_digits limit @ '')''"
| "pyth_error_message fmt MissingPublishTime = ''Pyth response is missing publish_time field''"
| "pyth_error_message fmt (InvalidPublishTime v) = ''invalid Pyth publish time: '' @ int_digits v"

fun pyth_retryable :: "pyth_error \<Rightarrow> bool" where
  "pyth_retryable (PythNetwork _) = True"
| "pyth_retryable (PythHttp status _) = http_status_retryable status"
| "pyth_retryable (StalePrice _ _) = True"
| "pyth_retryable (PythJson _) = False"
| "pyth_retryable (PythPriceParse _) = False"
| "pyth_retryable (MissingFeedId _) = False"
| "pyth_retryable (ConfidenceTooWide _ _) = False"
| "pyth_retryable MissingPublishTime = False"
| "pyth_retryable (InvalidPublishTime _) = False"

definition normalize_pyth_price :: "string \<Rightarrow> int \<Rightarrow> (pyth_error, i128) outcome" where
  "normalize_pyth_price price_str exponent =
     (if \<not> (- int SCALE_DIGITS \<le> exponent \<and> exponent \<le> 0)
      then Err (PythPriceParse (''unsupported exponent: '' @ int_digits exponent))
      else bind_outcome
             (or_err (PythPriceParse (''invalid price: '' @ price_str)) (parse_i128 (trim price_str)))
             (\<lambda>price_int.
        if price_int < 0 then Err (PythPriceParse ''negative prices not supported'')
        else
          let exponent_diff = int SCALE_DIGITS + exponent
          in or_err (PythPriceParse ''price overflow during normalization'')
               (checked_i128 (price_int * 10 ^ nat (max exponent_diff 0)))))"

record price_with_timestamp =
  pt_price :: i128
  pt_observation_time :: u64

definition MAX_FUTURE_SKEW_SECONDS :: u64 where "MAX_FUTURE_SKEW_SECONDS = 30"

definition check_confidence ::
  "i128 \<Rightarrow> pyth_price_data \<Rightarrow> u32 \<Rightarrow> (pyth_error, unit) outcome" where
  "check_confidence price data max_confidence_bps =
     (case pd_conf data of
        None \<Rightarrow> Ok ()
      | Some conf \<Rightarrow>
          bind_outcome (normalize_pyth_price conf (pd_expo data)) (\<lambda>confidence.
            let confidence_bps =
                  f64_mul (f64_div (f64_of_int confidence) (f64_of_int price)) (Fin 10000)
            in if f64_lt (f64_of_int (int max_confidence_bps)) confidence_bps
               then Err (ConfidenceTooWide confidence_bps max_confidence_bps)
               else Ok ()))"

definition validate_pyth_price ::
  "pyth_price_data \<Rightarrow> u64 \<Rightarrow> u64 \<Rightarrow> u32 \<Rightarrow> (pyth_error, price_with_timestamp) outcome" where
  "validate_pyth_price data now_seconds stale_after_seconds max_confidence_bps =
     bind_outcome (normalize_pyth_price (pd_price data) (pd_expo data)) (\<lambda>price.
     bind_outcome (or_err MissingPublishTime (pd_publish_time data)) (\<lambda>signed_time.
       if signed_time < 0 then Err (InvalidPublishTime signed_time)
       else
         let publish_time = nat signed_time
         in if now_seconds < publish_time \<and> MAX_FUTURE_SKEW_SECONDS < publish_time - now_seconds
            then Err (InvalidPublishTime (int publish_time))
            else
              let age_seconds = now_seconds - publish_time
              in if stale_after_seconds < age_seconds
                 then Err (StalePrice age_seconds stale_after_seconds)
                 else if price \<le> 0
                 then Err (PythPriceParse ''price must be greater than zero'')
                 else bind_outcome (check_confidence price data max_confidence_bps) (\<lambda>_.
                   Ok \<lparr>pt_price = price, pt_observation_time = publish_time\<rparr>)))"

definition PYTH_HERMES_URL :: string where
  "PYTH_HERMES_URL = ''https://pyth.dourolabs.app/hermes/api/latest_price_feeds''"

fun join_str :: "string \<Rightarrow> string list \<Rightarrow> string" where
  "join_str sep [] = ''''"
| "join_str sep [x] = x"
| "join_str sep (x # y # ys) = x @ sep @ join_str sep (y # ys)"

definition pyth_request :: "string list \<Rightarrow> string option \<Rightarrow> request" where
  "pyth_request feed_ids api_key =
     \<lparr>rq_url = PYTH_HERMES_URL @ ''?'' @ join_str ''&'' (map (\<lambda>i. ''ids[]='' @ i) feed_ids),
      rq_query = [], rq_bearer = api_key, rq_body = None\<rparr>"

definition hermes_feeds :: "hermes_response \<Rightarrow> pyth_price_feed list" where
  "hermes_feeds response = (case response of HermesArray fs \<Rightarrow> fs | HermesWrapped f \<Rightarrow> [f])"

text \<open>Collecting into a \<^verbatim>\<open>HashMap\<close>: the last feed of an id wins.\<close>

definition feed_map :: "pyth_price_feed list \<Rightarrow> (string \<rightharpoonup> pyth_price_feed)" where
  "feed_map feeds = map_of (rev (map (\<lambda>f. (pf_id f, f)) feeds))"

definition parse_hermes_reply ::
  "json \<Rightarrow> (string, u16 \<times> string) outcome \<Rightarrow> (pyth_error, string \<rightharpoonup> pyth_price_feed) outcome" where
  "parse_hermes_reply js response =
     bind_outcome (map_err PythNetwork response) (\<lambda>(status, body).
       if status \<noteq> 200 then Err (PythHttp status (truncate_error_body body))
       else bind_outcome (map_err PythJson (js_hermes js body)) (\<lambda>r.
         Ok (feed_map (hermes_feeds r))))"

definition fetch_pyth_prices ::
  "'w env \<Rightarrow> json \<Rightarrow> string list \<Rightarrow> string option
     \<Rightarrow> ('w, pyth_error, string \<rightharpoonup> pyth_price_feed) action" where
  "fetch_pyth_prices env js feed_ids api_key w =
     (if feed_ids = [] then (Ok Map.empty, w)
      else case http_get env (pyth_request feed_ids api_key) w of
             (r, w') \<Rightarrow> (parse_hermes_reply js r, w'))"

section \<open>What every source promises\<close>

text \<open>
  A source that yields a price yields a positive \<^verbatim>\<open>i128\<close>: this is what the aggregation needs
  not to panic. Everything the price loop collects inherits it.
\<close>

locale positive_source =
  fixes source :: "'i \<Rightarrow> ('e, 'a) outcome" and price :: "'a \<Rightarrow> i128"
  assumes positive: "source i = Ok a \<Longrightarrow> 0 < price a \<and> in_i128 (price a)"
begin

definition collected :: "'i list \<Rightarrow> i128 list" where
  "collected is = map price (List.map_filter (\<lambda>i. case source i of Ok a \<Rightarrow> Some a | _ \<Rightarrow> None) is)"

lemma collected_positive: "p \<in> set (collected is) \<Longrightarrow> 0 < p \<and> in_i128 p"
  by (induction "is") (auto simp: collected_def map_filter_simps dest: positive split: outcome.splits)

lemma collected_zero_free: "0 \<notin> set (collected is)"
  using collected_positive [of 0] by auto

end

interpretation fixed_source: positive_source fixed_price "\<lambda>p. p"
  by unfold_locales
    (auto simp: fixed_price_def outcome_ops split: if_splits dest: parse_i128_in_range)

lemma scale_parts_Ok:
  "scale_parts text w f = Ok p \<Longrightarrow> list_all is_digit w \<Longrightarrow> list_all is_digit f \<Longrightarrow>
     p = int (digits_val w) * 10 ^ 30 + int (digits_val (normalized_frac f)) \<and> 0 < p \<and> in_i128 p"
proof -
  assume run: "scale_parts text w f = Ok p" and w: "list_all is_digit w" and f: "list_all is_digit f"
  have d: "parse_i128 s = Some v \<Longrightarrow> list_all is_digit s \<Longrightarrow> v = int (digits_val s)" for s v
  proof -
    assume p: "parse_i128 s = Some v" and s: "list_all is_digit s"
    have "s \<noteq> []" using p by (auto simp: parse_i128_def parse_int_def split_sign_def)
    then show ?thesis using p s by (simp add: parse_i128_def parse_int_digits checked_i128_Some_iff)
  qed
  have nf: "list_all is_digit (normalized_frac f)"
    using f by (auto simp: normalized_frac_def list_all_iff is_digit_def dest: in_set_takeD)
  have "normalized_frac f \<noteq> ''''" by (auto simp: normalized_frac_def SCALE_DIGITS_def)
  then obtain wv fv where "parse_i128 w = Some wv" "parse_i128 (normalized_frac f) = Some fv"
    "in_i128 (wv * FLOAT_PRECISION + fv)" "p = wv * FLOAT_PRECISION + fv" "p \<noteq> 0"
    using run by (auto simp: scale_parts_def outcome_ops checked_i128_Some_iff split: if_splits)
  moreover from this have "wv = int (digits_val w)" "fv = int (digits_val (normalized_frac f))"
    using d w nf by blast+
  ultimately show ?thesis by (simp add: FLOAT_PRECISION_def SCALE_DIGITS_def)
qed

lemma split_on_cases:
  "split_on c s = [s] \<or> (\<exists>a b. split_on c s = [a, b] \<and> s = a @ c # b) \<or> 2 < length (split_on c s)"
proof (induction s)
  case Nil
  then show ?case by simp
next
  case (Cons x s)
  then show ?case
  proof (elim disjE exE conjE)
    fix a b
    assume "split_on c s = [a, b]" and "s = a @ c # b"
    then show ?thesis by (cases "x = c") auto
  next
    assume "2 < length (split_on c s)"
    then show ?thesis by (cases "split_on c s") auto
  qed auto
qed

lemma parse_price_Ok:
  assumes "parse_price_to_precision raw = Ok p"
  shows "(list_all is_digit (trim raw) \<and> scale_parts (trim raw) (trim raw) '''' = Ok p) \<or>
    (\<exists>w f. trim raw = w @ CHR ''.'' # f \<and>
      list_all is_digit w \<and> list_all is_digit f \<and> scale_parts (w @ CHR ''.'' # f) w f = Ok p)"
  using split_on_cases [of "CHR ''.''" "trim raw"] assms
  by (auto simp: parse_price_to_precision_def Let_def split: if_splits)

interpretation decimal_source: positive_source parse_price_to_precision "\<lambda>p. p"
proof unfold_locales
  fix raw p
  assume "parse_price_to_precision raw = Ok p"
  from parse_price_Ok [OF this] show "0 < p \<and> in_i128 p"
    using scale_parts_Ok [of _ _ "''''" p] scale_parts_Ok by fastforce
qed

interpretation coinbase_source: positive_source
  "\<lambda>(js, dbg, body, currency). parse_coinbase_response_body js dbg body currency" "\<lambda>p. p"
  by unfold_locales
    (auto simp: parse_coinbase_response_body_def outcome_ops split: if_splits
      dest: decimal_source.positive)

lemma normalize_pyth_in_range: "normalize_pyth_price s e = Ok p \<Longrightarrow> 0 \<le> p \<and> in_i128 p"
  by (auto simp: normalize_pyth_price_def outcome_ops checked_i128_Some_iff Let_def split: if_splits)

interpretation pyth_source: positive_source
  "\<lambda>(data, now, stale, conf). validate_pyth_price data now stale conf" pt_price
  by unfold_locales
    (auto simp: validate_pyth_price_def outcome_ops Let_def split: if_splits
      dest!: normalize_pyth_in_range)

section \<open>Decimal strings\<close>

lemma parse_decimal_eq:
  assumes w: "list_all is_digit w" "w \<noteq> ''''" and f: "list_all is_digit f"
  shows "parse_price_to_precision (w @ CHR ''.'' # f) = scale_parts (w @ CHR ''.'' # f) w f"
proof -
  have sp: "split_on (CHR ''.'') (w @ CHR ''.'' # f) = [w, f]"
    using w f by (simp add: split_on_append split_on_absent digits_no_dot)
  have "\<not> starts_with (w @ CHR ''.'' # f) ''-''"
    using w by (cases w) (auto simp: starts_with_def is_digit_def)
  then show ?thesis
    using w f by (simp add: parse_price_to_precision_def trim_decimal Let_def sp)
qed

lemma normalized_frac_pad: "normalized_frac f = pad_digits 30 f"
  by (simp add: normalized_frac_def pad_digits_def SCALE_DIGITS_def)

lemma parse_decimal_truncates:
  assumes w: "list_all is_digit w" "w \<noteq> ''''" and f: "list_all is_digit f"
    and ok: "parse_price_to_precision (w @ CHR ''.'' # f) = Ok p"
  shows "p * 10 ^ length f \<le> int (digits_val (w @ f)) * 10 ^ 30 \<and>
         int (digits_val (w @ f)) * 10 ^ 30 < (p + 1) * 10 ^ length f"
proof -
  let ?t = "digits_val (normalized_frac f)"
  have p: "p = int (digits_val w * 10 ^ 30 + ?t)"
    using scale_parts_Ok [OF _ w(1) f] ok parse_decimal_eq [OF w f] by simp
  have b: "?t * 10 ^ length f \<le> digits_val f * 10 ^ 30" "digits_val f * 10 ^ 30 < (?t + 1) * 10 ^ length f"
    using pad_digits_bounds [OF f, of 30] by (simp_all add: normalized_frac_pad)
  have "(digits_val w * 10 ^ 30 + ?t) * 10 ^ length f \<le> digits_val (w @ f) * 10 ^ 30"
    and "digits_val (w @ f) * 10 ^ 30 < (digits_val w * 10 ^ 30 + ?t + 1) * 10 ^ length f"
    using b unfolding digits_val_append by (simp_all add: algebra_simps)
  then have "int ((digits_val w * 10 ^ 30 + ?t) * 10 ^ length f) \<le> int (digits_val (w @ f) * 10 ^ 30)"
    and "int (digits_val (w @ f) * 10 ^ 30) < int ((digits_val w * 10 ^ 30 + ?t + 1) * 10 ^ length f)"
    by (simp_all only: of_nat_le_iff of_nat_less_iff)
  then show ?thesis unfolding p by (simp add: algebra_simps)
qed

lemma normalized_frac_short:
  "length f \<le> 30 \<Longrightarrow> digits_val (normalized_frac f) = digits_val f * 10 ^ (30 - length f)"
  by (cases "length f = 30") (simp_all add: normalized_frac_def SCALE_DIGITS_def digits_val_append)

lemma parse_decimal_Ok:
  assumes w: "list_all is_digit w" "w \<noteq> []" and f: "list_all is_digit f"
    and p: "p = int (digits_val w) * 10 ^ 30 + int (digits_val (normalized_frac f))"
    and r: "0 < p" "in_i128 p"
  shows "parse_price_to_precision (w @ CHR ''.'' # f) = Ok p"
proof -
  have P: "parse_i128 s = checked_i128 (int (digits_val s))" if "list_all is_digit s" "s \<noteq> []" for s
    using that by (simp add: parse_i128_def parse_int_digits)
  have nf: "list_all is_digit (normalized_frac f)" "normalized_frac f \<noteq> []"
    using f by (auto simp: normalized_frac_def list_all_iff is_digit_def SCALE_DIGITS_def dest: in_set_takeD)
  have max: "p \<le> i128_max" using r(2) by (simp add: in_i128_def)
  have nn: "0 \<le> int (digits_val w)" "0 \<le> int (digits_val (normalized_frac f))" by simp_all
  have "in_i128 (int (digits_val w))" "in_i128 (int (digits_val (normalized_frac f)))"
    "in_i128 (int (digits_val w) * 10 ^ 30)"
    using p max nn by (simp_all add: in_i128_def i128_min_def)
  then have "scale_parts (w @ CHR ''.'' # f) w f = Ok p"
    using r nf P [OF w] P [OF nf] p
    by (simp add: scale_parts_def checked_i128_def FLOAT_PRECISION_def SCALE_DIGITS_def)
  then show ?thesis using parse_decimal_eq [OF w f] by simp
qed

lemma parse_render:
  assumes "0 < p" and "in_i128 p"
  shows "parse_price_to_precision (decimal 30 (nat p)) = Ok p"
proof -
  let ?q = "nat p div 10 ^ 30" and ?r = "nat p mod 10 ^ 30"
  have r: "?r < 10 ^ 30" "(0 :: nat) < 30" by simp_all
  note f = fixed_digits_props [OF r]
  have "?q * 10 ^ 30 + ?r = nat p" by simp
  then have "int (?q * 10 ^ 30 + ?r) = p" using assms(1) by (simp only: int_nat_eq if_True less_imp_le)
  then have "p = int ?q * 10 ^ 30 + int ?r"
    by (simp only: of_nat_add of_nat_mult of_nat_power of_nat_numeral)
  then show ?thesis
    unfolding decimal_def
    by (intro parse_decimal_Ok nat_digits_digits nat_digits_nonempty f(2) assms)
      (simp only: normalized_frac_pad pad_digits_id [OF f(1)] f(3) digits_val_nat_digits)
qed

section \<open>Properties\<close>

text \<open>
  Whatever a source delivers as a price is positive and fits an \<^verbatim>\<open>i128\<close>, for the fixed
  price, the Binance and Coinbase decimals and the Pyth feed alike.
\<close>

theorem sources_deliver_positive_prices:
  "(fixed_price token = Ok p \<longrightarrow> 0 < p \<and> in_i128 p) \<and>
   (parse_price_to_precision raw = Ok q \<longrightarrow> 0 < q \<and> in_i128 q) \<and>
   (parse_coinbase_response_body js dbg body currency = Ok c \<longrightarrow> 0 < c \<and> in_i128 c) \<and>
   (validate_pyth_price data now stale conf = Ok r \<longrightarrow> 0 < pt_price r \<and> in_i128 (pt_price r))"
  using fixed_source.positive [of token p] decimal_source.positive [of raw q]
    coinbase_source.positive [of "(js, dbg, body, currency)" c]
    pyth_source.positive [of "(data, now, stale, conf)" r]
  by simp

definition sample_token :: token_config where
  "sample_token = token_config_default\<lparr>tc_symbol := ''TUSDC'', tc_fixed_price := Some ''1000''\<rparr>"

definition sample_json :: json where
  "sample_json =
     \<lparr>js_ticker = (\<lambda>b. Ok (TickerSingle \<lparr>te_symbol = ''BTC'', te_price = b\<rparr>)),
      js_coinbase = (\<lambda>b. Ok \<lparr>cb_currency = ''btc'', cb_rates = [''USD'' \<mapsto> b]\<rparr>),
      js_hermes = (\<lambda>b. Err b), js_string_array = (\<lambda>ss. ''[]'')\<rparr>"

definition sample_pyth :: pyth_price_data where
  "sample_pyth = \<lparr>pd_price = ''25'', pd_conf = None, pd_expo = - 1, pd_publish_time = Some 100\<rparr>"

lemma sample_values:
  "fixed_price sample_token = Ok 1000"
  "parse_price_to_precision ''2.5'' = Ok (25 * 10 ^ 29)"
  "parse_coinbase_response_body sample_json binance_error_message ''2.5'' ''BTC'' = Ok (25 * 10 ^ 29)"
  "validate_pyth_price sample_pyth 110 60 50 = Ok \<lparr>pt_price = 25 * 10 ^ 29, pt_observation_time = 100\<rparr>"
proof -
  show "fixed_price sample_token = Ok 1000" by code_simp
  have "parse_price_to_precision (''2'' @ CHR ''.'' # ''5'') = Ok (25 * 10 ^ 29)"
    by (rule parse_decimal_Ok) (simp_all add: is_digit_def normalized_frac_short
        digit_val_def in_i128_def i128_max_def i128_min_def)
  then show p: "parse_price_to_precision ''2.5'' = Ok (25 * 10 ^ 29)" by simp
  moreover have "to_uppercase ''btc'' = ''BTC''" "to_uppercase ''BTC'' = ''BTC''" by code_simp+
  ultimately show "parse_coinbase_response_body sample_json binance_error_message ''2.5'' ''BTC'' = Ok (25 * 10 ^ 29)"
    by (simp add: parse_coinbase_response_body_def sample_json_def)
  show "validate_pyth_price sample_pyth 110 60 50 = Ok \<lparr>pt_price = 25 * 10 ^ 29, pt_observation_time = 100\<rparr>"
    by code_simp
qed

theorem sources_deliver_positive_prices_witness:
  "0 < (1000 :: int) \<and> 0 < (25 * 10 ^ 29 :: int) \<and>
   0 < pt_price \<lparr>pt_price = 25 * 10 ^ 29, pt_observation_time = 100\<rparr>"
  using sources_deliver_positive_prices [of sample_token 1000 "''2.5''" "25 * 10 ^ 29" sample_json
      binance_error_message "''2.5''" "''BTC''" "25 * 10 ^ 29" sample_pyth 110 60 50
      "\<lparr>pt_price = 25 * 10 ^ 29, pt_observation_time = 100\<rparr>"] sample_values
  by simp

text \<open>
  A decimal price is scaled to thirty places by truncation: the result is the largest
  multiple of \<open>10 ^ (-30)\<close> not above the number the string denotes.
\<close>

theorem parse_price_truncates:
  assumes "list_all is_digit w" and "w \<noteq> ''''" and "list_all is_digit f"
    and "parse_price_to_precision (w @ CHR ''.'' # f) = Ok p"
  shows "p * 10 ^ length f \<le> int (digits_val (w @ f)) * 10 ^ 30 \<and>
         int (digits_val (w @ f)) * 10 ^ 30 < (p + 1) * 10 ^ length f"
  using assms by (rule parse_decimal_truncates)

theorem parse_price_truncates_witness:
  "25 * 10 ^ 29 * 10 ^ length ''5'' \<le> int (digits_val ''25'') * 10 ^ 30 \<and>
   int (digits_val ''25'') * 10 ^ 30 < (25 * 10 ^ 29 + 1) * 10 ^ length ''5''"
  using parse_price_truncates [of "''2''" "''5''" "25 * 10 ^ 29"] sample_values(2)
  by (simp add: is_digit_def)

text \<open>
  Every positive on-chain price is the image of a decimal string: printing it with thirty
  places and parsing it back is exact, up to the largest \<^verbatim>\<open>i128\<close>.
\<close>

theorem parse_price_roundtrip:
  assumes "0 < p" and "in_i128 p"
  shows "parse_price_to_precision (decimal 30 (nat p)) = Ok p"
  using assms by (rule parse_render)

theorem parse_price_roundtrip_witness:
  "parse_price_to_precision (decimal 30 (nat (2 ^ 127 - 1))) = Ok (2 ^ 127 - 1)"
  by (rule parse_price_roundtrip) (simp_all add: int_ops)

text \<open>
  The parser only fails with a parse error and never panics, so the arm of the Coinbase
  remapping that the code calls unreachable is.
\<close>

theorem parse_price_error_contract:
  "parse_price_to_precision raw \<noteq> Panic \<and>
   (\<forall>e. parse_price_to_precision raw = Err e \<longrightarrow> (\<exists>msg. e = BinancePriceParse msg))"
  by (auto simp: parse_price_to_precision_def scale_parts_def Let_def outcome_ops split: if_splits)

theorem parse_price_error_contract_witness:
  "\<exists>msg. BinancePriceParse ''price must be greater than zero'' = BinancePriceParse msg"
proof -
  have "parse_price_to_precision ''0.0'' = Err (BinancePriceParse ''price must be greater than zero'')"
    by code_simp
  then show ?thesis using parse_price_error_contract [of "''0.0''"] by blast
qed

text \<open>
  A validated Pyth price carries its own publish time, which is at most
  \<open>stale_after_seconds\<close> old and at most thirty seconds in the future, and its value is the
  published integer scaled exactly by its exponent.
\<close>

theorem validated_pyth_price_is_fresh_and_exact:
  assumes "validate_pyth_price data now stale conf = Ok r"
  shows "pd_publish_time data = Some (int (pt_observation_time r)) \<and>
    now \<le> pt_observation_time r + stale \<and> pt_observation_time r \<le> now + 30 \<and>
    - 30 \<le> pd_expo data \<and> pd_expo data \<le> 0 \<and>
    (\<exists>v. parse_i128 (trim (pd_price data)) = Some v \<and> pt_price r = v * 10 ^ nat (30 + pd_expo data))"
  using assms
  by (auto simp: validate_pyth_price_def normalize_pyth_price_def outcome_ops Let_def
      checked_i128_Some_iff SCALE_DIGITS_def MAX_FUTURE_SKEW_SECONDS_def max_def split: if_splits)

theorem validated_pyth_price_is_fresh_and_exact_witness:
  "(110 :: nat) \<le> pt_observation_time \<lparr>pt_price = 25 * 10 ^ 29, pt_observation_time = 100\<rparr> + 60"
  using validated_pyth_price_is_fresh_and_exact [OF sample_values(4)] by blast

text \<open>
  Retrying a stale Pyth price from the same batch is futile: once the data is stale it is
  stale at every later time, although the code classifies the error as retryable.
\<close>

theorem stale_batch_price_stays_stale:
  assumes "validate_pyth_price data now stale conf = Err (StalePrice age limit)" and "now \<le> later"
  shows "\<exists>age'. validate_pyth_price data later stale conf = Err (StalePrice age' stale) \<and> age \<le> age'"
proof -
  obtain price t where n: "normalize_pyth_price (pd_price data) (pd_expo data) = Ok price"
    and t: "pd_publish_time data = Some t" "0 \<le> t" and a: "stale < now - nat t" "age = now - nat t"
    using assms(1)
    by (auto simp: validate_pyth_price_def check_confidence_def outcome_ops Let_def
        normalize_pyth_price_def split: if_splits option.splits)
  then show ?thesis
    using assms(2) by (auto simp: validate_pyth_price_def Let_def intro: diff_le_mono)
qed

theorem stale_batch_price_stays_stale_witness:
  "\<exists>age'. validate_pyth_price sample_pyth 500 60 50 = Err (StalePrice age' 60)"
proof -
  have "validate_pyth_price sample_pyth 200 60 50 = Err (StalePrice 100 60)" by code_simp
  from stale_batch_price_stays_stale [OF this, of 500] show ?thesis by auto
qed

end
