(* ===== verification/Oracle_Maps.thy ===== *)
theory Oracle_Maps
  imports Oracle_Prelude
begin

text \<open>
  Rust's \<^verbatim>\<open>BTreeMap\<close>: an association list in the order of its keys, which is the order of
  iteration. What its clients use is stated as the interface \<open>ordered_map\<close>.
\<close>

section \<open>The interface\<close>

locale ordered_map =
  fixes get :: "'m \<Rightarrow> 'k \<Rightarrow> 'v option"
    and insert :: "'k \<Rightarrow> 'v \<Rightarrow> 'm \<Rightarrow> 'm"
    and wf :: "'m \<Rightarrow> bool"
  assumes get_insert: "wf m \<Longrightarrow> get (insert k v m) k' = (if k' = k then Some v else get m k')"
    and wf_insert: "wf m \<Longrightarrow> wf (insert k v m)"
begin

definition insert_all :: "('k \<times> 'v) list \<Rightarrow> 'm \<Rightarrow> 'm" where
  "insert_all xs m = fold (\<lambda>(k, v) m. insert k v m) xs m"

lemma insert_all_simps [simp]:
  "insert_all [] m = m" "insert_all ((k, v) # xs) m = insert_all xs (insert k v m)"
  by (simp_all add: insert_all_def)

lemma wf_insert_all: "wf m \<Longrightarrow> wf (insert_all xs m)"
  by (induction xs arbitrary: m) (auto simp: wf_insert)

lemma get_insert_all:
  "wf m \<Longrightarrow> get (insert_all xs m) k = (case map_of (rev xs) k of Some v \<Rightarrow> Some v | None \<Rightarrow> get m k)"
  by (induction xs arbitrary: m) (auto simp: wf_insert get_insert map_add_def split: option.splits)

lemma get_insert_all_other: "wf m \<Longrightarrow> k \<notin> fst ` set xs \<Longrightarrow> get (insert_all xs m) k = get m k"
  by (induction xs arbitrary: m) (auto simp: wf_insert get_insert)

lemma insert_all_source:
  "wf m \<Longrightarrow> get (insert_all xs m) k = Some v \<Longrightarrow> (k, v) \<in> set xs \<or> get m k = Some v"
  by (auto simp: get_insert_all split: option.splits dest: map_of_SomeD)

end

section \<open>Sorted association lists\<close>

type_synonym ('k, 'v) btree = "('k \<times> 'v) list"

fun bt_insert :: "'k :: linorder \<Rightarrow> 'v \<Rightarrow> ('k, 'v) btree \<Rightarrow> ('k, 'v) btree" where
  "bt_insert k v [] = [(k, v)]"
| "bt_insert k v ((k', v') # m) =
     (if k < k' then (k, v) # (k', v') # m
      else if k = k' then (k, v) # m
      else (k', v') # bt_insert k v m)"

definition bt_get :: "('k, 'v) btree \<Rightarrow> 'k \<Rightarrow> 'v option" where
  "bt_get m k = map_of m k"

definition bt_wf :: "('k :: linorder, 'v) btree \<Rightarrow> bool" where
  "bt_wf m \<longleftrightarrow> sorted_wrt (<) (map fst m)"

text \<open>\<^verbatim>\<open>*m.entry(k).or_insert(d) = f(..)\<close> and \<^verbatim>\<open>collect()\<close> into a map, where the last entry of a key wins.\<close>

definition bt_update :: "'k :: linorder \<Rightarrow> 'v \<Rightarrow> ('v \<Rightarrow> 'v) \<Rightarrow> ('k, 'v) btree \<Rightarrow> ('k, 'v) btree" where
  "bt_update k d f m = bt_insert k (f (case bt_get m k of None \<Rightarrow> d | Some v \<Rightarrow> v)) m"

definition bt_insert_all :: "('k :: linorder \<times> 'v) list \<Rightarrow> ('k, 'v) btree \<Rightarrow> ('k, 'v) btree" where
  "bt_insert_all xs m = fold (\<lambda>(k, v) m. bt_insert k v m) xs m"

definition bt_collect :: "('k :: linorder \<times> 'v) list \<Rightarrow> ('k, 'v) btree" where
  "bt_collect xs = bt_insert_all xs []"

lemma bt_wf_Nil [simp]: "bt_wf []"
  by (simp add: bt_wf_def)

lemma bt_get_Nil [simp]: "bt_get [] k = None"
  by (simp add: bt_get_def)

lemma fst_bt_insert: "fst ` set (bt_insert k v m) = insert k (fst ` set m)"
  by (induction k v m rule: bt_insert.induct) auto

lemma bt_wf_insert: "bt_wf m \<Longrightarrow> bt_wf (bt_insert k v m)"
proof (induction k v m rule: bt_insert.induct)
  case (2 k v k' v' m)
  then have tail: "bt_wf m" "\<forall>x \<in> fst ` set m. k' < x" by (auto simp: bt_wf_def)
  show ?case
  proof (cases "k < k' \<or> k = k'")
    case True
    then show ?thesis using 2(2) tail by (auto simp: bt_wf_def)
  next
    case False
    then have "bt_wf (bt_insert k v m)" using 2 tail by auto
    moreover have "\<forall>x \<in> fst ` set (bt_insert k v m). k' < x" using tail False by (auto simp: fst_bt_insert)
    ultimately show ?thesis using False by (auto simp: bt_wf_def)
  qed
qed (simp add: bt_wf_def)

lemma bt_get_insert: "bt_wf m \<Longrightarrow> bt_get (bt_insert k v m) k' = (if k' = k then Some v else bt_get m k')"
proof (induction k v m rule: bt_insert.induct)
  case (2 k v k1 v1 m)
  then show ?case by (auto simp: bt_wf_def bt_get_def)
qed (simp add: bt_get_def)

interpretation bt: ordered_map bt_get bt_insert bt_wf
  by unfold_locales (rule bt_get_insert, assumption, rule bt_wf_insert)

lemma bt_insert_all_eq: "bt_insert_all = bt.insert_all"
  by (intro ext) (simp add: bt_insert_all_def bt.insert_all_def)

lemmas bt_wf_insert_all = bt.wf_insert_all [folded bt_insert_all_eq]
lemmas bt_get_insert_all = bt.get_insert_all [folded bt_insert_all_eq]
lemmas bt_insert_all_source = bt.insert_all_source [folded bt_insert_all_eq]

lemma bt_wf_collect: "bt_wf (bt_collect xs)"
  by (simp add: bt_collect_def bt_wf_insert_all)

lemma bt_get_collect: "bt_get (bt_collect xs) k = map_of (rev xs) k"
  by (simp add: bt_collect_def bt_get_insert_all split: option.splits)

lemma bt_wf_update: "bt_wf m \<Longrightarrow> bt_wf (bt_update k d f m)"
  by (simp add: bt_update_def bt_wf_insert)

lemma bt_get_update:
  "bt_wf m \<Longrightarrow> bt_get (bt_update k d f m) k' =
    (if k' = k then Some (f (case bt_get m k of None \<Rightarrow> d | Some v \<Rightarrow> v)) else bt_get m k')"
  by (simp add: bt_update_def bt_get_insert)

lemma bt_get_in: "bt_get m k = Some v \<Longrightarrow> (k, v) \<in> set m"
  by (simp add: bt_get_def map_of_SomeD)

lemma bt_wf_distinct: "bt_wf m \<Longrightarrow> distinct (map fst m)"
  by (simp add: bt_wf_def strict_sorted_iff)

lemma bt_in_get: "bt_wf m \<Longrightarrow> (k, v) \<in> set m \<Longrightarrow> bt_get m k = Some v"
  by (simp add: bt_get_def bt_wf_distinct)

lemma bt_wf_filter: "bt_wf m \<Longrightarrow> bt_wf (filter P m)"
  by (induction m) (auto simp: bt_wf_def)

text \<open>Filtering the entries and collecting them again.\<close>

lemma bt_get_filter:
  assumes "bt_wf m"
  shows "bt_get (bt_collect (filter P m)) k = Some v \<longleftrightarrow> bt_get m k = Some v \<and> P (k, v)"
proof -
  have d: "distinct (map fst m)" by (rule bt_wf_distinct [OF assms])
  then have "distinct (map fst (rev (filter P m)))" by (simp add: distinct_map_filter rev_map [symmetric])
  then have "map_of (rev (filter P m)) k = Some v \<longleftrightarrow> (k, v) \<in> set m \<and> P (k, v)"
    by (subst map_of_eq_Some_iff) auto
  moreover have "bt_get m k = Some v \<longleftrightarrow> (k, v) \<in> set m" unfolding bt_get_def by (rule map_of_eq_Some_iff [OF d])
  ultimately show ?thesis by (simp only: bt_get_collect)
qed

end
