(* ===== verification/Oracle_Metrics.thy ===== *)
theory Oracle_Metrics
  imports Oracle_Effects Oracle_Maps
begin

text \<open>
  The counters of \<^verbatim>\<open>metrics.rs\<close> and their text exposition. The mutexes make every operation
  one atomic step. Counters are natural numbers: a \<^verbatim>\<open>u64\<close> that is only ever incremented does
  not reach its limit. How a floating-point number is printed is a parameter.
\<close>

section \<open>State\<close>

type_synonym route_labels = "string \<times> string \<times> string"
type_synonym source_labels = "string \<times> string \<times> string"

record counters =
  ct_price_cycle_count :: u64
  ct_price_cycle_latency_ms :: u64
  ct_token_fetch_ok :: u64
  ct_token_fetch_failures :: u64
  ct_keeper_cycle_count :: u64
  ct_keeper_cycle_latency_ms :: u64
  ct_orders_executed :: u64
  ct_deposits_executed :: u64
  ct_withdrawals_executed :: u64
  ct_submit_failures :: u64
  ct_keeper_balance_low_count :: u64
  ct_prices_stale_count :: u64
  ct_last_metrics_update :: u64
  ct_http_in_flight :: u64
  ct_http_total :: "(route_labels, u64) btree"
  ct_http_buckets :: "(string, u64 list) btree"
  ct_http_sum :: "(string, f64) btree"
  ct_http_auth_failures :: "(string, u64) btree"

record metrics =
  mt_counters :: counters
  mt_fetch_failures :: "(source_labels, u64) btree"
  mt_outlier_rejections :: "(source_labels, u64) btree"

record keeper_cycle_tally =
  ta_orders :: nat
  ta_deposits :: nat
  ta_withdrawals :: nat
  ta_errors :: nat
  ta_keeper_balance_low :: bool
  ta_prices_stale :: bool

definition counters_default :: counters where
  "counters_default =
     \<lparr>ct_price_cycle_count = 0, ct_price_cycle_latency_ms = 0, ct_token_fetch_ok = 0,
      ct_token_fetch_failures = 0, ct_keeper_cycle_count = 0, ct_keeper_cycle_latency_ms = 0,
      ct_orders_executed = 0, ct_deposits_executed = 0, ct_withdrawals_executed = 0,
      ct_submit_failures = 0, ct_keeper_balance_low_count = 0, ct_prices_stale_count = 0,
      ct_last_metrics_update = 0, ct_http_in_flight = 0, ct_http_total = [], ct_http_buckets = [],
      ct_http_sum = [], ct_http_auth_failures = []\<rparr>"

definition metrics_new :: metrics where
  "metrics_new = \<lparr>mt_counters = counters_default, mt_fetch_failures = [], mt_outlier_rejections = []\<rparr>"

section \<open>Recording\<close>

text \<open>\<^verbatim>\<open>stamp\<close> reads the clock, so recording moves the world on.\<close>

definition stamp :: "'w env \<Rightarrow> counters \<Rightarrow> 'w \<Rightarrow> counters \<times> 'w" where
  "stamp env c w =
     (case current_timestamp_secs env w of (t, w') \<Rightarrow> (c\<lparr>ct_last_metrics_update := t\<rparr>, w'))"

definition stamped :: "'w env \<Rightarrow> (counters \<Rightarrow> counters) \<Rightarrow> metrics \<Rightarrow> 'w \<Rightarrow> metrics \<times> 'w" where
  "stamped env f m w =
     (case stamp env (f (mt_counters m)) w of (c, w') \<Rightarrow> (m\<lparr>mt_counters := c\<rparr>, w'))"

definition record_price_cycle :: "'w env \<Rightarrow> u64 \<Rightarrow> nat \<Rightarrow> nat \<Rightarrow> metrics \<Rightarrow> 'w \<Rightarrow> metrics \<times> 'w" where
  "record_price_cycle env latency_ms tokens_ok tokens_failed =
     stamped env (\<lambda>c. c\<lparr>ct_price_cycle_count := ct_price_cycle_count c + 1,
       ct_price_cycle_latency_ms := latency_ms,
       ct_token_fetch_ok := ct_token_fetch_ok c + tokens_ok,
       ct_token_fetch_failures := ct_token_fetch_failures c + tokens_failed\<rparr>)"

definition record_keeper_cycle ::
  "'w env \<Rightarrow> u64 \<Rightarrow> keeper_cycle_tally \<Rightarrow> metrics \<Rightarrow> 'w \<Rightarrow> metrics \<times> 'w" where
  "record_keeper_cycle env latency_ms tally =
     stamped env (\<lambda>c. c\<lparr>ct_keeper_cycle_count := ct_keeper_cycle_count c + 1,
       ct_keeper_cycle_latency_ms := latency_ms,
       ct_orders_executed := ct_orders_executed c + ta_orders tally,
       ct_deposits_executed := ct_deposits_executed c + ta_deposits tally,
       ct_withdrawals_executed := ct_withdrawals_executed c + ta_withdrawals tally,
       ct_submit_failures := ct_submit_failures c + ta_errors tally,
       ct_keeper_balance_low_count :=
         ct_keeper_balance_low_count c + (if ta_keeper_balance_low tally then 1 else 0),
       ct_prices_stale_count :=
         ct_prices_stale_count c + (if ta_prices_stale tally then 1 else 0)\<rparr>)"

definition record_submit_failure :: "'w env \<Rightarrow> metrics \<Rightarrow> 'w \<Rightarrow> metrics \<times> 'w" where
  "record_submit_failure env =
     stamped env (\<lambda>c. c\<lparr>ct_submit_failures := ct_submit_failures c + 1\<rparr>)"

definition record_token_source_fetch_failure ::
  "'w env \<Rightarrow> string \<Rightarrow> string \<Rightarrow> string \<Rightarrow> metrics \<Rightarrow> 'w \<Rightarrow> metrics \<times> 'w" where
  "record_token_source_fetch_failure env symbol token source m =
     stamped env id (m\<lparr>mt_fetch_failures := bt_update (symbol, token, source) 0 Suc (mt_fetch_failures m)\<rparr>)"

definition record_token_source_outlier_rejection ::
  "'w env \<Rightarrow> string \<Rightarrow> string \<Rightarrow> string \<Rightarrow> metrics \<Rightarrow> 'w \<Rightarrow> metrics \<times> 'w" where
  "record_token_source_outlier_rejection env symbol token source m =
     stamped env id
       (m\<lparr>mt_outlier_rejections := bt_update (symbol, token, source) 0 Suc (mt_outlier_rejections m)\<rparr>)"

definition inc_http_in_flight :: "metrics \<Rightarrow> metrics" where
  "inc_http_in_flight m =
     m\<lparr>mt_counters := (mt_counters m)\<lparr>ct_http_in_flight := ct_http_in_flight (mt_counters m) + 1\<rparr>\<rparr>"

definition dec_http_in_flight :: "metrics \<Rightarrow> metrics" where
  "dec_http_in_flight m =
     m\<lparr>mt_counters := (mt_counters m)\<lparr>ct_http_in_flight := ct_http_in_flight (mt_counters m) - 1\<rparr>\<rparr>"

text \<open>The bounds are the doubles nearest to the decimals written in the source.\<close>

definition duration_bounds :: "f64 list" where
  "duration_bounds = [Fin (rn (1 / 100)), Fin (rn (5 / 100)), Fin (rn (1 / 10)), Fin (1 / 4), Fin (1 / 2), Fin 1]"

definition bump_buckets :: "f64 \<Rightarrow> u64 list \<Rightarrow> u64 list" where
  "bump_buckets latency buckets =
     map2 (\<lambda>hit n. if hit then n + 1 else n)
       (map (\<lambda>bound. f64_le latency bound) duration_bounds @ [True]) buckets"

definition record_http_request :: "string \<Rightarrow> string \<Rightarrow> u16 \<Rightarrow> u64 \<Rightarrow> metrics \<Rightarrow> metrics" where
  "record_http_request route meth status latency_ms m =
     (let c = mt_counters m;
          latency_sec = f64_div (f64_of_int (int latency_ms)) (Fin 1000);
          labels = (route, meth, nat_digits (status div 100) @ ''xx'')
      in m\<lparr>mt_counters := c\<lparr>
           ct_http_total := bt_update labels 0 Suc (ct_http_total c),
           ct_http_buckets := bt_update route (replicate 7 0) (bump_buckets latency_sec) (ct_http_buckets c),
           ct_http_sum := bt_update route (Fin 0) (\<lambda>s. f64_add s latency_sec) (ct_http_sum c)\<rparr>\<rparr>)"

definition record_http_auth_failure :: "string \<Rightarrow> metrics \<Rightarrow> metrics" where
  "record_http_auth_failure route m =
     m\<lparr>mt_counters := (mt_counters m)
         \<lparr>ct_http_auth_failures := bt_update route 0 Suc (ct_http_auth_failures (mt_counters m))\<rparr>\<rparr>"

section \<open>Exposition\<close>

definition nl :: string where "nl = [char_of (10 :: nat)]"
definition quote :: string where "quote = [char_of (34 :: nat)]"
definition backslash :: char where "backslash = char_of (92 :: nat)"

text \<open>\<^verbatim>\<open>str::replace(c, s)\<close> for a single character.\<close>

definition replace_char :: "char \<Rightarrow> string \<Rightarrow> string \<Rightarrow> string" where
  "replace_char c by s = concat (map (\<lambda>x. if x = c then by else [x]) s)"

definition escape_label_value :: "string \<Rightarrow> string" where
  "escape_label_value value =
     replace_char (char_of (34 :: nat)) (backslash # quote)
       (replace_char (char_of (10 :: nat)) [backslash, CHR ''n'']
         (replace_char backslash [backslash, backslash] value))"

definition metric_head :: "string \<Rightarrow> string \<Rightarrow> string \<Rightarrow> string" where
  "metric_head name help kind =
     ''# HELP '' @ name @ '' '' @ help @ nl @ ''# TYPE '' @ name @ '' '' @ kind @ nl"

definition metric_line :: "string \<Rightarrow> string \<Rightarrow> string" where
  "metric_line name value = name @ '' '' @ value @ nl"

definition labelled :: "string \<Rightarrow> (string \<times> string) list \<Rightarrow> string" where
  "labelled name labels =
     name @ ''{'' @ concat (map (\<lambda>(i, k, v). (if i = 0 then '''' else '','') @ k @ ''='' @ quote @ v @ quote)
       (zip [0..<length labels] labels)) @ ''}''"

definition counter_text :: "string \<Rightarrow> string \<Rightarrow> u64 \<Rightarrow> string" where
  "counter_text name help n = metric_head name help ''counter'' @ metric_line name (nat_digits n)"

definition gauge_text :: "string \<Rightarrow> string \<Rightarrow> string \<Rightarrow> string" where
  "gauge_text name help v = metric_head name help ''gauge'' @ metric_line name v"

definition seconds_text :: "(f64 \<Rightarrow> string) \<Rightarrow> u64 \<Rightarrow> string" where
  "seconds_text fmt ms = fmt (f64_div (f64_of_int (int ms)) (Fin 1000))"

definition source_lines :: "string \<Rightarrow> (source_labels, u64) btree \<Rightarrow> string" where
  "source_lines name m =
     concat (map (\<lambda>((symbol, token, source), count).
       metric_line (labelled name [(''symbol'', escape_label_value symbol),
         (''token'', escape_label_value token), (''source'', escape_label_value source)])
         (nat_digits count)) m)"

definition HTTP_DURATION_BUCKETS :: "string list" where
  "HTTP_DURATION_BUCKETS = [''0.01'', ''0.05'', ''0.1'', ''0.25'', ''0.5'', ''1'', ''+Inf'']"

definition cycle_text :: "(f64 \<Rightarrow> string) \<Rightarrow> metrics \<Rightarrow> string" where
  "cycle_text fmt m =
     (let c = mt_counters m in
      counter_text ''oracle_price_cycles_total'' ''Total number of price cycles'' (ct_price_cycle_count c)
    @ gauge_text ''oracle_price_cycle_duration_seconds'' ''Last price cycle duration in seconds''
        (seconds_text fmt (ct_price_cycle_latency_ms c))
    @ counter_text ''oracle_keeper_cycles_total'' ''Total number of keeper cycles'' (ct_keeper_cycle_count c)
    @ gauge_text ''oracle_keeper_cycle_duration_seconds'' ''Last keeper cycle duration in seconds''
        (seconds_text fmt (ct_keeper_cycle_latency_ms c))
    @ counter_text ''oracle_orders_executed_total'' ''Total number of orders executed'' (ct_orders_executed c)
    @ counter_text ''oracle_deposits_executed_total'' ''Total number of deposits executed'' (ct_deposits_executed c)
    @ counter_text ''oracle_withdrawals_executed_total'' ''Total number of withdrawals executed''
        (ct_withdrawals_executed c)
    @ counter_text ''oracle_token_fetch_ok_total''
        ''Total individual token fetch successes across all price cycles'' (ct_token_fetch_ok c)
    @ counter_text ''oracle_token_fetch_failures_total''
        ''Total individual token fetch failures across all price cycles'' (ct_token_fetch_failures c)
    @ metric_head ''oracle_token_source_fetch_failures_total''
        ''Total source fetch failures by configured token and source'' ''counter''
    @ source_lines ''oracle_token_source_fetch_failures_total'' (mt_fetch_failures m)
    @ metric_head ''oracle_token_source_outlier_rejections_total''
        ''Total times a source's price was excluded by the outlier filter, including cycles that otherwise succeeded''
        ''counter''
    @ source_lines ''oracle_token_source_outlier_rejections_total'' (mt_outlier_rejections m)
    @ counter_text ''oracle_submit_failures_total'' ''Total number of submit failures'' (ct_submit_failures c)
    @ gauge_text ''oracle_last_cycle_metrics_update'' ''Timestamp of last price/keeper cycle metrics update''
        (nat_digits (ct_last_metrics_update c))
    @ counter_text ''oracle_keeper_balance_low_count''
        ''Total number of cycles with keeper balance below minimum'' (ct_keeper_balance_low_count c)
    @ counter_text ''oracle_prices_stale_count'' ''Total number of cycles with stale prices''
        (ct_prices_stale_count c))"

definition http_text :: "(f64 \<Rightarrow> string) \<Rightarrow> counters \<Rightarrow> string" where
  "http_text fmt c =
      metric_head ''oracle_http_requests_total'' ''Total HTTP requests by route, method and status class'' ''counter''
    @ concat (map (\<lambda>((route, meth, class), count).
        metric_line (labelled ''oracle_http_requests_total'' [(''route'', escape_label_value route),
          (''method'', escape_label_value meth), (''status_class'', escape_label_value class)])
          (nat_digits count)) (ct_http_total c))
    @ metric_head ''oracle_http_request_duration_seconds'' ''HTTP request duration by route'' ''histogram''
    @ concat (map (\<lambda>(route, buckets). concat (map2 (\<lambda>bound count.
        metric_line (labelled ''oracle_http_request_duration_seconds_bucket''
          [(''route'', escape_label_value route), (''le'', bound)]) (nat_digits count))
          HTTP_DURATION_BUCKETS buckets)) (ct_http_buckets c))
    @ concat (map (\<lambda>(route, total). metric_line (labelled ''oracle_http_request_duration_seconds_sum''
        [(''route'', escape_label_value route)]) (fmt total)) (ct_http_sum c))
    @ concat (map (\<lambda>(route, buckets). metric_line (labelled ''oracle_http_request_duration_seconds_count''
        [(''route'', escape_label_value route)]) (nat_digits (buckets ! (length HTTP_DURATION_BUCKETS - 1))))
        (ct_http_buckets c))
    @ gauge_text ''oracle_http_requests_in_flight'' ''HTTP requests currently in flight''
        (nat_digits (ct_http_in_flight c))
    @ metric_head ''oracle_http_auth_failures_total'' ''Total number of unauthorized admin access attempts'' ''counter''
    @ concat (map (\<lambda>(route, count). metric_line (labelled ''oracle_http_auth_failures_total''
        [(''route'', escape_label_value route)]) (nat_digits count)) (ct_http_auth_failures c))"

definition to_prometheus :: "(f64 \<Rightarrow> string) \<Rightarrow> metrics \<Rightarrow> string" where
  "to_prometheus fmt m = cycle_text fmt m @ http_text fmt (mt_counters m)"

end
