(* ===== verification/Oracle_State.thy ===== *)
theory Oracle_State
  imports Oracle_Sources Oracle_Rpc Oracle_Metrics
begin

text \<open>
  The state the two loops and the API share (\<^verbatim>\<open>state.rs\<close>), its ring buffer and its limiter
  of admin logins, the constant-time comparison (\<^verbatim>\<open>auth.rs\<close>), and the configuration the
  loops read (\<^verbatim>\<open>config.rs\<close>). A \<^verbatim>\<open>SystemTime\<close> is a number of milliseconds since the epoch and
  an \<^verbatim>\<open>Instant\<close> a number of nanoseconds on the monotonic clock. Every lock guards one field,
  so a critical section is one update of the record.
\<close>

section \<open>Data\<close>

type_synonym system_time = nat
type_synonym instant = nat

record cached_price =
  cp_token_address :: string
  cp_symbol :: string
  cp_display_symbol :: string
  cp_keeper_index :: u32
  cp_min :: i128
  cp_max :: i128
  cp_median :: i128
  cp_timestamp :: u64
  cp_ledger_seq :: u32
  cp_sources_used :: "string list"
  cp_signature :: string

record price_cache =
  pc_prices :: "(string, cached_price) btree"
  pc_last_updated :: "system_time option"
  pc_last_submitted_medians :: "(string, i128) btree option"
  pc_last_full_submission :: "system_time option"

record cycle_status =
  cy_price_cycle_running :: bool
  cy_keeper_cycle_running :: bool
  cy_last_price_cycle_at :: "system_time option"
  cy_last_keeper_cycle_at :: "system_time option"
  cy_last_keeper_cycle_latency_ms :: "u64 option"

record keeper_execution =
  ke_timestamp :: system_time
  ke_operation :: string
  ke_key :: string
  ke_tx_hash :: "string option"
  ke_success :: bool
  ke_error :: "string option"

record keeper_status =
  ks_pending_orders :: nat
  ks_pending_deposits :: nat
  ks_pending_withdrawals :: nat
  ks_last_executions :: "keeper_execution list"

record failed_submission =
  fs_at :: system_time
  fs_operation :: string
  fs_network :: string
  fs_token :: string
  fs_symbol :: string
  fs_min :: i128
  fs_max :: i128
  fs_tx_hash :: "string option"
  fs_error :: string
  fs_timestamp :: u64
  fs_ledger_seq :: u32

section \<open>Bounded logs\<close>

text \<open>
  Both logs of the state, the ring buffer of failures and the deque of executions, keep the
  most recent entries up to a bound. The interface says so by the sequence of pushes.
\<close>

locale bounded_log =
  fixes push :: "'a \<Rightarrow> 'l \<Rightarrow> 'l" and items :: "'l \<Rightarrow> 'a list" and bound :: "'l \<Rightarrow> nat"
  assumes items_push: "length (items l) \<le> bound l \<Longrightarrow> 0 < bound l \<Longrightarrow>
      items (push x l) = drop (Suc (length (items l)) - bound l) (items l @ [x])"
    and bound_push: "bound (push x l) = bound l"
begin

lemma length_push: "length (items l) \<le> bound l \<Longrightarrow> 0 < bound l \<Longrightarrow> length (items (push x l)) \<le> bound l"
  by (simp add: items_push)

lemma last_push: "length (items l) \<le> bound l \<Longrightarrow> 0 < bound l \<Longrightarrow> last (items (push x l)) = x"
  by (simp add: items_push)

lemma push_all:
  "length (items l) \<le> bound l \<Longrightarrow> 0 < bound l \<Longrightarrow>
     items (fold push xs l) = drop (length (items l) + length xs - bound l) (items l @ xs)
     \<and> bound (fold push xs l) = bound l"
proof (induction xs arbitrary: l)
  case (Cons x xs)
  let ?l = "push x l"
  have b: "bound ?l = bound l" by (rule bound_push)
  have i: "items ?l = drop (Suc (length (items l)) - bound l) (items l @ [x])"
    by (rule items_push [OF Cons.prems])
  have "items (fold push xs ?l) = drop (length (items ?l) + length xs - bound l) (items ?l @ xs)"
    using Cons.IH [of ?l] Cons.prems b length_push [OF Cons.prems, of x] by simp
  also have "\<dots> = drop (length (items l) + length (x # xs) - bound l) (items l @ x # xs)"
  proof (cases "length (items l) < bound l")
    case True
    then have z: "Suc (length (items l)) - bound l = 0" by simp
    have "items ?l = items l @ [x]" using i unfolding z drop_0 .
    then show ?thesis by (simp del: drop_append)
  next
    case False
    then have len: "length (items l) = bound l" using Cons.prems by simp
    then have e: "items ?l = drop 1 (items l @ [x])" using i by simp
    then have "length (items ?l) = bound l" using len by simp
    then have "drop (length (items ?l) + length xs - bound l) (items ?l @ xs)
        = drop (length xs) (drop 1 (items l @ [x]) @ xs)" using e by simp
    also have "drop 1 (items l @ [x]) @ xs = drop 1 (items l @ x # xs)"
      using len Cons.prems(2) by (cases "items l") auto
    also have "drop (length xs) \<dots> = drop (length (items l) + length (x # xs) - bound l) (items l @ x # xs)"
      using len by (simp only: drop_drop) simp
    finally show ?thesis .
  qed
  finally show ?case using Cons.IH [of ?l] Cons.prems b length_push [OF Cons.prems, of x] by simp
qed simp

end

record 'a ring_buffer =
  rb_capacity :: nat
  rb_items :: "'a list"

definition FAILURE_RING_CAPACITY :: nat where "FAILURE_RING_CAPACITY = 256"

definition ring_new :: "nat \<Rightarrow> 'a ring_buffer" where
  "ring_new n = \<lparr>rb_capacity = n, rb_items = []\<rparr>"

text \<open>The eviction loop pops from the front while the buffer is full.\<close>

fun pop_while_full :: "nat \<Rightarrow> 'a list \<Rightarrow> 'a list" where
  "pop_while_full n [] = []"
| "pop_while_full n (x # xs) = (if n \<le> length (x # xs) then pop_while_full n xs else x # xs)"

definition ring_push :: "'a \<Rightarrow> 'a ring_buffer \<Rightarrow> 'a ring_buffer" where
  "ring_push x rb =
     (if rb_capacity rb = 0 then rb
      else rb\<lparr>rb_items := pop_while_full (rb_capacity rb) (rb_items rb) @ [x]\<rparr>)"

lemma pop_while_full_drop: "0 < n \<Longrightarrow> pop_while_full n xs = drop (Suc (length xs) - n) xs"
proof (induction xs)
  case (Cons x xs)
  then show ?case by (cases "n \<le> Suc (length xs)") (simp_all add: Suc_diff_le)
qed simp

interpretation ring: bounded_log ring_push rb_items rb_capacity
  by unfold_locales (simp_all add: ring_push_def pop_while_full_drop)

definition MAX_EXECUTIONS :: nat where "MAX_EXECUTIONS = 100"

definition push_execution :: "keeper_execution \<Rightarrow> keeper_status \<Rightarrow> keeper_status" where
  "push_execution e ks =
     (let es = ks_last_executions ks @ [e]
      in ks\<lparr>ks_last_executions := (if MAX_EXECUTIONS < length es then tl es else es)\<rparr>)"

interpretation executions: bounded_log push_execution ks_last_executions "\<lambda>_. MAX_EXECUTIONS"
proof
  fix l :: keeper_status and x
  assume "length (ks_last_executions l) \<le> MAX_EXECUTIONS" and "0 < MAX_EXECUTIONS"
  then show "ks_last_executions (push_execution x l) =
      drop (Suc (length (ks_last_executions l)) - MAX_EXECUTIONS) (ks_last_executions l @ [x])"
    by (cases "length (ks_last_executions l) = MAX_EXECUTIONS"; cases "ks_last_executions l")
      (auto simp: push_execution_def Let_def drop_Suc)
qed simp

section \<open>Admin logins\<close>

definition MAX_ADMIN_AUTH_FAILURES :: u32 where "MAX_ADMIN_AUTH_FAILURES = 5"
definition ADMIN_AUTH_WINDOW :: nat where "ADMIN_AUTH_WINDOW = 60 * 10 ^ 9"
definition MAX_TRACKED_ADMIN_CLIENTS :: nat where "MAX_TRACKED_ADMIN_CLIENTS = 10000"

text \<open>
  The failures of a client in its window. The table is a hash map: its entries, one per client.
  \<^verbatim>\<open>duration_since\<close> of a later instant is zero.
\<close>

type_synonym limiter = "(string \<times> u32 \<times> instant) list"

definition limiter_wf :: "limiter \<Rightarrow> bool" where
  "limiter_wf m \<longleftrightarrow> distinct (map fst m)"

definition limiter_blocked :: "limiter \<Rightarrow> string \<Rightarrow> instant \<Rightarrow> bool" where
  "limiter_blocked m client now =
     (case map_of m client of
        None \<Rightarrow> False
      | Some (count, start) \<Rightarrow> MAX_ADMIN_AUTH_FAILURES \<le> count \<and> now - start < ADMIN_AUTH_WINDOW)"

definition limiter_set :: "string \<Rightarrow> u32 \<times> instant \<Rightarrow> limiter \<Rightarrow> limiter" where
  "limiter_set client v m = (client, v) # filter (\<lambda>(c, _). c \<noteq> client) m"

definition limiter_record_failure :: "string \<Rightarrow> instant \<Rightarrow> limiter \<Rightarrow> limiter" where
  "limiter_record_failure client now m =
     (let m1 = (if MAX_TRACKED_ADMIN_CLIENTS \<le> length m
                then filter (\<lambda>(_, _, start). now - start < ADMIN_AUTH_WINDOW) m else m);
          entry = (case map_of m1 client of None \<Rightarrow> (0, now) | Some e \<Rightarrow> e);
          entry = (if ADMIN_AUTH_WINDOW \<le> now - snd entry then (0, now) else entry)
      in limiter_set client (fst entry + 1, snd entry) m1)"

definition limiter_record_success :: "string \<Rightarrow> limiter \<Rightarrow> limiter" where
  "limiter_record_success client m = filter (\<lambda>(c, _). c \<noteq> client) m"

text \<open>\<^verbatim>\<open>constant_time_eq\<close> looks at every byte of the longer argument.\<close>

definition byte_at :: "string \<Rightarrow> nat \<Rightarrow> nat" where
  "byte_at s i = (if i < length s then of_char (s ! i) else 0)"

definition constant_time_eq :: "string \<Rightarrow> string \<Rightarrow> bool" where
  "constant_time_eq left right =
     (foldl (\<lambda>diff i. or diff (xor (byte_at left i) (byte_at right i)))
        (xor (length left) (length right)) [0..<max (length left) (length right)] = 0)"

section \<open>Configuration\<close>

record config =
  cf_network :: string
  cf_network_passphrase :: string
  cf_stellar_rpc_url :: string
  cf_horizon_url :: string
  cf_oracle_contract_id :: string
  cf_data_store_contract_id :: string
  cf_order_handler_contract_id :: string
  cf_deposit_handler_contract_id :: string
  cf_withdrawal_handler_contract_id :: string
  cf_reader_contract_id :: string
  cf_keeper_private_key :: string
  cf_keeper_secret_key :: string
  cf_keeper_account_id :: string
  cf_keeper_index :: u32
  cf_admin_api_token :: "string option"
  cf_pyth_api_key :: "string option"
  cf_min_keeper_balance_xlm :: f64
  cf_set_prices_tx_fee :: u32
  cf_keeper_tx_fee :: u32
  cf_price_loop_interval_ms :: nat
  cf_keeper_loop_interval_ms :: nat
  cf_tokens :: "token_config list"
  cf_coinbase_base_url :: string
  cf_binance_base_url :: string

section \<open>The shared state\<close>

record ready_cache =
  rc_last_checked :: "instant option"
  rc_last_error :: "(u16 \<times> string) option"

record app_state =
  st_price_cache :: price_cache
  st_cycle_status :: cycle_status
  st_failures :: "failed_submission ring_buffer"
  st_keeper_status :: keeper_status
  st_in_flight :: "string \<rightharpoonup> instant"
  st_ready_cache :: ready_cache
  st_metrics :: metrics
  st_freeze_failures :: "string \<rightharpoonup> u32"
  st_blacklist :: "string \<rightharpoonup> u32"
  st_execution_failures :: "string \<rightharpoonup> u32"
  st_balance_below_min :: bool
  st_generation :: u64
  st_limiter :: limiter
  st_start_index :: u32

definition MAX_CONSECUTIVE_FREEZE_FAILURES :: u32 where "MAX_CONSECUTIVE_FREEZE_FAILURES = 3"
definition MAX_CONSECUTIVE_EXECUTION_FAILURES :: u32 where "MAX_CONSECUTIVE_EXECUTION_FAILURES = 5"
definition IN_FLIGHT_EXPIRY :: nat where "IN_FLIGHT_EXPIRY = 300 * 10 ^ 9"

definition app_state_new :: app_state where
  "app_state_new =
     \<lparr>st_price_cache = \<lparr>pc_prices = [], pc_last_updated = None, pc_last_submitted_medians = None,
        pc_last_full_submission = None\<rparr>,
      st_cycle_status = \<lparr>cy_price_cycle_running = False, cy_keeper_cycle_running = False,
        cy_last_price_cycle_at = None, cy_last_keeper_cycle_at = None,
        cy_last_keeper_cycle_latency_ms = None\<rparr>,
      st_failures = ring_new FAILURE_RING_CAPACITY,
      st_keeper_status = \<lparr>ks_pending_orders = 0, ks_pending_deposits = 0, ks_pending_withdrawals = 0,
        ks_last_executions = []\<rparr>,
      st_in_flight = Map.empty, st_ready_cache = \<lparr>rc_last_checked = None, rc_last_error = None\<rparr>,
      st_metrics = metrics_new, st_freeze_failures = Map.empty, st_blacklist = Map.empty,
      st_execution_failures = Map.empty, st_balance_below_min = False, st_generation = 0,
      st_limiter = [], st_start_index = 0\<rparr>"

text \<open>
  The bounds every operation keeps: both logs are bounded, and the cached prices are in the
  order of their keys.
\<close>

definition logs_bounded :: "app_state \<Rightarrow> bool" where
  "logs_bounded s \<longleftrightarrow>
     rb_capacity (st_failures s) = FAILURE_RING_CAPACITY
     \<and> length (rb_items (st_failures s)) \<le> FAILURE_RING_CAPACITY
     \<and> length (ks_last_executions (st_keeper_status s)) \<le> MAX_EXECUTIONS"

lemma logs_bounded_new: "logs_bounded app_state_new"
  by (simp add: logs_bounded_def app_state_new_def ring_new_def)

lemma logs_bounded_push_failure:
  "logs_bounded s \<Longrightarrow> logs_bounded (s\<lparr>st_failures := ring_push f (st_failures s)\<rparr>)"
  using ring.length_push [of "st_failures s" f] ring.bound_push [of f "st_failures s"]
  by (simp add: logs_bounded_def FAILURE_RING_CAPACITY_def)

lemma logs_bounded_push_execution:
  "logs_bounded s \<Longrightarrow> logs_bounded (s\<lparr>st_keeper_status := push_execution e (st_keeper_status s)\<rparr>)"
  using executions.length_push [of "st_keeper_status s" e]
  by (simp add: logs_bounded_def MAX_EXECUTIONS_def)

section \<open>Limiter and comparison lemmas\<close>

lemma map_of_filter_other:
  "map_of (filter (\<lambda>(c, _). c \<noteq> k) m) k' = (if k' = k then None else map_of m k')"
  by (induction m) auto

lemma limiter_set_get: "map_of (limiter_set c v m) c' = (if c' = c then Some v else map_of m c')"
  by (simp add: limiter_set_def map_of_filter_other)

lemma limiter_set_wf: "limiter_wf m \<Longrightarrow> limiter_wf (limiter_set c v m)"
  by (auto simp: limiter_wf_def limiter_set_def distinct_map intro: inj_on_subset)

lemma xor_eq_0_nat: "xor (a :: nat) b = 0 \<longleftrightarrow> a = b"
proof
  assume h: "xor a b = 0"
  show "a = b"
  proof (rule bit_eqI)
    fix n
    have "bit (xor a b) n = (bit a n \<noteq> bit b n)" by (rule bit_xor_iff)
    then show "bit a n = bit b n" unfolding h by simp
  qed
qed simp

lemma constant_time_fold:
  "foldl (\<lambda>diff i. or diff (xor (byte_at l i) (byte_at r i))) d xs = 0 \<longleftrightarrow>
     d = 0 \<and> (\<forall>i \<in> set xs. byte_at l i = byte_at r i)"
  by (induction xs arbitrary: d) (simp_all add: or_eq_0_iff xor_eq_0_nat)

lemma constant_time_eq_iff: "constant_time_eq l r \<longleftrightarrow> l = r"
proof
  assume "constant_time_eq l r"
  then have len: "length l = length r" and bytes: "\<forall>i < length l. byte_at l i = byte_at r i"
    by (simp_all add: constant_time_eq_def constant_time_fold xor_eq_0_nat)
  show "l = r"
  proof (rule nth_equalityI [OF len])
    fix i
    assume i: "i < length l"
    then have "(of_char (l ! i) :: nat) = of_char (r ! i)" using bytes len by (simp add: byte_at_def)
    then show "l ! i = r ! i" by (simp only: of_char_eq_iff)
  qed
qed (simp only: constant_time_eq_def constant_time_fold xor_eq_0_nat, simp)

end
