(* ===== verification/Oracle_Chain.thy ===== *)
theory Oracle_Chain
  imports Oracle_State
begin

text \<open>
  What goes on chain: contract values (\<^verbatim>\<open>chain/scval.rs\<close>), transactions and their signatures
  (\<^verbatim>\<open>chain/tx_builder.rs\<close>) and the signed price message (\<^verbatim>\<open>signing.rs\<close>). Hex, base64, strkeys,
  XDR, SHA-256 and ed25519 are library code and a parameter, \<open>chain\<close>. Bytes are a \<^typ>\<open>string\<close>,
  a decoded key is its seed.
\<close>

section \<open>Data\<close>

datatype strkey = PublicKeyStrkey string | ContractStrkey string | OtherStrkey string

datatype sc_address = AccountAddress string | ContractAddress string

datatype scval =
    ScU32 u32
  | ScU64 u64
  | ScI128 i64 u64
  | ScBytes string
  | ScSymbol string
  | ScAddress sc_address
  | ScVec "scval list"
  | ScMap "(scval \<times> scval) list"

record invoke_args =
  ia_contract :: sc_address
  ia_function :: string
  ia_args :: "scval list"

datatype preconditions = NoPreconditions | TimePreconditions u64 u64

record transaction =
  tx_source :: string
  tx_fee :: u32
  tx_seq_num :: i64
  tx_cond :: preconditions
  tx_operations :: "invoke_args list"
  tx_soroban_data :: "string option"

record decorated_signature =
  ds_hint :: string
  ds_signature :: string

text \<open>
  The library: decoders fail with a message; \<open>ch_symbol_fits\<close> is the length check of a symbol
  and \<open>ch_vec_error\<close> that of a vector of the given length.
\<close>

record chain =
  ch_hex_decode :: "string \<Rightarrow> (string, string) outcome"
  ch_hex_encode :: "string \<Rightarrow> string"
  ch_strkey :: "string \<Rightarrow> (string, strkey) outcome"
  ch_strkey_debug :: "strkey \<Rightarrow> string"
  ch_private_strkey :: "string \<Rightarrow> (string, string) outcome"
  ch_symbol_fits :: "string \<Rightarrow> bool"
  ch_vec_error :: "nat \<Rightarrow> string option"
  ch_sha256 :: "string \<Rightarrow> string"
  ch_sign :: "string \<Rightarrow> string \<Rightarrow> string"
  ch_verifying_key :: "string \<Rightarrow> string"
  ch_payload_xdr :: "string \<Rightarrow> transaction \<Rightarrow> (string, string) outcome"
  ch_envelope_xdr :: "transaction \<Rightarrow> decorated_signature list \<Rightarrow> (string, string) outcome"
  ch_base64 :: "string \<Rightarrow> string"
  ch_base64_decode :: "string \<Rightarrow> string option"

definition apostrophe :: string where "apostrophe = [char_of (39 :: nat)]"

section \<open>Addresses and integers\<close>

definition invalid_strkey :: "string \<Rightarrow> string \<Rightarrow> string" where
  "invalid_strkey key e = ''invalid strkey '' @ apostrophe @ key @ apostrophe @ '': '' @ e"

definition strkey_to_sc_address :: "chain \<Rightarrow> string \<Rightarrow> (string, sc_address) outcome" where
  "strkey_to_sc_address ch key =
     bind_outcome (map_err (invalid_strkey key) (ch_strkey ch key)) (\<lambda>decoded.
       case decoded of
         PublicKeyStrkey pk \<Rightarrow> Ok (AccountAddress pk)
       | ContractStrkey c \<Rightarrow> Ok (ContractAddress c)
       | OtherStrkey _ \<Rightarrow> Err (''unsupported strkey type: '' @ ch_strkey_debug ch decoded))"

definition account_strkey_to_muxed :: "chain \<Rightarrow> string \<Rightarrow> (string, string) outcome" where
  "account_strkey_to_muxed ch key =
     bind_outcome (map_err (invalid_strkey key) (ch_strkey ch key)) (\<lambda>decoded.
       case decoded of
         PublicKeyStrkey pk \<Rightarrow> Ok pk
       | _ \<Rightarrow> Err (''expected G... account strkey, got: '' @ ch_strkey_debug ch decoded))"

text \<open>An arithmetic shift and a truncating cast.\<close>

definition i128_to_int128_parts :: "i128 \<Rightarrow> i64 \<times> u64" where
  "i128_to_int128_parts v = (v div 2 ^ 64, nat (v mod 2 ^ 64))"

definition int128_of_parts :: "i64 \<Rightarrow> u64 \<Rightarrow> i128" where
  "int128_of_parts hi lo = hi * 2 ^ 64 + int lo"

definition sc_i128 :: "i128 \<Rightarrow> scval" where
  "sc_i128 v = (case i128_to_int128_parts v of (hi, lo) \<Rightarrow> ScI128 hi lo)"

definition sc_map_entry :: "string \<Rightarrow> scval \<Rightarrow> scval \<times> scval" where
  "sc_map_entry key val = (ScSymbol key, val)"

section \<open>Prices as contract values\<close>

definition encode_signed_price :: "chain \<Rightarrow> cached_price \<Rightarrow> (string, scval) outcome" where
  "encode_signed_price ch price =
     bind_outcome (map_err (\<lambda>e. ''invalid signature hex: '' @ e) (ch_hex_decode ch (cp_signature price)))
       (\<lambda>sig_bytes.
     if length sig_bytes \<noteq> 64
     then Err (''signature must be 64 bytes, got '' @ nat_digits (length sig_bytes))
     else bind_outcome (strkey_to_sc_address ch (cp_token_address price)) (\<lambda>contract_addr.
       Ok (ScMap
         [sc_map_entry ''keeper_index'' (ScU32 (cp_keeper_index price)),
          sc_map_entry ''ledger_seq'' (ScU32 (cp_ledger_seq price)),
          sc_map_entry ''max_price'' (sc_i128 (cp_max price)),
          sc_map_entry ''min_price'' (sc_i128 (cp_min price)),
          sc_map_entry ''signature'' (ScBytes sig_bytes),
          sc_map_entry ''timestamp'' (ScU64 (cp_timestamp price)),
          sc_map_entry ''token'' (ScAddress contract_addr)])))"

text \<open>\<^verbatim>\<open>collect::<Result<Vec<_>, _>>()\<close>: the first failure wins.\<close>

fun map_outcome :: "('a \<Rightarrow> ('e, 'b) outcome) \<Rightarrow> 'a list \<Rightarrow> ('e, 'b list) outcome" where
  "map_outcome f [] = Ok []"
| "map_outcome f (x # xs) =
     bind_outcome (f x) (\<lambda>y. bind_outcome (map_outcome f xs) (\<lambda>ys. Ok (y # ys)))"

definition to_vec :: "chain \<Rightarrow> string \<Rightarrow> 'a list \<Rightarrow> (string, 'a list) outcome" where
  "to_vec ch context xs =
     (case ch_vec_error ch (length xs) of None \<Rightarrow> Ok xs | Some e \<Rightarrow> Err (context @ e))"

definition encode_prices_vec :: "chain \<Rightarrow> cached_price list \<Rightarrow> (string, scval) outcome" where
  "encode_prices_vec ch prices =
     bind_outcome (map_outcome (encode_signed_price ch) prices) (\<lambda>vals.
     bind_outcome (to_vec ch ''failed to build ScVec: '' vals) (\<lambda>vec. Ok (ScVec vec)))"

section \<open>Transactions\<close>

definition TX_MAX_TIME_SECS :: u64 where "TX_MAX_TIME_SECS = 60"

text \<open>\<^verbatim>\<open>sequence as i64\<close> reinterprets the bits.\<close>

definition u64_as_i64 :: "u64 \<Rightarrow> i64" where
  "u64_as_i64 n = (if n < 2 ^ 63 then int n else int n - 2 ^ 64)"

definition build_invoke_tx ::
  "chain \<Rightarrow> string \<Rightarrow> string \<Rightarrow> string \<Rightarrow> scval list \<Rightarrow> u32 \<Rightarrow> u64 \<Rightarrow> string option \<Rightarrow> u64
    \<Rightarrow> (string, transaction) outcome" where
  "build_invoke_tx ch source_account contract_id meth args fee sequence soroban_data max_time =
     bind_outcome (account_strkey_to_muxed ch source_account) (\<lambda>source_muxed.
     bind_outcome (strkey_to_sc_address ch contract_id) (\<lambda>contract_addr.
     if \<not> ch_symbol_fits ch meth then Err ''method name too long for ScSymbol''
     else bind_outcome (to_vec ch ''failed to convert args to VecM: '' args) (\<lambda>args.
     bind_outcome (to_vec ch ''failed to build operations VecM: ''
         [\<lparr>ia_contract = contract_addr, ia_function = meth, ia_args = args\<rparr>]) (\<lambda>operations.
       Ok \<lparr>tx_source = source_muxed, tx_fee = fee, tx_seq_num = u64_as_i64 sequence,
           tx_cond = (if 0 < max_time then TimePreconditions 0 max_time else NoPreconditions),
           tx_operations = operations, tx_soroban_data = soroban_data\<rparr>))))"

definition is_hex_digit :: "char \<Rightarrow> bool" where
  "is_hex_digit c \<longleftrightarrow> is_digit c
     \<or> (65 \<le> (of_char c :: nat) \<and> (of_char c :: nat) \<le> 70)
     \<or> (97 \<le> (of_char c :: nat) \<and> (of_char c :: nat) \<le> 102)"

definition signing_key_from_secret :: "chain \<Rightarrow> string \<Rightarrow> (string, string) outcome" where
  "signing_key_from_secret ch secret_key =
     bind_outcome
       (if starts_with secret_key ''S''
        then map_err (\<lambda>e. ''invalid secret strkey: '' @ e) (ch_private_strkey ch secret_key)
        else if length secret_key = 64 \<and> list_all is_hex_digit secret_key
        then map_err (\<lambda>e. ''invalid secret key hex: '' @ e) (ch_hex_decode ch secret_key)
        else Err (''secret key must be an S-prefixed strkey or 64-char hex (got ''
               @ nat_digits (length secret_key) @ '' chars, non-hex or wrong prefix)''))
       (\<lambda>raw. if length raw \<noteq> 32
              then Err (''secret key must be 32 bytes, got '' @ nat_digits (length raw))
              else Ok raw)"

definition compute_network_id :: "chain \<Rightarrow> string \<Rightarrow> string" where
  "compute_network_id ch passphrase = ch_sha256 ch passphrase"

definition sign_transaction_with_key ::
  "chain \<Rightarrow> transaction \<Rightarrow> string \<Rightarrow> string \<Rightarrow> (string, string) outcome" where
  "sign_transaction_with_key ch tx signing_key network_passphrase =
     bind_outcome (map_err (\<lambda>e. ''failed to serialize payload: '' @ e)
         (ch_payload_xdr ch (compute_network_id ch network_passphrase) tx)) (\<lambda>payload_bytes.
     let signature = ch_sign ch signing_key (ch_sha256 ch payload_bytes);
         hint = take 4 (drop 28 (ch_verifying_key ch signing_key))
     in if 64 < length signature then Err ''signature too long for BytesM<64>''
        else bind_outcome (to_vec ch ''failed to build signatures VecM: ''
               [\<lparr>ds_hint = hint, ds_signature = signature\<rparr>]) (\<lambda>sigs.
             bind_outcome (map_err (\<lambda>e. ''failed to serialize envelope: '' @ e)
               (ch_envelope_xdr ch tx sigs)) (\<lambda>envelope_bytes. Ok (ch_base64 ch envelope_bytes))))"

definition sign_transaction :: "chain \<Rightarrow> transaction \<Rightarrow> string \<Rightarrow> string \<Rightarrow> (string, string) outcome" where
  "sign_transaction ch tx secret_key network_passphrase =
     bind_outcome (signing_key_from_secret ch secret_key) (\<lambda>signing_key.
       sign_transaction_with_key ch tx signing_key network_passphrase)"

section \<open>The signed price message\<close>

datatype signing_error = MissingPrivateKey | InvalidHexKey | InvalidKeyLength

fun signing_error_message :: "signing_error \<Rightarrow> string" where
  "signing_error_message MissingPrivateKey = ''KEEPER_PRIVATE_KEY is not set''"
| "signing_error_message InvalidHexKey = ''KEEPER_PRIVATE_KEY is not valid hex''"
| "signing_error_message InvalidKeyLength =
     ''KEEPER_PRIVATE_KEY must be exactly 32 bytes (64 hex chars)''"

text \<open>\<^verbatim>\<open>to_be_bytes\<close> of an unsigned value of \<open>k\<close> bytes.\<close>

fun be_bytes :: "nat \<Rightarrow> nat \<Rightarrow> string" where
  "be_bytes 0 n = []"
| "be_bytes (Suc k) n = be_bytes k (n div 256) @ [char_of (n mod 256)]"

definition i128_be_bytes :: "i128 \<Rightarrow> string" where
  "i128_be_bytes v = be_bytes 16 (nat (v mod 2 ^ 128))"

definition build_price_message :: "string \<Rightarrow> u32 \<Rightarrow> string \<Rightarrow> i128 \<Rightarrow> i128 \<Rightarrow> u64 \<Rightarrow> string" where
  "build_price_message network_passphrase ledger_seq token_strkey lo hi timestamp =
     network_passphrase @ be_bytes 4 ledger_seq @ token_strkey
       @ i128_be_bytes lo @ i128_be_bytes hi @ be_bytes 8 timestamp"

definition signing_key_from_hex :: "chain \<Rightarrow> string \<Rightarrow> (signing_error, string) outcome" where
  "signing_key_from_hex ch private_key_hex =
     bind_outcome (map_err (\<lambda>_. InvalidHexKey) (ch_hex_decode ch private_key_hex)) (\<lambda>key_bytes.
       if length key_bytes = 32 then Ok key_bytes else Err InvalidKeyLength)"

definition sign_price_with_key ::
  "chain \<Rightarrow> string \<Rightarrow> string \<Rightarrow> u32 \<Rightarrow> string \<Rightarrow> i128 \<Rightarrow> i128 \<Rightarrow> u64 \<Rightarrow> string" where
  "sign_price_with_key ch signing_key network_passphrase ledger_seq token_strkey lo hi timestamp =
     ch_sign ch signing_key
       (build_price_message network_passphrase ledger_seq token_strkey lo hi timestamp)"

definition sign_price ::
  "chain \<Rightarrow> string \<Rightarrow> string \<Rightarrow> u32 \<Rightarrow> string \<Rightarrow> i128 \<Rightarrow> i128 \<Rightarrow> u64 \<Rightarrow> (signing_error, string) outcome" where
  "sign_price ch private_key_hex network_passphrase ledger_seq token_strkey lo hi timestamp =
     bind_outcome (signing_key_from_hex ch private_key_hex) (\<lambda>signing_key.
       Ok (sign_price_with_key ch signing_key network_passphrase ledger_seq token_strkey lo hi timestamp))"

section \<open>Encodings\<close>

lemma parts_inverse: "int128_of_parts (fst (i128_to_int128_parts v)) (snd (i128_to_int128_parts v)) = v"
  by (simp add: int128_of_parts_def i128_to_int128_parts_def)

lemma parts_range:
  assumes "in_i128 v"
  shows "in_i64 (fst (i128_to_int128_parts v))" and "snd (i128_to_int128_parts v) \<le> u64_max"
proof -
  have "- (2 ^ 63) * 2 ^ 64 \<le> v" and "v < 2 ^ 63 * 2 ^ 64" using assms by (simp_all add: int_ops)
  then have "- (2 ^ 63) \<le> v div 2 ^ 64" and "v div 2 ^ 64 < 2 ^ 63" by simp_all
  then show "in_i64 (fst (i128_to_int128_parts v))"
    by (simp add: i128_to_int128_parts_def in_i64_def i64_min_def i64_max_def)
  have "v mod 2 ^ 64 < 2 ^ 64" and "0 \<le> v mod 2 ^ 64" by simp_all
  then show "snd (i128_to_int128_parts v) \<le> u64_max"
    by (simp add: i128_to_int128_parts_def u64_max_def nat_le_iff)
qed

lemma length_be_bytes [simp]: "length (be_bytes k n) = k"
  by (induction k arbitrary: n) simp_all

lemma be_bytes_inject:
  "m < 256 ^ k \<Longrightarrow> n < 256 ^ k \<Longrightarrow> be_bytes k m = be_bytes k n \<longleftrightarrow> m = n"
proof (induction k arbitrary: m n)
  case (Suc k)
  have d: "m div 256 < 256 ^ k" "n div 256 < 256 ^ k"
    using Suc.prems by (simp_all add: less_mult_imp_div_less mult.commute)
  have "char_of (m mod 256) = (char_of (n mod 256) :: char) \<longleftrightarrow> m mod 256 = n mod 256"
    by (metis char_of_mod_256 mod_mod_trivial of_char_of)
  then show ?case using Suc.IH [OF d] by (auto) (metis div_mult_mod_eq)
qed simp

lemma i128_be_bytes_inject:
  assumes "in_i128 a" and "in_i128 b"
  shows "i128_be_bytes a = i128_be_bytes b \<longleftrightarrow> a = b"
proof -
  have lt: "nat (x mod 2 ^ 128) < 256 ^ 16" for x :: int
  proof -
    have "x mod 2 ^ 128 < 2 ^ 128" by simp
    then have "nat (x mod 2 ^ 128) < nat (2 ^ 128)" by (subst nat_less_eq_zless) simp_all
    then show ?thesis by simp
  qed
  have "nat (a mod 2 ^ 128) = nat (b mod 2 ^ 128) \<longleftrightarrow> a mod 2 ^ 128 = b mod 2 ^ 128"
    by (rule eq_nat_nat_iff) simp_all
  moreover have "a mod 2 ^ 128 = b mod 2 ^ 128 \<longleftrightarrow> a = b"
  proof
    assume "a mod 2 ^ 128 = b mod 2 ^ 128"
    then have "2 ^ 128 dvd a - b" by (simp only: mod_eq_dvd_iff)
    moreover have "\<bar>a - b\<bar> < 2 ^ 128" using assms by (simp add: int_ops abs_less_iff)
    ultimately show "a = b" using zdvd_imp_le [of "2 ^ 128" "\<bar>a - b\<bar>"] by (cases "a - b = 0") auto
  qed simp
  ultimately show ?thesis by (simp only: i128_be_bytes_def be_bytes_inject [OF lt lt])
qed

lemma length_i128_be_bytes [simp]: "length (i128_be_bytes v) = 16"
  by (simp add: i128_be_bytes_def)

lemma price_message_fields:
  "build_price_message p l t a b ts = build_price_message p l' t' a' b' ts' \<longleftrightarrow>
     be_bytes 4 l = be_bytes 4 l' \<and> t = t' \<and> i128_be_bytes a = i128_be_bytes a'
     \<and> i128_be_bytes b = i128_be_bytes b' \<and> be_bytes 8 ts = be_bytes 8 ts'"
proof -
  have split: "t @ x = t' @ y \<longleftrightarrow> t = t' \<and> x = y" if "length x = length y" for x y :: string
    using that by (simp add: append_eq_append_conv)
  show ?thesis by (auto simp: build_price_message_def append_eq_append_conv split simp del: append_assoc
        simp flip: append_assoc)
qed

section \<open>Properties\<close>

text \<open>
  C30: A price that is encoded for the contract carries exactly the signed bounds: the two
  128-bit parts are a 64-bit high and low word that give back the value, and the entries of the
  contract map are in the strict order of their keys that the ledger requires.
\<close>

theorem encode_signed_price_faithful:
  assumes "encode_signed_price ch price = Ok v" and "in_i128 (cp_min price)" and "in_i128 (cp_max price)"
  shows "\<exists>entries hi lo hi' lo'. v = ScMap entries
    \<and> map_of entries (ScSymbol ''min_price'') = Some (ScI128 hi lo)
    \<and> map_of entries (ScSymbol ''max_price'') = Some (ScI128 hi' lo')
    \<and> int128_of_parts hi lo = cp_min price \<and> in_i64 hi \<and> lo \<le> u64_max
    \<and> int128_of_parts hi' lo' = cp_max price \<and> in_i64 hi' \<and> lo' \<le> u64_max
    \<and> (\<exists>keys. map fst entries = map ScSymbol keys \<and> sorted_wrt (<) keys)"
proof -
  let ?keys = "[''keeper_index'', ''ledger_seq'', ''max_price'', ''min_price'', ''signature'', ''timestamp'', ''token'']"
  have sorted: "sorted_wrt (<) ?keys" by (simp add: less_char_def)
  obtain sig addr where v: "v = ScMap
         [sc_map_entry ''keeper_index'' (ScU32 (cp_keeper_index price)),
          sc_map_entry ''ledger_seq'' (ScU32 (cp_ledger_seq price)),
          sc_map_entry ''max_price'' (sc_i128 (cp_max price)),
          sc_map_entry ''min_price'' (sc_i128 (cp_min price)),
          sc_map_entry ''signature'' (ScBytes sig),
          sc_map_entry ''timestamp'' (ScU64 (cp_timestamp price)),
          sc_map_entry ''token'' (ScAddress addr)]" (is "v = ScMap ?es")
    using assms(1) by (auto simp: encode_signed_price_def outcome_ops split: if_splits)
  have sc: "sc_i128 x = ScI128 (fst (i128_to_int128_parts x)) (snd (i128_to_int128_parts x))" for x
    by (simp add: sc_i128_def case_prod_beta)
  have "map_of ?es (ScSymbol ''min_price'') = Some (sc_i128 (cp_min price))"
    and "map_of ?es (ScSymbol ''max_price'') = Some (sc_i128 (cp_max price))"
    and "map fst ?es = map ScSymbol ?keys"
    by (simp_all add: sc_map_entry_def)
  then show ?thesis
    using v sorted parts_inverse parts_range [OF assms(2)] parts_range [OF assms(3)] unfolding sc by blast
qed

definition the_ok :: "('e, 'a) outcome \<Rightarrow> 'a" where
  "the_ok m = (case m of Ok a \<Rightarrow> a)"

definition sample_chain :: chain where
  "sample_chain =
     \<lparr>ch_hex_decode = (\<lambda>s. Ok s), ch_hex_encode = (\<lambda>s. s), ch_strkey = (\<lambda>s. Ok (PublicKeyStrkey s)),
      ch_strkey_debug = (\<lambda>_. ''key''), ch_private_strkey = (\<lambda>s. Ok s), ch_symbol_fits = (\<lambda>s. length s \<le> 32),
      ch_vec_error = (\<lambda>_. None), ch_sha256 = (\<lambda>s. s), ch_sign = (\<lambda>k m. replicate 64 (CHR ''s'')),
      ch_verifying_key = (\<lambda>k. k), ch_payload_xdr = (\<lambda>_ _. Ok ''payload''),
      ch_envelope_xdr = (\<lambda>_ _. Ok ''envelope''), ch_base64 = (\<lambda>s. s), ch_base64_decode = (\<lambda>s. None)\<rparr>"

definition sample_price :: cached_price where
  "sample_price =
     \<lparr>cp_token_address = ''CTOKEN'', cp_symbol = ''T'', cp_display_symbol = ''T'', cp_keeper_index = 0,
      cp_min = - 5, cp_max = 2 ^ 100, cp_median = 7, cp_timestamp = 1700000000, cp_ledger_seq = 100,
      cp_sources_used = [''fixed''], cp_signature = replicate 64 (CHR ''s'')\<rparr>"

theorem encode_signed_price_faithful_witness:
  "\<exists>entries hi lo hi' lo'. the_ok (encode_signed_price sample_chain sample_price) = ScMap entries
    \<and> map_of entries (ScSymbol ''min_price'') = Some (ScI128 hi lo)
    \<and> map_of entries (ScSymbol ''max_price'') = Some (ScI128 hi' lo')
    \<and> int128_of_parts hi lo = cp_min sample_price \<and> in_i64 hi \<and> lo \<le> u64_max
    \<and> int128_of_parts hi' lo' = cp_max sample_price \<and> in_i64 hi' \<and> lo' \<le> u64_max
    \<and> (\<exists>keys. map fst entries = map ScSymbol keys \<and> sorted_wrt (<) keys)"
proof (rule encode_signed_price_faithful)
  show "encode_signed_price sample_chain sample_price = Ok (the_ok (encode_signed_price sample_chain sample_price))"
    by (simp add: encode_signed_price_def strkey_to_sc_address_def sample_chain_def sample_price_def the_ok_def)
qed (simp_all add: sample_price_def int_ops)

text \<open>
  C31: On one network the signed message determines what was signed: two messages for the same
  passphrase are equal only if ledger, token, both bounds and the timestamp are.
\<close>

theorem price_message_injective:
  assumes "l \<le> u32_max" and "l' \<le> u32_max" and "in_i128 a" and "in_i128 a'" and "in_i128 b" and "in_i128 b'"
    and "ts \<le> u64_max" and "ts' \<le> u64_max"
    and "build_price_message p l t a b ts = build_price_message p l' t' a' b' ts'"
  shows "l = l' \<and> t = t' \<and> a = a' \<and> b = b' \<and> ts = ts'"
proof -
  have "l < 256 ^ 4" "l' < 256 ^ 4" "ts < 256 ^ 8" "ts' < 256 ^ 8"
    using assms by (simp_all add: u32_max_def u64_max_def)
  then show ?thesis
    using assms(9) by (simp only: price_message_fields be_bytes_inject i128_be_bytes_inject [OF assms(3,4)]
        i128_be_bytes_inject [OF assms(5,6)])
qed

theorem price_message_injective_witness:
  "100 = (100 :: nat) \<and> ''CT'' = ''CT'' \<and> (- 1) = (- 1 :: int) \<and> 5 = (5 :: int) \<and> 1 = (1 :: nat)"
  by (rule price_message_injective [where p = "''net''"]) (simp_all add: u32_max_def u64_max_def int_ops)

end
