(* ===== verification/Oracle_Handler.thy ===== *)
theory Oracle_Handler
  imports Oracle_Chain
begin

text \<open>
  The contract calls of the keeper (\<^verbatim>\<open>keeper_loop.rs\<close>): their errors, the simulation of a
  reader call, the publication of prices, and the execution of a handler with the account
  sequence that one cycle shares. All of them act on the outside world only; the shared state
  is not touched here.
\<close>

section \<open>The system\<close>

text \<open>\<^verbatim>\<open>serde_json::Value\<close>; \<^verbatim>\<open>as_u64\<close> is \<open>Some\<close> exactly for \<open>JUInt\<close>.\<close>

datatype json_value =
    JNull
  | JBool bool
  | JUInt u64
  | JNumber string
  | JString string
  | JArray "json_value list"
  | JObject "(string \<times> json_value) list"

record json_codec =
  js_parse :: "string \<Rightarrow> (string, json_value) outcome"
  js_text :: "json_value \<Rightarrow> string"

text \<open>The outside world, the libraries, the configuration and the keys decoded at startup.\<close>

record 'w system =
  sy_env :: "'w env"
  sy_codec :: codec
  sy_chain :: chain
  sy_json :: json_codec
  sy_http_json :: json
  sy_config :: config
  sy_price_key :: "string option"
  sy_tx_key :: "string option"

fun ok_option :: "('e, 'a) outcome \<Rightarrow> 'a option" where
  "ok_option (Ok a) = Some a"
| "ok_option _ = None"

definition system_new ::
  "'w env \<Rightarrow> codec \<Rightarrow> chain \<Rightarrow> json_codec \<Rightarrow> json \<Rightarrow> config \<Rightarrow> 'w system" where
  "system_new env cd ch js hj cfg =
     \<lparr>sy_env = env, sy_codec = cd, sy_chain = ch, sy_json = js, sy_http_json = hj, sy_config = cfg,
      sy_price_key = ok_option (signing_key_from_hex ch (cf_keeper_private_key cfg)),
      sy_tx_key = ok_option (signing_key_from_secret ch (cf_keeper_secret_key cfg))\<rparr>"

text \<open>An action on the second component of a state.\<close>

definition lift_snd :: "('w, 'e, 'a) action \<Rightarrow> ('c \<times> 'w, 'e, 'a) action" where
  "lift_snd m = (\<lambda>(c, w). case m w of (r, w') \<Rightarrow> (r, (c, w')))"

section \<open>Errors\<close>

record handler_error =
  he_message :: string
  he_submit :: "submit_error option"

definition handler_local :: "string \<Rightarrow> handler_error" where
  "handler_local message = \<lparr>he_message = message, he_submit = None\<rparr>"

definition handler_submitted :: "codec \<Rightarrow> string \<Rightarrow> submit_error \<Rightarrow> handler_error" where
  "handler_submitted cd operation submit =
     \<lparr>he_message = operation @ '' submit failed: '' @ submit_error_message cd submit, he_submit = Some submit\<rparr>"

definition handler_may_still_confirm :: "handler_error \<Rightarrow> bool" where
  "handler_may_still_confirm e = (case he_submit e of None \<Rightarrow> False | Some s \<Rightarrow> may_still_confirm s)"

definition handler_diagnostic_events :: "handler_error \<Rightarrow> string list" where
  "handler_diagnostic_events e = (case he_submit e of None \<Rightarrow> [] | Some s \<Rightarrow> diagnostic_events s)"

definition handler_tx_hash :: "handler_error \<Rightarrow> string option" where
  "handler_tx_hash e = (case he_submit e of Some (PollTimeout hash) \<Rightarrow> Some hash | _ \<Rightarrow> None)"

definition BUDGET_EXCEEDED_PATTERN :: string where "BUDGET_EXCEEDED_PATTERN = ''Budget, ExceededLimit''"
definition MARKET_PAUSED_PATTERN :: string where "MARKET_PAUSED_PATTERN = ''MarketPaused''"
definition MAX_RPC_ERROR_LOG_LEN :: nat where "MAX_RPC_ERROR_LOG_LEN = 256"

text \<open>\<^verbatim>\<open>String::from_utf8\<close> accepts the well-formed byte sequences.\<close>

definition byte_in :: "char \<Rightarrow> nat \<Rightarrow> nat \<Rightarrow> bool" where
  "byte_in c lo hi \<longleftrightarrow> lo \<le> (of_char c :: nat) \<and> (of_char c :: nat) \<le> hi"

fun valid_utf8 :: "string \<Rightarrow> bool" where
  "valid_utf8 [] = True"
| "valid_utf8 (a # s) =
     (if byte_in a 0 127 then valid_utf8 s
      else (case s of [] \<Rightarrow> False | b # s2 \<Rightarrow>
        if byte_in a 194 223 then byte_in b 128 191 \<and> valid_utf8 s2
        else (case s2 of [] \<Rightarrow> False | c # s3 \<Rightarrow>
          if byte_in a 224 239
          then byte_in b (if byte_in a 224 224 then 160 else 128) (if byte_in a 237 237 then 159 else 191)
               \<and> byte_in c 128 191 \<and> valid_utf8 s3
          else (case s3 of [] \<Rightarrow> False | d # s4 \<Rightarrow>
            byte_in a 240 244
            \<and> byte_in b (if byte_in a 240 240 then 144 else 128) (if byte_in a 244 244 then 143 else 191)
            \<and> byte_in c 128 191 \<and> byte_in d 128 191 \<and> valid_utf8 s4))))"

definition is_base64_char :: "char \<Rightarrow> bool" where
  "is_base64_char c \<longleftrightarrow> is_alnum c \<or> c \<in> {CHR ''+'', CHR ''/'', CHR ''=''}"

definition is_budget_exceeded :: "chain \<Rightarrow> handler_error \<Rightarrow> bool" where
  "is_budget_exceeded ch e \<longleftrightarrow>
     list_ex (\<lambda>ev. contains_str ev BUDGET_EXCEEDED_PATTERN) (handler_diagnostic_events e)
     \<or> list_ex (\<lambda>piece.
         let trimmed = trim piece in
         20 \<le> length trimmed \<and> list_all is_base64_char trimmed
         \<and> (case ch_base64_decode ch trimmed of
              None \<Rightarrow> False
            | Some bytes \<Rightarrow> valid_utf8 bytes \<and> contains_str bytes BUDGET_EXCEEDED_PATTERN))
         (split_on (char_of (34 :: nat)) (he_message e))"

definition is_market_paused_error :: "handler_error \<Rightarrow> bool" where
  "is_market_paused_error e = contains_str (he_message e) MARKET_PAUSED_PATTERN"

definition is_bad_sequence_error :: "string \<Rightarrow> bool" where
  "is_bad_sequence_error error =
     (let lower = to_lowercase error
      in contains_str lower ''bad_sequence'' \<or> contains_str lower ''bad_seq'' \<or> contains_str lower ''badseq'')"

text \<open>Decoding a transaction result is library code: \<open>cd_is_tx_bad_seq\<close>, \<open>None\<close> when malformed.\<close>

definition is_bad_sequence_xdr :: "codec \<Rightarrow> string \<Rightarrow> bool" where
  "is_bad_sequence_xdr cd error_result_xdr =
     (case cd_is_tx_bad_seq cd error_result_xdr of None \<Rightarrow> False | Some b \<Rightarrow> b)"

definition is_bad_sequence :: "codec \<Rightarrow> submit_error \<Rightarrow> bool" where
  "is_bad_sequence cd error \<longleftrightarrow>
     is_bad_sequence_error (submit_error_message cd error)
     \<or> (case error of Rejected _ (Some xdr) \<Rightarrow> is_bad_sequence_xdr cd xdr | _ \<Rightarrow> False)"

section \<open>Signing\<close>

definition sign_keeper_tx :: "'w system \<Rightarrow> transaction \<Rightarrow> (string, string) outcome" where
  "sign_keeper_tx S tx =
     (case sy_tx_key S of
        Some key \<Rightarrow> sign_transaction_with_key (sy_chain S) tx key (cf_network_passphrase (sy_config S))
      | None \<Rightarrow> sign_transaction (sy_chain S) tx (cf_keeper_secret_key (sy_config S))
                  (cf_network_passphrase (sy_config S)))"

text \<open>
  The deadline is read from the clock, then the call is built and signed; the arguments may
  have failed before.
\<close>

definition signed_invocation ::
  "'w system \<Rightarrow> string \<Rightarrow> string \<Rightarrow> (string, scval list) outcome \<Rightarrow> u32 \<Rightarrow> u64 \<Rightarrow> ('w, handler_error, string) action"
where
  "signed_invocation S contract_id meth args fee sequence w =
     (case current_timestamp_secs (sy_env S) w of (now, w') \<Rightarrow>
        (map_err handler_local
           (bind_outcome args (\<lambda>args.
            bind_outcome (build_invoke_tx (sy_chain S) (cf_keeper_account_id (sy_config S)) contract_id meth
               args fee sequence None (saturate_u64 (now + TX_MAX_TIME_SECS)))
             (sign_keeper_tx S))), w'))"

section \<open>The account sequence\<close>

datatype sequence_fetch_error = SeqNetwork string | SeqMissingOrInvalid string

fun sequence_error_message :: "sequence_fetch_error \<Rightarrow> string" where
  "sequence_error_message (SeqNetwork msg) = msg"
| "sequence_error_message (SeqMissingOrInvalid msg) = msg"

fun sequence_retryable :: "sequence_fetch_error \<Rightarrow> bool" where
  "sequence_retryable (SeqNetwork _) = True"
| "sequence_retryable (SeqMissingOrInvalid _) = False"

definition ACCOUNT_SEQUENCE_RETRY_ATTEMPTS :: nat where "ACCOUNT_SEQUENCE_RETRY_ATTEMPTS = 3"
definition ACCOUNT_SEQUENCE_RETRY_BASE_DELAY_MS :: u64 where "ACCOUNT_SEQUENCE_RETRY_BASE_DELAY_MS = 100"

definition get_account_sequence_once :: "'w system \<Rightarrow> ('w, sequence_fetch_error, u64) action" where
  "get_account_sequence_once S =
     map_err_action (\<lambda>e.
       let message = ''getLedgerEntries request failed: '' @ rpc_error_message (cd_float (sy_codec S)) e
       in if rpc_retryable e then SeqNetwork message else SeqMissingOrInvalid message)
       (get_account_sequence_rpc (sy_env S) (sy_codec S) (cf_stellar_rpc_url (sy_config S))
          (cf_keeper_account_id (sy_config S)))"

definition get_account_sequence :: "'w system \<Rightarrow> ('w, sequence_fetch_error, u64) action" where
  "get_account_sequence S =
     retry_with_backoff (sy_env S) sequence_retryable (get_account_sequence_once S)
       ACCOUNT_SEQUENCE_RETRY_ATTEMPTS ACCOUNT_SEQUENCE_RETRY_BASE_DELAY_MS MAX_BACKOFF_DELAY_MS"

definition fetch_sequence :: "'w system \<Rightarrow> ('w, handler_error, u64) action" where
  "fetch_sequence S = map_err_action (\<lambda>e. handler_local (sequence_error_message e)) (get_account_sequence S)"

definition cached_sequence :: "'w system \<Rightarrow> (u64 option \<times> 'w, handler_error, u64) action" where
  "cached_sequence S =
     (\<lambda>(cache, w). case cache of
        Some seq \<Rightarrow> (Ok seq, (cache, w))
      | None \<Rightarrow> (case fetch_sequence S w of
           (Ok seq, w') \<Rightarrow> (Ok seq, (Some seq, w'))
         | (Err e, w') \<Rightarrow> (Err e, (None, w'))
         | (Panic, w') \<Rightarrow> (Panic, (None, w'))))"

section \<open>Handlers\<close>

definition checked_succ :: "u64 \<Rightarrow> ('e, u64) outcome" where
  "checked_succ n = or_panic (checked_u64 (n + 1))"

text \<open>What a failed submission leaves in the cache of the sequence.\<close>

definition sequence_after_error :: "codec \<Rightarrow> u64 \<Rightarrow> submit_error \<Rightarrow> ('e, u64 option) outcome" where
  "sequence_after_error cd sequence error =
     (if is_bad_sequence cd error then Ok None
      else (case error of
              TransactionFailed _ \<Rightarrow> bind_outcome (checked_succ sequence) (\<lambda>n. Ok (Some n))
            | PollTimeout _ \<Rightarrow> Ok None
            | _ \<Rightarrow> Ok (Some sequence)))"

definition submit_handler ::
  "'w system \<Rightarrow> string \<Rightarrow> u64 \<Rightarrow> string \<Rightarrow> (u64 option \<times> 'w, handler_error, string) action" where
  "submit_handler S meth sequence signed_xdr =
     (\<lambda>(cache, w). case submit_and_poll (sy_env S) (sy_codec S) (cf_stellar_rpc_url (sy_config S)) signed_xdr w of
        (Ok ledger, w') \<Rightarrow>
          (bind_outcome (checked_succ sequence) (\<lambda>_. Ok (''confirmed on ledger '' @ nat_digits ledger)),
           (Some (sequence + 1), w'))
      | (Err error, w') \<Rightarrow>
          (case (sequence_after_error (sy_codec S) sequence error :: (unit, u64 option) outcome) of
             Ok cache' \<Rightarrow> (Err (handler_submitted (sy_codec S) meth error), (cache', w'))
           | _ \<Rightarrow> (Panic, (cache, w')))
      | (Panic, w') \<Rightarrow> (Panic, (cache, w')))"

definition execute_handler ::
  "'w system \<Rightarrow> string \<Rightarrow> string \<Rightarrow> string \<Rightarrow> (u64 option \<times> 'w, handler_error, string) action" where
  "execute_handler S contract_id meth key =
     bind_action (return_action (map_err (\<lambda>e. handler_local (''invalid key hex: '' @ e))
         (ch_hex_decode (sy_chain S) key))) (\<lambda>key_bytes.
     bind_action (return_action (map_err handler_local
         (to_vec (sy_chain S) ''key bytes conversion failed: '' key_bytes))) (\<lambda>key_bytes.
     bind_action (cached_sequence S) (\<lambda>sequence.
     bind_action (lift_snd (signed_invocation S contract_id meth
         (bind_outcome (strkey_to_sc_address (sy_chain S) (cf_keeper_account_id (sy_config S)))
            (\<lambda>account. Ok [ScAddress account, ScBytes key_bytes]))
         (cf_keeper_tx_fee (sy_config S)) sequence))
       (submit_handler S meth sequence))))"

section \<open>Publishing prices\<close>

definition set_prices_on_chain :: "'w system \<Rightarrow> (string, cached_price) btree \<Rightarrow> ('w, handler_error, string) action" where
  "set_prices_on_chain S prices =
     bind_action (return_action (map_err handler_local (encode_prices_vec (sy_chain S) (map snd prices))))
       (\<lambda>prices_scval.
     bind_action (fetch_sequence S) (\<lambda>sequence.
     bind_action (signed_invocation S (cf_oracle_contract_id (sy_config S)) ''set_prices''
         (Ok [prices_scval]) (cf_set_prices_tx_fee (sy_config S)) sequence) (\<lambda>signed_xdr.
     bind_action (map_err_action (handler_submitted (sy_codec S) ''set_prices'')
         (submit_and_poll (sy_env S) (sy_codec S) (cf_stellar_rpc_url (sy_config S)) signed_xdr))
       (\<lambda>ledger. return_action (Ok (''confirmed on ledger '' @ nat_digits ledger))))))"

section \<open>Simulated calls\<close>

datatype simulate_error =
    SimBuild string
  | SimTransport rpc_error
  | SimResponse string
  | SimSimulation string

fun simulate_retryable :: "simulate_error \<Rightarrow> bool" where
  "simulate_retryable (SimTransport e) = rpc_retryable e"
| "simulate_retryable _ = False"

fun simulate_error_message :: "codec \<Rightarrow> simulate_error \<Rightarrow> string" where
  "simulate_error_message cd (SimBuild msg) = msg"
| "simulate_error_message cd (SimResponse msg) = msg"
| "simulate_error_message cd (SimTransport e) = rpc_error_message (cd_float cd) e"
| "simulate_error_message cd (SimSimulation msg) = ''Simulation error: '' @ msg"

definition SIMULATE_RETRY_ATTEMPTS :: nat where "SIMULATE_RETRY_ATTEMPTS = 3"
definition SIMULATE_RETRY_BASE_DELAY_MS :: u64 where "SIMULATE_RETRY_BASE_DELAY_MS = 100"

text \<open>The slice panics inside a character of the text.\<close>

definition truncate_rpc_error :: "json_codec \<Rightarrow> json_value \<Rightarrow> ('e, string) outcome" where
  "truncate_rpc_error js error =
     (let s = js_text js error
      in if MAX_RPC_ERROR_LOG_LEN < length s
         then bind_outcome (or_panic (slice_to s MAX_RPC_ERROR_LOG_LEN)) (\<lambda>p. Ok (p @ ellipsis)) else Ok s)"

fun json_get :: "string \<Rightarrow> json_value \<Rightarrow> json_value option" where
  "json_get key (JObject kvs) = map_of kvs key"
| "json_get key _ = None"

fun json_u32 :: "json_value \<Rightarrow> u32 option" where
  "json_u32 (JUInt n) = (if n \<le> u32_max then Some n else None)"
| "json_u32 _ = None"

definition simulate_arg :: "chain \<Rightarrow> string \<Rightarrow> (string, scval) outcome" where
  "simulate_arg ch arg =
     (if starts_with arg ''C'' \<or> starts_with arg ''G''
      then bind_outcome (strkey_to_sc_address ch arg) (\<lambda>a. Ok (ScAddress a))
      else if ch_symbol_fits ch arg then Ok (ScSymbol arg)
      else Err (''arg '' @ apostrophe @ arg @ apostrophe @ '' too long for ScSymbol''))"

definition simulate_payload ::
  "'w system \<Rightarrow> string \<Rightarrow> string \<Rightarrow> string list \<Rightarrow> (simulate_error, string) outcome" where
  "simulate_payload S contract_id meth args =
     bind_outcome (map_err SimBuild (map_outcome (simulate_arg (sy_chain S)) args)) (\<lambda>scval_args.
     bind_outcome (map_err SimBuild (build_invoke_tx (sy_chain S) (cf_keeper_account_id (sy_config S))
         contract_id meth scval_args 100 0 None 0)) (\<lambda>tx.
     bind_outcome (map_err (\<lambda>e. SimBuild (''failed to serialize envelope to XDR: '' @ e))
         (ch_envelope_xdr (sy_chain S) tx [])) (\<lambda>envelope_xdr.
       map_err (\<lambda>e. SimBuild (''failed to serialize request: '' @ e))
         (cd_request (sy_codec S) ''simulateTransaction''
            (TransactionParam (ch_base64 (sy_chain S) envelope_xdr))))))"

definition simulate_reply :: "json_codec \<Rightarrow> string \<Rightarrow> (simulate_error, string) outcome" where
  "simulate_reply js body =
     bind_outcome (map_err (\<lambda>e. SimResponse (''Failed to parse RPC response: '' @ e)) (js_parse js body)) (\<lambda>response.
       case json_get ''error'' response of
         Some error \<Rightarrow> bind_outcome (truncate_rpc_error js error) (\<lambda>msg. Err (SimSimulation msg))
       | None \<Rightarrow> bind_outcome (or_err (SimResponse ''Missing result in simulation response'')
                    (json_get ''result'' response)) (\<lambda>result. Ok (js_text js result)))"

definition simulate_contract_call_once ::
  "'w system \<Rightarrow> string \<Rightarrow> string \<Rightarrow> string list \<Rightarrow> ('w, simulate_error, string) action" where
  "simulate_contract_call_once S contract_id meth args =
     bind_action (return_action (simulate_payload S contract_id meth args)) (\<lambda>payload.
     bind_action (map_err_action SimTransport (rpc_post (sy_env S) (cf_stellar_rpc_url (sy_config S)) payload))
       (\<lambda>body. return_action (simulate_reply (sy_json S) body)))"

definition simulate_contract_call ::
  "'w system \<Rightarrow> string \<Rightarrow> string \<Rightarrow> string list \<Rightarrow> ('w, string, string) action" where
  "simulate_contract_call S contract_id meth args =
     map_err_action (simulate_error_message (sy_codec S))
       (retry_with_backoff (sy_env S) simulate_retryable (simulate_contract_call_once S contract_id meth args)
          SIMULATE_RETRY_ATTEMPTS SIMULATE_RETRY_BASE_DELAY_MS MAX_BACKOFF_DELAY_MS)"

definition parse_u32_from_result :: "json_codec \<Rightarrow> string \<Rightarrow> (string, u32) outcome" where
  "parse_u32_from_result js result =
     bind_outcome (map_err (\<lambda>e. ''failed to parse result: '' @ e) (js_parse js result)) (\<lambda>v.
       or_err (''expected u32 value, got: '' @ js_text js v)
         (case json_u32 v of
            Some n \<Rightarrow> Some n
          | None \<Rightarrow> Option.bind (json_get ''u32'' v) json_u32))"

definition parse_key_item :: "json_codec \<Rightarrow> json_value \<Rightarrow> (string, string) outcome" where
  "parse_key_item js item =
     bind_outcome (or_err (''vector entry missing '' @ apostrophe @ ''bytes'' @ apostrophe @ '' field: '' @ js_text js item)
         (case json_get ''bytes'' item of Some b \<Rightarrow> Some b | None \<Rightarrow> json_get ''Bytes'' item)) (\<lambda>bytes.
       case bytes of
         JString hex_str \<Rightarrow> Ok hex_str
       | _ \<Rightarrow> Err (apostrophe @ ''bytes'' @ apostrophe @ '' field is not a string: '' @ js_text js item))"

definition parse_bytes_vec_from_result :: "json_codec \<Rightarrow> string \<Rightarrow> (string, string list) outcome" where
  "parse_bytes_vec_from_result js result =
     bind_outcome (map_err (\<lambda>e. ''failed to parse result: '' @ e) (js_parse js result)) (\<lambda>v.
       let vec = (case json_get ''vec'' v of
                    Some x \<Rightarrow> x
                  | None \<Rightarrow> (case json_get ''Vec'' v of Some x \<Rightarrow> x | None \<Rightarrow> v))
       in (case vec of
             JArray items \<Rightarrow> map_outcome (parse_key_item js) items
           | _ \<Rightarrow> Err (''expected array, got: '' @ js_text js vec)))"

section \<open>Lemmas\<close>

lemma lift_snd_simp: "lift_snd m (c, w) = (fst (m w), (c, snd (m w)))"
  by (simp add: lift_snd_def case_prod_beta)

lemma map_outcome_length: "map_outcome f xs = Ok ys \<Longrightarrow> length ys = length xs"
  by (induction xs arbitrary: ys) (auto simp: outcome_ops)

text \<open>A handler that needs no new sequence asks for none: with a cached value no fetch is made.\<close>

lemma cached_sequence_hit: "cached_sequence S (Some seq, w) = (Ok seq, (Some seq, w))"
  by (simp add: cached_sequence_def)

lemma execute_handler_success:
  assumes "fst (execute_handler S contract meth key (cache, w)) = Ok tx"
  shows "\<exists>seq. fst (snd (execute_handler S contract meth key (cache, w))) = Some (seq + 1)
    \<and> (cache = Some seq \<or> cache = None)"
proof -
  obtain st where r: "execute_handler S contract meth key (cache, w) = (Ok tx, st)"
    using assms by (metis prod.collapse)
  from r obtain seq c1 w1 c2 w2 xdr where seq: "cached_sequence S (cache, w) = (Ok seq, (c1, w1))"
    and sub: "submit_handler S meth seq xdr (c2, w2) = (Ok tx, st)"
    unfolding execute_handler_def
    by (auto simp: bind_action_def return_action_def split: outcome.splits prod.splits)
  from sub have "fst st = Some (seq + 1)"
    by (auto simp: submit_handler_def outcome_ops split: outcome.splits prod.splits)
  moreover from seq have "cache = Some seq \<or> cache = None"
    by (auto simp: cached_sequence_def split: option.splits)
  ultimately show ?thesis using r by auto
qed

end
