(* ===== verification/Oracle_Keeper.thy ===== *)
theory Oracle_Keeper
  imports Oracle_Handler
begin

text \<open>
  The keeper cycle (\<^verbatim>\<open>keeper_loop.rs\<close>): fresh prices, pending work, publication of prices, and
  the execution of orders, deposits and withdrawals with the bookkeeping of keys in flight,
  consecutive failures and abandoned keys. The state of an operation is the shared state and
  the outside world; the three concurrent reader calls run in the order they are written, and
  the eviction sweep reads the monotonic clock once.
\<close>

section \<open>The cycle's own state\<close>

record cycle_summary =
  su_orders_executed :: nat
  su_deposits_executed :: nat
  su_withdrawals_executed :: nat
  su_errors :: nat
  su_prices_stale :: bool
  su_keeper_balance_low :: bool

definition summary_skipped :: "bool \<Rightarrow> bool \<Rightarrow> cycle_summary" where
  "summary_skipped prices_stale keeper_balance_low =
     \<lparr>su_orders_executed = 0, su_deposits_executed = 0, su_withdrawals_executed = 0, su_errors = 0,
      su_prices_stale = prices_stale, su_keeper_balance_low = keeper_balance_low\<rparr>"

record 'w keeper_run =
  kr_app :: app_state
  kr_summary :: cycle_summary
  kr_seq :: "u64 option"
  kr_world :: 'w

type_synonym 'w keeper_step = "('w keeper_run, string, unit) action"

section \<open>Records of failures and executions\<close>

definition failure_entry ::
  "config \<Rightarrow> system_time \<Rightarrow> u64 \<Rightarrow> string \<Rightarrow> string \<Rightarrow> string \<Rightarrow> string \<Rightarrow> string option \<Rightarrow> u32 \<Rightarrow> failed_submission" where
  "failure_entry cfg t0 secs operation error token symbol tx_hash ledger_seq =
     \<lparr>fs_at = t0, fs_operation = operation, fs_network = cf_network cfg, fs_token = token, fs_symbol = symbol,
      fs_min = 0, fs_max = 0, fs_tx_hash = tx_hash, fs_error = error, fs_timestamp = secs,
      fs_ledger_seq = ledger_seq\<rparr>"

definition record_error ::
  "'w system \<Rightarrow> string \<Rightarrow> string \<Rightarrow> string option \<Rightarrow> app_state \<times> 'w \<Rightarrow> app_state \<times> 'w" where
  "record_error S operation error tx_hash =
     (\<lambda>(s, w). case env_system (sy_env S) w of (t0, w1) \<Rightarrow>
        (case current_timestamp_secs (sy_env S) w1 of (secs, w2) \<Rightarrow>
           (s\<lparr>st_failures := ring_push (failure_entry (sy_config S) t0 secs operation error '''' '''' tx_hash 0)
                              (st_failures s)\<rparr>, w2)))"

definition record_execution ::
  "'w system \<Rightarrow> string \<Rightarrow> string \<Rightarrow> string option \<Rightarrow> bool \<Rightarrow> string option \<Rightarrow> app_state \<times> 'w \<Rightarrow> app_state \<times> 'w" where
  "record_execution S operation key tx_hash success error =
     (\<lambda>(s, w). case env_system (sy_env S) w of (t0, w1) \<Rightarrow>
        (s\<lparr>st_keeper_status := push_execution
             \<lparr>ke_timestamp = t0, ke_operation = operation, ke_key = key, ke_tx_hash = tx_hash,
              ke_success = success, ke_error = error\<rparr> (st_keeper_status s)\<rparr>, w1))"

text \<open>The same inside a cycle.\<close>

definition on_world :: "(app_state \<times> 'w \<Rightarrow> app_state \<times> 'w) \<Rightarrow> 'w keeper_run \<Rightarrow> 'w keeper_run" where
  "on_world f r = (case f (kr_app r, kr_world r) of (s, w) \<Rightarrow> r\<lparr>kr_app := s, kr_world := w\<rparr>)"

definition on_app :: "(app_state \<Rightarrow> app_state) \<Rightarrow> 'w keeper_run \<Rightarrow> 'w keeper_run" where
  "on_app f r = r\<lparr>kr_app := f (kr_app r)\<rparr>"

definition on_summary :: "(cycle_summary \<Rightarrow> cycle_summary) \<Rightarrow> 'w keeper_run \<Rightarrow> 'w keeper_run" where
  "on_summary f r = r\<lparr>kr_summary := f (kr_summary r)\<rparr>"

definition count_error :: "'w keeper_run \<Rightarrow> 'w keeper_run" where
  "count_error = on_summary (\<lambda>m. m\<lparr>su_errors := su_errors m + 1\<rparr>)"

definition run_handler ::
  "'w system \<Rightarrow> string \<Rightarrow> string \<Rightarrow> string \<Rightarrow> ('w keeper_run, handler_error, string) action" where
  "run_handler S contract_id meth key r =
     (case execute_handler S contract_id meth key (kr_seq r, kr_world r) of
        (x, (c, w)) \<Rightarrow> (x, r\<lparr>kr_seq := c, kr_world := w\<rparr>))"

section \<open>Keys in flight\<close>

definition sweep_expired_in_flight_keys :: "'w system \<Rightarrow> app_state \<times> 'w \<Rightarrow> app_state \<times> 'w" where
  "sweep_expired_in_flight_keys S =
     (\<lambda>(s, w). case env_instant (sy_env S) w of (now, w1) \<Rightarrow>
        (s\<lparr>st_in_flight := (\<lambda>k. case st_in_flight s k of
             None \<Rightarrow> None
           | Some t \<Rightarrow> if IN_FLIGHT_EXPIRY < now - t then None else Some t)\<rparr>, w1))"

text \<open>Claims a key for submission unless an unexpired earlier submission holds it.\<close>

definition claim_key :: "'w system \<Rightarrow> string \<Rightarrow> 'w keeper_run \<Rightarrow> bool \<times> 'w keeper_run" where
  "claim_key S key r =
     (case st_in_flight (kr_app r) key of
        Some t \<Rightarrow>
          (case env_instant (sy_env S) (kr_world r) of (now, w1) \<Rightarrow>
             if IN_FLIGHT_EXPIRY < now - t
             then (case env_instant (sy_env S) w1 of (now', w2) \<Rightarrow>
                     (True, r\<lparr>kr_app := (kr_app r)\<lparr>st_in_flight := (st_in_flight (kr_app r))(key \<mapsto> now')\<rparr>,
                              kr_world := w2\<rparr>))
             else (False, r\<lparr>kr_world := w1\<rparr>))
      | None \<Rightarrow>
          (case env_instant (sy_env S) (kr_world r) of (now, w1) \<Rightarrow>
             (True, r\<lparr>kr_app := (kr_app r)\<lparr>st_in_flight := (st_in_flight (kr_app r))(key \<mapsto> now)\<rparr>,
                      kr_world := w1\<rparr>)))"

definition release_key :: "string \<Rightarrow> app_state \<Rightarrow> app_state" where
  "release_key key s = s\<lparr>st_in_flight := (st_in_flight s)(key := None)\<rparr>"

definition clear_execution_failures :: "string \<Rightarrow> app_state \<Rightarrow> app_state" where
  "clear_execution_failures key s = s\<lparr>st_execution_failures := (st_execution_failures s)(key := None)\<rparr>"

definition clear_freeze_failures :: "string \<Rightarrow> app_state \<Rightarrow> app_state" where
  "clear_freeze_failures key s = s\<lparr>st_freeze_failures := (st_freeze_failures s)(key := None)\<rparr>"

definition blacklist_key :: "string \<Rightarrow> u32 \<Rightarrow> app_state \<Rightarrow> app_state" where
  "blacklist_key key n s = s\<lparr>st_blacklist := (st_blacklist s)(key \<mapsto> n)\<rparr>"

definition next_count :: "(string \<rightharpoonup> u32) \<Rightarrow> string \<Rightarrow> u32" where
  "next_count counts key = (case counts key of None \<Rightarrow> 1 | Some n \<Rightarrow> n + 1)"

section \<open>Failing work\<close>

text \<open>
  The guard of consecutive failures, the same code for the three kinds of work: the failure is
  counted, and from the fifth on the key is frozen on chain if possible and abandoned.
\<close>

definition abandon_if_broken :: "'w system \<Rightarrow> string \<Rightarrow> string \<Rightarrow> string \<Rightarrow> 'w keeper_step" where
  "abandon_if_broken S contract_id freeze_method key r =
     (let n = next_count (st_execution_failures (kr_app r)) key;
          r1 = on_app (\<lambda>s. s\<lparr>st_execution_failures := (st_execution_failures s)(key \<mapsto> n)\<rparr>) r;
          abandon = on_app (\<lambda>s. clear_execution_failures key (blacklist_key key n s))
      in if MAX_CONSECUTIVE_EXECUTION_FAILURES \<le> n \<and> st_blacklist (kr_app r1) key = None
         then (case run_handler S contract_id freeze_method key r1 of
                 (Ok _, r2) \<Rightarrow> (Ok (), abandon r2)
               | (Err e, r2) \<Rightarrow> (Ok (), abandon (on_world (record_error S freeze_method (he_message e) None) r2))
               | (Panic, r2) \<Rightarrow> (Panic, r2))
         else (Ok (), r1))"

definition record_failed_work ::
  "'w system \<Rightarrow> string \<Rightarrow> string \<Rightarrow> string \<Rightarrow> string \<Rightarrow> string option \<Rightarrow> 'w keeper_run \<Rightarrow> 'w keeper_run" where
  "record_failed_work S operation key message shown tx_hash r =
     on_world (record_execution S operation key tx_hash False (Some shown))
       (on_world (record_error S (operation @ '':'' @ key) message tx_hash) r)"

definition work_undecided :: "'w system \<Rightarrow> string \<Rightarrow> string \<Rightarrow> handler_error \<Rightarrow> 'w keeper_run \<Rightarrow> 'w keeper_run" where
  "work_undecided S operation key e r =
     record_failed_work S operation key (he_message e) (he_message e) (handler_tx_hash e) (count_error r)"

text \<open>An order that ran out of budget is frozen; three failed freezes abandon it.\<close>

definition freeze_order :: "'w system \<Rightarrow> string \<Rightarrow> ('w keeper_run, string, string option) action" where
  "freeze_order S key r =
     (case run_handler S (cf_order_handler_contract_id (sy_config S)) ''freeze_order'' key r of
        (Ok _, r1) \<Rightarrow> (Ok None, on_app (clear_execution_failures key) (on_app (clear_freeze_failures key) r1))
      | (Err e, r1) \<Rightarrow>
          (let n = next_count (st_freeze_failures (kr_app r1)) key;
               r2 = on_app (\<lambda>s. s\<lparr>st_freeze_failures := (st_freeze_failures s)(key \<mapsto> n)\<rparr>) r1;
               r3 = on_world (record_error S ''freeze_order'' (he_message e) None) r2
           in (Ok (Some (he_message e)),
               if MAX_CONSECUTIVE_FREEZE_FAILURES \<le> n then on_app (blacklist_key key n) r3 else r3))
      | (Panic, r1) \<Rightarrow> (Panic, r1))"

definition order_failed :: "'w system \<Rightarrow> string \<Rightarrow> handler_error \<Rightarrow> 'w keeper_step" where
  "order_failed S key e r =
     (let r1 = on_app (release_key key) r
      in if is_market_paused_error e then (Ok (), r1)
         else bind_action
           (if is_budget_exceeded (sy_chain S) e then freeze_order S key else return_action (Ok None))
           (\<lambda>freeze_error.
              bind_action (abandon_if_broken S (cf_order_handler_contract_id (sy_config S)) ''freeze_order'' key)
              (\<lambda>_ r2. (Ok (), record_failed_work S ''execute_order'' key (he_message e)
                 (case freeze_error of
                    Some f \<Rightarrow> he_message e @ '' | freeze_error: '' @ f
                  | None \<Rightarrow> he_message e) None r2)))
           (count_error r1))"

text \<open>Deposits and withdrawals fail without the budget branch.\<close>

definition work_failed ::
  "'w system \<Rightarrow> string \<Rightarrow> string \<Rightarrow> string \<Rightarrow> string \<Rightarrow> handler_error \<Rightarrow> 'w keeper_step" where
  "work_failed S contract_id operation freeze_method key e r =
     (let r1 = on_app (release_key key) r
      in if is_market_paused_error e then (Ok (), r1)
         else bind_action (abandon_if_broken S contract_id freeze_method key)
           (\<lambda>_ r2. (Ok (), record_failed_work S operation key (he_message e) (he_message e) None r2))
           (count_error r1))"

section \<open>One item of work\<close>

text \<open>The checks before every submission: abandoned keys and keys in flight are skipped.\<close>

definition guarded :: "'w system \<Rightarrow> string \<Rightarrow> 'w keeper_step \<Rightarrow> 'w keeper_step" where
  "guarded S key submit r =
     (if st_blacklist (kr_app r) key \<noteq> None then (Ok (), count_error r)
      else (case claim_key S key r of
              (False, r1) \<Rightarrow> (Ok (), r1)
            | (True, r1) \<Rightarrow> submit r1))"

text \<open>
  The submission itself. Its outcome is settled, or the transaction may still confirm and the
  key stays in flight.
\<close>

definition attempt ::
  "'w system \<Rightarrow> string \<Rightarrow> string \<Rightarrow> string \<Rightarrow> (string \<Rightarrow> 'w keeper_run \<Rightarrow> 'w keeper_run)
    \<Rightarrow> (handler_error \<Rightarrow> 'w keeper_step) \<Rightarrow> 'w keeper_step" where
  "attempt S contract_id operation key succeeded failed r =
     (case run_handler S contract_id operation key r of
        (Ok tx_hash, r1) \<Rightarrow>
          (Ok (), on_world (record_execution S operation key (Some tx_hash) True None)
            (succeeded tx_hash (on_app (release_key key) r1)))
      | (Err e, r1) \<Rightarrow>
          if handler_may_still_confirm e then (Ok (), work_undecided S operation key e r1) else failed e r1
      | (Panic, r1) \<Rightarrow> (Panic, r1))"

definition process_order :: "'w system \<Rightarrow> string \<Rightarrow> 'w keeper_step" where
  "process_order S key =
     guarded S key (attempt S (cf_order_handler_contract_id (sy_config S)) ''execute_order'' key
       (\<lambda>_ r. on_app (\<lambda>s. clear_execution_failures key (clear_freeze_failures key s))
          (on_summary (\<lambda>m. m\<lparr>su_orders_executed := su_orders_executed m + 1\<rparr>) r))
       (order_failed S key))"

definition process_deposit :: "'w system \<Rightarrow> bool \<Rightarrow> string \<Rightarrow> 'w keeper_step" where
  "process_deposit S prices_stale key r =
     (if prices_stale then (Ok (), r)
      else guarded S key (attempt S (cf_deposit_handler_contract_id (sy_config S)) ''execute_deposit'' key
       (\<lambda>_ r. on_app (clear_execution_failures key)
          (on_summary (\<lambda>m. m\<lparr>su_deposits_executed := su_deposits_executed m + 1\<rparr>) r))
       (work_failed S (cf_deposit_handler_contract_id (sy_config S)) ''execute_deposit'' ''freeze_deposit'' key)) r)"

definition process_withdrawal :: "'w system \<Rightarrow> bool \<Rightarrow> string \<Rightarrow> 'w keeper_step" where
  "process_withdrawal S prices_stale key r =
     (if prices_stale then (Ok (), r)
      else guarded S key (attempt S (cf_withdrawal_handler_contract_id (sy_config S)) ''execute_withdrawal'' key
       (\<lambda>_ r. on_app (clear_execution_failures key)
          (on_summary (\<lambda>m. m\<lparr>su_withdrawals_executed := su_withdrawals_executed m + 1\<rparr>) r))
       (work_failed S (cf_withdrawal_handler_contract_id (sy_config S)) ''execute_withdrawal''
          ''freeze_withdrawal'' key)) r)"

fun for_each :: "('a \<Rightarrow> ('s, 'e, unit) action) \<Rightarrow> 'a list \<Rightarrow> ('s, 'e, unit) action" where
  "for_each f [] s = (Ok (), s)"
| "for_each f (x # xs) s =
     (case f x s of
        (Ok _, s') \<Rightarrow> for_each f xs s'
      | (Err e, s') \<Rightarrow> (Err e, s')
      | (Panic, s') \<Rightarrow> (Panic, s'))"

section \<open>Prices\<close>

definition PRICE_HEARTBEAT_INTERVAL_SECS :: u64 where "PRICE_HEARTBEAT_INTERVAL_SECS = 30"
definition BPS_DENOMINATOR :: i128 where "BPS_DENOMINATOR = 10000"
definition POST_SET_PRICES_SETTLE_MS :: nat where "POST_SET_PRICES_SETTLE_MS = 5000"

definition is_stale :: "cached_price \<Rightarrow> u64 \<Rightarrow> u64 \<Rightarrow> bool" where
  "is_stale price stale_after_seconds now =
     (if cp_timestamp price \<le> now then stale_after_seconds \<le> now - cp_timestamp price else True)"

definition fresh_prices :: "token_config list \<Rightarrow> u64 \<Rightarrow> (string, cached_price) btree \<Rightarrow> (string, cached_price) btree" where
  "fresh_prices tokens now prices =
     bt_collect (filter (\<lambda>(key, price).
       case find (\<lambda>t. lookup_key t = key) tokens of
         None \<Rightarrow> False
       | Some token \<Rightarrow> \<not> is_stale price (tc_stale_after_seconds token) now) prices)"

definition is_heartbeat_due :: "price_cache \<Rightarrow> u64 \<Rightarrow> bool" where
  "is_heartbeat_due cache now =
     (case pc_last_full_submission cache of
        Some lst \<Rightarrow> PRICE_HEARTBEAT_INTERVAL_SECS \<le> now - lst div 1000
      | None \<Rightarrow> True)"

definition move_exceeds_bps :: "i128 \<Rightarrow> i128 \<Rightarrow> u32 \<Rightarrow> bool" where
  "move_exceeds_bps lst median threshold_bps =
     (case Option.bind (checked_i128 (median - lst)) (\<lambda>d. checked_i128 \<bar>d\<bar>) of
        None \<Rightarrow> True
      | Some change \<Rightarrow>
          if change = 0 then False
          else (case checked_i128 (change * BPS_DENOMINATOR) of
            None \<Rightarrow> True
          | Some scaled_change \<Rightarrow>
              (case Option.bind (checked_i128 \<bar>lst\<bar>) (\<lambda>l. checked_i128 (l * int threshold_bps)) of
                 Some bnd \<Rightarrow> bnd < scaled_change
               | None \<Rightarrow> True)))"

definition token_thresholds :: "token_config list \<Rightarrow> (string \<rightharpoonup> u32)" where
  "token_thresholds tokens = map_of (rev (map (\<lambda>t. (lookup_key t, tc_submit_threshold_bps t)) tokens))"

definition should_submit :: "token_config list \<Rightarrow> price_cache \<Rightarrow> bool \<Rightarrow> string \<Rightarrow> cached_price \<Rightarrow> bool" where
  "should_submit tokens cache is_heartbeat key price =
     (if is_heartbeat then True
      else (let threshold = (case token_thresholds tokens key of None \<Rightarrow> 0 | Some t \<Rightarrow> t);
                last_median = Option.bind (pc_last_submitted_medians cache) (\<lambda>m. bt_get m key)
            in (case last_median of
                  Some lst \<Rightarrow> if threshold = 0 then True else move_exceeds_bps lst (cp_median price) threshold
                | None \<Rightarrow> True)))"

definition filter_prices_by_threshold ::
  "token_config list \<Rightarrow> price_cache \<Rightarrow> (string, cached_price) btree \<Rightarrow> bool \<Rightarrow> (string, cached_price) btree" where
  "filter_prices_by_threshold tokens cache prices is_heartbeat =
     bt_collect (filter (\<lambda>(key, price). should_submit tokens cache is_heartbeat key price) prices)"

definition medians_of :: "(string, cached_price) btree \<Rightarrow> (string \<times> i128) list" where
  "medians_of prices = map (\<lambda>(k, p). (k, cp_median p)) prices"

definition update_submitted_prices ::
  "(string, cached_price) btree \<Rightarrow> u64 \<Rightarrow> bool \<Rightarrow> price_cache \<Rightarrow> price_cache" where
  "update_submitted_prices prices now is_heartbeat cache =
     (if is_heartbeat
      then cache\<lparr>pc_last_full_submission := Some (now * 1000),
                 pc_last_submitted_medians := Some (bt_collect (medians_of prices))\<rparr>
      else cache\<lparr>pc_last_submitted_medians := Some (bt_insert_all (medians_of prices)
             (case pc_last_submitted_medians cache of None \<Rightarrow> [] | Some m \<Rightarrow> m))\<rparr>)"

section \<open>Pending work\<close>

text \<open>
  \<^verbatim>\<open>fetch_update\<close> stores the next index and yields the previous one. Adding one to the previous
  index is an unchecked \<^verbatim>\<open>u32\<close> addition.
\<close>

definition advance_start_index :: "u32 \<Rightarrow> u32 \<Rightarrow> ('e, u32) outcome" where
  "advance_start_index count prev =
     (if count \<le> 1 then Ok 0 else if u32_max < prev + 1 then Panic else Ok ((prev + 1) mod count))"

definition rotate_keys :: "nat \<Rightarrow> 'a list \<Rightarrow> 'a list" where
  "rotate_keys start keys =
     (if 0 < start \<and> start < length keys then drop start keys @ take start keys else keys)"

definition get_pending_keys ::
  "'w system \<Rightarrow> string \<Rightarrow> string \<Rightarrow> (app_state \<times> 'w, string, string list) action" where
  "get_pending_keys S count_method keys_method =
     (let cfg = sy_config S; ds = cf_data_store_contract_id cfg in
      bind_action (lift_snd (simulate_contract_call S (cf_reader_contract_id cfg) count_method [ds])) (\<lambda>count_result.
      bind_action (return_action (parse_u32_from_result (sy_json S) count_result)) (\<lambda>count.
      if count = 0 then return_action (Ok [])
      else (\<lambda>(s, w).
        let start = st_start_index s in
        bind_action (return_action (advance_start_index count start)) (\<lambda>next.
        bind_action (\<lambda>(s, w). (Ok (), (s\<lparr>st_start_index := next\<rparr>, w))) (\<lambda>_.
        bind_action (lift_snd (simulate_contract_call S (cf_reader_contract_id cfg) keys_method
            [ds, nat_digits start, nat_digits count])) (\<lambda>keys_result.
        bind_action (return_action (parse_bytes_vec_from_result (sy_json S) keys_result)) (\<lambda>keys.
        return_action
          (if length keys \<noteq> count
           then Err (''expected '' @ nat_digits count @ '' keys from '' @ keys_method @ '', got ''
                  @ nat_digits (length keys))
           else Ok (rotate_keys start keys)))))) (s, w)))))"

text \<open>A failed read counts as no work; a panic is not caught.\<close>

definition pending_or_none ::
  "'w system \<Rightarrow> string \<Rightarrow> string \<Rightarrow> (app_state \<times> 'w, string, string list) action" where
  "pending_or_none S count_method keys_method sw =
     (case get_pending_keys S count_method keys_method sw of
        (Err _, sw') \<Rightarrow> (Ok [], sw')
      | r \<Rightarrow> r)"

section \<open>The cycle\<close>

definition keeper_config :: "config \<Rightarrow> keeper_balance_config" where
  "keeper_config cfg =
     \<lparr>kb_horizon_url = cf_horizon_url cfg, kb_account_id = cf_keeper_account_id cfg,
      kb_min_balance_xlm = cf_min_keeper_balance_xlm cfg\<rparr>"

text \<open>Only a balance known to be low gates the cycle.\<close>

definition balance_gate :: "'w system \<Rightarrow> (app_state \<times> 'w, string, bool) action" where
  "balance_gate S =
     (\<lambda>(s, w). case check_keeper_balance (sy_env S) (sy_codec S) (keeper_config (sy_config S))
                     (st_balance_below_min s) w of
        ((flag, r), w') \<Rightarrow>
          ((case r of
              Ok _ \<Rightarrow> Ok False
            | Err (BalanceBelowMinimum _ _ _) \<Rightarrow> Ok True
            | Err _ \<Rightarrow> Ok False
            | Panic \<Rightarrow> Panic), (s\<lparr>st_balance_below_min := flag\<rparr>, w')))"

definition publish_prices ::
  "'w system \<Rightarrow> (string, cached_price) btree \<Rightarrow> (app_state \<times> 'w, string, unit) action" where
  "publish_prices S fresh =
     (\<lambda>(s, w). case current_timestamp_secs (sy_env S) w of (now, w1) \<Rightarrow>
        let is_heartbeat = is_heartbeat_due (st_price_cache s) now;
            submit_prices = filter_prices_by_threshold (cf_tokens (sy_config S)) (st_price_cache s) fresh is_heartbeat
        in if submit_prices \<noteq> [] \<or> is_heartbeat
           then let prices_to_submit = (if is_heartbeat then fresh else submit_prices) in
             bind_action (lift_snd (map_err_action he_message (set_prices_on_chain S prices_to_submit)))
               (\<lambda>_ (s, w). (Ok (), (s\<lparr>st_price_cache :=
                   update_submitted_prices prices_to_submit now is_heartbeat (st_price_cache s)\<rparr>,
                 env_sleep (sy_env S) POST_SET_PRICES_SETTLE_MS w))) (s, w1)
           else (Ok (), (s, w1)))"

definition process_pending ::
  "'w system \<Rightarrow> bool \<Rightarrow> string list \<Rightarrow> string list \<Rightarrow> string list \<Rightarrow> 'w keeper_step" where
  "process_pending S prices_stale orders deposits withdrawals =
     bind_action (if prices_stale then return_action (Ok ()) else for_each (process_order S) orders) (\<lambda>_.
     bind_action (for_each (process_deposit S prices_stale) deposits) (\<lambda>_.
       for_each (process_withdrawal S prices_stale) withdrawals))"

definition execute_work ::
  "'w system \<Rightarrow> (string, cached_price) btree \<Rightarrow> bool \<Rightarrow> string list \<Rightarrow> string list \<Rightarrow> string list
    \<Rightarrow> (app_state \<times> 'w, string, cycle_summary) action" where
  "execute_work S fresh keeper_balance_low orders deposits withdrawals =
     bind_action (if fresh = [] then return_action (Ok ()) else publish_prices S fresh) (\<lambda>_ (s, w).
       case process_pending S (fresh = []) orders deposits withdrawals
              \<lparr>kr_app = s, kr_summary = summary_skipped (fresh = []) keeper_balance_low, kr_seq = None,
               kr_world = w\<rparr> of
         (r, k) \<Rightarrow> (bind_outcome r (\<lambda>_. Ok (kr_summary k)), (kr_app k, kr_world k)))"

definition set_pending :: "nat \<Rightarrow> nat \<Rightarrow> nat \<Rightarrow> app_state \<Rightarrow> app_state" where
  "set_pending orders deposits withdrawals s =
     s\<lparr>st_keeper_status := (st_keeper_status s)
         \<lparr>ks_pending_orders := orders, ks_pending_deposits := deposits, ks_pending_withdrawals := withdrawals\<rparr>\<rparr>"

definition execute_keeper_cycle :: "'w system \<Rightarrow> (app_state \<times> 'w, string, cycle_summary) action" where
  "execute_keeper_cycle S sw =
     bind_action (balance_gate S) (\<lambda>keeper_balance_low (s, w).
       case current_timestamp_secs (sy_env S) w of (now, w1) \<Rightarrow>
       let fresh = fresh_prices (cf_tokens (sy_config S)) now (pc_prices (st_price_cache s)) in
       bind_action (pending_or_none S ''get_order_count'' ''get_order_keys'') (\<lambda>orders.
       bind_action (pending_or_none S ''get_deposit_count'' ''get_deposit_keys'') (\<lambda>deposits.
       bind_action (pending_or_none S ''get_withdrawal_count'' ''get_withdrawal_keys'') (\<lambda>withdrawals (s, w).
         let s1 = set_pending (length orders) (length deposits) (length withdrawals) s
         in if orders = [] \<and> deposits = [] \<and> withdrawals = [] \<or> keeper_balance_low
            then (Ok (summary_skipped (fresh = []) keeper_balance_low), (s1, w))
            else execute_work S fresh keeper_balance_low orders deposits withdrawals (s1, w)))) (s, w1))
       (sweep_expired_in_flight_keys S sw)"

text \<open>What surrounds a cycle: the running flag, its duration, and the metrics.\<close>

definition start_keeper_cycle :: "app_state \<Rightarrow> app_state" where
  "start_keeper_cycle s =
     s\<lparr>st_generation := (st_generation s + 1) mod 2 ^ 64,
       st_cycle_status := (st_cycle_status s)\<lparr>cy_keeper_cycle_running := True\<rparr>\<rparr>"

definition tally_of :: "cycle_summary \<Rightarrow> keeper_cycle_tally" where
  "tally_of m =
     \<lparr>ta_orders = su_orders_executed m, ta_deposits = su_deposits_executed m,
      ta_withdrawals = su_withdrawals_executed m, ta_errors = su_errors m,
      ta_keeper_balance_low = su_keeper_balance_low m, ta_prices_stale = su_prices_stale m\<rparr>"

definition stamp_keeper_cycle :: "system_time \<Rightarrow> u64 \<Rightarrow> app_state \<Rightarrow> app_state" where
  "stamp_keeper_cycle t0 latency_ms s =
     s\<lparr>st_cycle_status := (st_cycle_status s)
         \<lparr>cy_keeper_cycle_running := False, cy_last_keeper_cycle_at := Some t0,
          cy_last_keeper_cycle_latency_ms := Some latency_ms\<rparr>\<rparr>"

definition close_generation :: "app_state \<Rightarrow> app_state" where
  "close_generation s = s\<lparr>st_generation := (st_generation s + 1) mod 2 ^ 64\<rparr>"

definition finish_keeper_cycle ::
  "'w system \<Rightarrow> instant \<Rightarrow> (string, cycle_summary) outcome \<Rightarrow> app_state \<times> 'w \<Rightarrow> app_state \<times> 'w" where
  "finish_keeper_cycle S started result =
     (\<lambda>(s, w).
        case env_instant (sy_env S) w of (stop, w1) \<Rightarrow>
        case env_system (sy_env S) w1 of (t0, w2) \<Rightarrow>
        let latency_ms = (stop - started) div 1000000;
            s1 = stamp_keeper_cycle t0 latency_ms s;
            (s2, w3) = (case result of
               Ok summary \<Rightarrow>
                 (case record_keeper_cycle (sy_env S) latency_ms (tally_of summary) (st_metrics s1) w2 of
                    (m, w3) \<Rightarrow> (s1\<lparr>st_metrics := m\<rparr>, w3))
             | Err error \<Rightarrow>
                 (case record_error S ''keeper_cycle'' error None (s1, w2) of (s2, w3) \<Rightarrow>
                    (case record_submit_failure (sy_env S) (st_metrics s2) w3 of
                       (m, w4) \<Rightarrow> (s2\<lparr>st_metrics := m\<rparr>, w4)))
             | Panic \<Rightarrow> (s1, w2))
        in (close_generation s2, w3))"

definition KEEPER_CYCLE_TIMEOUT_SECS :: u64 where "KEEPER_CYCLE_TIMEOUT_SECS = 50"

definition keeper_timeout_error :: string where
  "keeper_timeout_error = ''keeper cycle exceeded '' @ nat_digits KEEPER_CYCLE_TIMEOUT_SECS @ ''s budget''"

text \<open>
  A cycle within its budget, and one that is dropped after the budget: \<open>dropped\<close> is whatever
  state the cycle had reached. A panic ends the task with the cycle still marked as running.
\<close>

definition run_keeper_cycle :: "'w system \<Rightarrow> (app_state \<times> 'w, string, cycle_summary) action" where
  "run_keeper_cycle S =
     (\<lambda>(s, w). case env_instant (sy_env S) w of (started, w1) \<Rightarrow>
        (case execute_keeper_cycle S (start_keeper_cycle s, w1) of
           (Panic, sw) \<Rightarrow> (Panic, sw)
         | (r, sw) \<Rightarrow> (r, finish_keeper_cycle S started r sw)))"

definition timed_out_keeper_cycle ::
  "'w system \<Rightarrow> instant \<Rightarrow> app_state \<times> 'w \<Rightarrow> (string, cycle_summary) outcome \<times> (app_state \<times> 'w)" where
  "timed_out_keeper_cycle S started dropped =
     (Err keeper_timeout_error, finish_keeper_cycle S started (Err keeper_timeout_error) dropped)"

definition keeper_idle :: "(string, cycle_summary) outcome \<Rightarrow> bool" where
  "keeper_idle r =
     (case r of
        Ok m \<Rightarrow> su_orders_executed m = 0 \<and> su_deposits_executed m = 0 \<and> su_withdrawals_executed m = 0
      | _ \<Rightarrow> False)"

section \<open>A consistent snapshot\<close>

text \<open>
  \<^verbatim>\<open>keeper_status_snapshot\<close> reads four times under separate locks; \<open>obs t\<close> is the shared state
  at the \<open>t\<close>-th read, whatever the cycles do in between.
\<close>

fun snapshot_loop :: "nat \<Rightarrow> (nat \<Rightarrow> app_state) \<Rightarrow> nat \<Rightarrow> keeper_status \<times> cycle_status" where
  "snapshot_loop 0 obs t = (st_keeper_status (obs t), st_cycle_status (obs (t + 1)))"
| "snapshot_loop (Suc n) obs t =
     (if st_generation (obs (t + 3)) = st_generation (obs t)
      then (st_keeper_status (obs (t + 1)), st_cycle_status (obs (t + 2)))
      else snapshot_loop n obs (t + 4))"

definition keeper_status_snapshot :: "(nat \<Rightarrow> app_state) \<Rightarrow> keeper_status \<times> cycle_status" where
  "keeper_status_snapshot obs = snapshot_loop 8 obs 0"

end
