(* ===== verification/Oracle_Keeper_Inv.thy ===== *)
theory Oracle_Keeper_Inv
  imports Oracle_Keeper
begin

text \<open>
  What a keeper cycle keeps of the shared state. First the frame of every operation (which
  fields it leaves alone), then the bounds of the logs and of the failure counts, and the
  abstract account of a key's strikes that the bookkeeping implements.
\<close>

section \<open>Frames\<close>

named_theorems keeper_frame \<open>what an operation of the cycle leaves alone\<close>

lemma run_handler_frame [keeper_frame]:
  "kr_app (snd (run_handler S c m k r)) = kr_app r"
  "kr_summary (snd (run_handler S c m k r)) = kr_summary r"
  by (simp_all add: run_handler_def case_prod_beta)

lemma run_handler_frame' [keeper_frame]:
  "run_handler S c m k r = (x, r') \<Longrightarrow> kr_app r' = kr_app r \<and> kr_summary r' = kr_summary r"
  using run_handler_frame [of S c m k r] by simp

lemma record_error_frame:
  "\<exists>f. fst (record_error S op e h (s, w)) = s\<lparr>st_failures := ring_push f (st_failures s)\<rparr>"
  by (auto simp: record_error_def case_prod_beta)

lemma record_execution_frame:
  "\<exists>e. fst (record_execution S op k h b m (s, w)) = s\<lparr>st_keeper_status := push_execution e (st_keeper_status s)\<rparr>"
  by (auto simp: record_execution_def case_prod_beta)

lemma on_world_app: "kr_app (on_world f r) = fst (f (kr_app r, kr_world r))"
  by (simp add: on_world_def case_prod_beta)

lemma on_app_app [simp]: "kr_app (on_app f r) = f (kr_app r)"
  by (simp add: on_app_def)

lemma on_summary_app [simp]: "kr_app (on_summary f r) = kr_app r"
  by (simp add: on_summary_def)

lemma count_error_app [simp]: "kr_app (count_error r) = kr_app r"
  by (simp add: count_error_def)

text \<open>The keys' bookkeeping, which the two logs do not touch.\<close>

definition same_keys :: "app_state \<Rightarrow> app_state \<Rightarrow> bool" where
  "same_keys s s' \<longleftrightarrow>
     st_in_flight s' = st_in_flight s \<and> st_freeze_failures s' = st_freeze_failures s
     \<and> st_blacklist s' = st_blacklist s \<and> st_execution_failures s' = st_execution_failures s"

lemma same_keys_refl [simp]: "same_keys s s"
  by (simp add: same_keys_def)

lemma same_keys_trans: "same_keys s t \<Longrightarrow> same_keys t u \<Longrightarrow> same_keys s u"
  by (simp add: same_keys_def)

lemma record_error_keys [keeper_frame]: "same_keys s (fst (record_error S op e h (s, w)))"
  using record_error_frame [of S op e h s w] by (auto simp: same_keys_def)

lemma record_execution_keys [keeper_frame]: "same_keys s (fst (record_execution S op k h b m (s, w)))"
  using record_execution_frame [of S op k h b m s w] by (auto simp: same_keys_def)

lemma on_world_error_keys [simp]: "same_keys (kr_app r) (kr_app (on_world (record_error S op e h) r))"
  by (simp add: on_world_app record_error_keys)

lemma on_world_execution_keys [simp]:
  "same_keys (kr_app r) (kr_app (on_world (record_execution S op k h b m) r))"
  by (simp add: on_world_app record_execution_keys)

lemma record_failed_work_keys [simp]: "same_keys (kr_app r) (kr_app (record_failed_work S op k m sh h r))"
  unfolding record_failed_work_def by (rule same_keys_trans) (rule on_world_error_keys, rule on_world_execution_keys)

lemma work_undecided_keys [simp]: "same_keys (kr_app r) (kr_app (work_undecided S op k e r))"
  using record_failed_work_keys [of "count_error r"] by (simp add: work_undecided_def)

section \<open>The logs\<close>

lemma logs_record_error: "logs_bounded s \<Longrightarrow> logs_bounded (fst (record_error S op e h (s, w)))"
  using record_error_frame [of S op e h s w] logs_bounded_push_failure by auto

lemma logs_record_execution: "logs_bounded s \<Longrightarrow> logs_bounded (fst (record_execution S op k h b m (s, w)))"
  using record_execution_frame [of S op k h b m s w] logs_bounded_push_execution by auto

lemma logs_on_world_error [simp]:
  "logs_bounded (kr_app r) \<Longrightarrow> logs_bounded (kr_app (on_world (record_error S op e h) r))"
  by (simp add: on_world_app logs_record_error)

lemma logs_on_world_execution [simp]:
  "logs_bounded (kr_app r) \<Longrightarrow> logs_bounded (kr_app (on_world (record_execution S op k h b m) r))"
  by (simp add: on_world_app logs_record_execution)

lemma logs_record_failed_work [simp]:
  "logs_bounded (kr_app r) \<Longrightarrow> logs_bounded (kr_app (record_failed_work S op k m sh h r))"
  by (simp add: record_failed_work_def)

text \<open>An update of the keys' fields leaves the logs alone.\<close>

lemma logs_updates [simp]:
  "logs_bounded (release_key k s) = logs_bounded s"
  "logs_bounded (clear_execution_failures k s) = logs_bounded s"
  "logs_bounded (clear_freeze_failures k s) = logs_bounded s"
  "logs_bounded (blacklist_key k n s) = logs_bounded s"
  "logs_bounded (st_execution_failures_update f s) = logs_bounded s"
  "logs_bounded (st_freeze_failures_update f s) = logs_bounded s"
  "logs_bounded (st_in_flight_update g s) = logs_bounded s"
  by (simp_all add: logs_bounded_def release_key_def clear_execution_failures_def clear_freeze_failures_def
      blacklist_key_def)

section \<open>The failure counts\<close>

text \<open>
  A count never passes its limit, reaching the limit means the key is abandoned, and what is
  recorded for an abandoned key is the count that did it.
\<close>

definition counts_ok :: "app_state \<Rightarrow> bool" where
  "counts_ok s \<longleftrightarrow>
     (\<forall>k n. st_execution_failures s k = Some n \<longrightarrow>
        1 \<le> n \<and> n \<le> MAX_CONSECUTIVE_EXECUTION_FAILURES
        \<and> (n = MAX_CONSECUTIVE_EXECUTION_FAILURES \<longrightarrow> st_blacklist s k \<noteq> None))
     \<and> (\<forall>k n. st_freeze_failures s k = Some n \<longrightarrow>
        1 \<le> n \<and> n \<le> MAX_CONSECUTIVE_FREEZE_FAILURES
        \<and> (n = MAX_CONSECUTIVE_FREEZE_FAILURES \<longrightarrow> st_blacklist s k \<noteq> None))
     \<and> (\<forall>k n. st_blacklist s k = Some n \<longrightarrow>
        MAX_CONSECUTIVE_FREEZE_FAILURES \<le> n \<and> n \<le> MAX_CONSECUTIVE_EXECUTION_FAILURES)"

definition keeper_inv :: "app_state \<Rightarrow> bool" where
  "keeper_inv s \<longleftrightarrow> logs_bounded s \<and> counts_ok s"

lemmas limits = MAX_CONSECUTIVE_EXECUTION_FAILURES_def MAX_CONSECUTIVE_FREEZE_FAILURES_def

lemma counts_ok_new: "counts_ok app_state_new"
  by (simp add: counts_ok_def app_state_new_def)

lemma counts_ok_same_keys: "same_keys s s' \<Longrightarrow> counts_ok s' = counts_ok s"
  by (simp add: same_keys_def counts_ok_def)

lemma counts_ok_updates [simp]:
  "counts_ok (release_key k s) = counts_ok s"
  "counts_ok (st_in_flight_update g s) = counts_ok s"
  by (simp_all add: counts_ok_def release_key_def)

lemma counts_ok_clear [simp]:
  "counts_ok s \<Longrightarrow> counts_ok (clear_execution_failures k s)"
  "counts_ok s \<Longrightarrow> counts_ok (clear_freeze_failures k s)"
  by (simp_all add: counts_ok_def clear_execution_failures_def clear_freeze_failures_def)

text \<open>Below the limit, as long as the key has not been abandoned.\<close>

lemma counts_below:
  assumes "counts_ok s" and "st_blacklist s k = None"
  shows "next_count (st_execution_failures s) k \<le> MAX_CONSECUTIVE_EXECUTION_FAILURES"
    and "next_count (st_freeze_failures s) k \<le> MAX_CONSECUTIVE_FREEZE_FAILURES"
proof -
  have "n < MAX_CONSECUTIVE_EXECUTION_FAILURES" if "st_execution_failures s k = Some n" for n
    using assms that unfolding counts_ok_def by (metis le_neq_implies_less)
  then show "next_count (st_execution_failures s) k \<le> MAX_CONSECUTIVE_EXECUTION_FAILURES"
    by (auto simp: next_count_def limits split: option.splits)
  have "n < MAX_CONSECUTIVE_FREEZE_FAILURES" if "st_freeze_failures s k = Some n" for n
    using assms that unfolding counts_ok_def by (metis le_neq_implies_less)
  then show "next_count (st_freeze_failures s) k \<le> MAX_CONSECUTIVE_FREEZE_FAILURES"
    by (auto simp: next_count_def limits split: option.splits)
qed

lemma next_count_pos: "1 \<le> next_count c k"
  by (simp add: next_count_def split: option.splits)

lemma counts_ok_count:
  assumes "counts_ok s" and "n \<le> MAX_CONSECUTIVE_EXECUTION_FAILURES" and "1 \<le> n"
    and "n = MAX_CONSECUTIVE_EXECUTION_FAILURES \<Longrightarrow> st_blacklist s k \<noteq> None"
  shows "counts_ok (s\<lparr>st_execution_failures := (st_execution_failures s)(k \<mapsto> n)\<rparr>)"
  using assms by (simp add: counts_ok_def)

lemma counts_ok_abandon:
  assumes "counts_ok s"
  shows "counts_ok (clear_execution_failures k (blacklist_key k MAX_CONSECUTIVE_EXECUTION_FAILURES
    (s\<lparr>st_execution_failures := (st_execution_failures s)(k \<mapsto> n)\<rparr>)))"
  using assms by (auto simp: counts_ok_def clear_execution_failures_def blacklist_key_def limits)

text \<open>The guard of consecutive failures, for a key that was not abandoned when its turn came.\<close>

lemma abandon_keys:
  assumes "abandon_if_broken S c fm k r = (Ok u, r')"
  defines "n \<equiv> next_count (st_execution_failures (kr_app r)) k"
  shows "same_keys
    (if MAX_CONSECUTIVE_EXECUTION_FAILURES \<le> n \<and> st_blacklist (kr_app r) k = None
     then clear_execution_failures k (blacklist_key k n
       ((kr_app r)\<lparr>st_execution_failures := (st_execution_failures (kr_app r))(k \<mapsto> n)\<rparr>))
     else (kr_app r)\<lparr>st_execution_failures := (st_execution_failures (kr_app r))(k \<mapsto> n)\<rparr>)
    (kr_app r')"
proof -
  have abandon: "same_keys s s' \<Longrightarrow> same_keys (clear_execution_failures k (blacklist_key k n s))
      (clear_execution_failures k (blacklist_key k n s'))" for s s'
    by (simp add: same_keys_def clear_execution_failures_def blacklist_key_def)
  show ?thesis
    using assms(1) unfolding abandon_if_broken_def n_def [symmetric] Let_def
    by (auto split: if_splits outcome.splits prod.splits dest!: run_handler_frame' intro!: abandon
        intro: same_keys_trans [OF _ on_world_error_keys] simp: on_world_app record_error_keys)
qed

lemma abandon_logs:
  "abandon_if_broken S c fm k r = (Ok u, r') \<Longrightarrow> logs_bounded (kr_app r) \<Longrightarrow> logs_bounded (kr_app r')"
  unfolding abandon_if_broken_def Let_def
  by (auto split: if_splits outcome.splits prod.splits dest!: run_handler_frame' simp: on_world_app
      intro!: logs_record_error)

lemma abandon_inv:
  assumes "abandon_if_broken S c fm k r = (Ok u, r')" and "keeper_inv (kr_app r)"
    and "next_count (st_execution_failures (kr_app r)) k \<le> MAX_CONSECUTIVE_EXECUTION_FAILURES"
  shows "keeper_inv (kr_app r')"
proof -
  let ?n = "next_count (st_execution_failures (kr_app r)) k" and ?s = "kr_app r"
  have ok: "counts_ok ?s" using assms(2) by (simp add: keeper_inv_def)
  have "counts_ok (if MAX_CONSECUTIVE_EXECUTION_FAILURES \<le> ?n \<and> st_blacklist ?s k = None
     then clear_execution_failures k (blacklist_key k ?n
       (?s\<lparr>st_execution_failures := (st_execution_failures ?s)(k \<mapsto> ?n)\<rparr>))
     else ?s\<lparr>st_execution_failures := (st_execution_failures ?s)(k \<mapsto> ?n)\<rparr>)"
  proof (cases "MAX_CONSECUTIVE_EXECUTION_FAILURES \<le> ?n \<and> st_blacklist ?s k = None")
    case True
    then have "?n = MAX_CONSECUTIVE_EXECUTION_FAILURES" using assms(3) by simp
    then show ?thesis using True counts_ok_abandon [OF ok] by simp
  next
    case False
    then show ?thesis using counts_ok_count [OF ok assms(3) next_count_pos] by auto
  qed
  then show ?thesis
    using counts_ok_same_keys [OF abandon_keys [OF assms(1)]] abandon_logs [OF assms(1)] assms(2)
    by (simp add: keeper_inv_def)
qed


text \<open>Freezing an order that ran out of budget.\<close>

lemma freeze_order_exec:
  assumes "freeze_order S k r = (Ok f, r')"
  shows "next_count (st_execution_failures (kr_app r')) k \<le> next_count (st_execution_failures (kr_app r)) k"
proof -
  have e: "st_execution_failures (fst (record_error S op m h (s, w))) = st_execution_failures s" for op m h s w
    using record_error_keys [of s S op m h w] by (simp add: same_keys_def)
  show ?thesis
    using assms unfolding freeze_order_def Let_def
    by (auto split: outcome.splits prod.splits if_splits dest!: run_handler_frame'
        simp: on_world_app e clear_execution_failures_def clear_freeze_failures_def blacklist_key_def
          next_count_def split: option.splits)
qed

lemma freeze_order_inv:
  assumes "freeze_order S k r = (Ok f, r')" and inv: "keeper_inv (kr_app r)"
    and b: "st_blacklist (kr_app r) k = None"
  shows "keeper_inv (kr_app r')"
proof -
  obtain x r1 where h: "run_handler S (cf_order_handler_contract_id (sy_config S)) ''freeze_order'' k r = (x, r1)"
    by (cases "run_handler S (cf_order_handler_contract_id (sy_config S)) ''freeze_order'' k r")
  then have app: "kr_app r1 = kr_app r" using run_handler_frame' by blast
  let ?s = "kr_app r" and ?n = "next_count (st_freeze_failures (kr_app r)) k"
  let ?t = "?s\<lparr>st_freeze_failures := (st_freeze_failures ?s)(k \<mapsto> ?n)\<rparr>"
  have ok: "counts_ok ?s" and logs: "logs_bounded ?s" using inv by (simp_all add: keeper_inv_def)
  have n: "?n \<le> MAX_CONSECUTIVE_FREEZE_FAILURES" "1 \<le> ?n"
    using counts_below(2) [OF ok b] next_count_pos by auto
  show ?thesis
  proof (cases x)
    case (Ok a)
    then show ?thesis using assms(1) h app ok logs by (auto simp: freeze_order_def keeper_inv_def)
  next
    case (Err e)
    have keys: "same_keys ?t (kr_app (on_world (record_error S ''freeze_order'' (he_message e) None)
        (on_app (\<lambda>s. s\<lparr>st_freeze_failures := (st_freeze_failures s)(k \<mapsto> ?n)\<rparr>) r1)))"
      by (simp add: on_world_app app record_error_keys)
    have logs': "logs_bounded (kr_app (on_world (record_error S ''freeze_order'' (he_message e) None)
        (on_app (\<lambda>s. s\<lparr>st_freeze_failures := (st_freeze_failures s)(k \<mapsto> ?n)\<rparr>) r1)))"
      using logs by (simp add: app)
    show ?thesis
    proof (cases "MAX_CONSECUTIVE_FREEZE_FAILURES \<le> ?n")
      case True
      then have "?n = MAX_CONSECUTIVE_FREEZE_FAILURES" using n by simp
      then have "counts_ok (blacklist_key k ?n ?t)"
        using ok by (auto simp: counts_ok_def blacklist_key_def limits)
      moreover have "same_keys (blacklist_key k ?n ?t) (kr_app r')"
        using assms(1) h Err app True keys
        by (auto simp: freeze_order_def Let_def same_keys_def blacklist_key_def)
      ultimately show ?thesis
        using assms(1) h Err app True logs' counts_ok_same_keys
        by (auto simp: freeze_order_def Let_def keeper_inv_def)
    next
      case False
      then have "counts_ok ?t" using ok n by (auto simp: counts_ok_def)
      then show ?thesis
        using assms(1) h Err app False logs' counts_ok_same_keys [OF keys]
        by (auto simp: freeze_order_def Let_def keeper_inv_def)
    qed
  next
    case Panic
    then show ?thesis using assms(1) h by (simp add: freeze_order_def)
  qed
qed

section \<open>Every item of work keeps the bounds\<close>

lemma keeper_inv_updates [simp]:
  "keeper_inv (release_key k s) = keeper_inv s"
  "keeper_inv (st_in_flight_update g s) = keeper_inv s"
  by (simp_all add: keeper_inv_def)

lemma keeper_inv_clear [simp]:
  "keeper_inv s \<Longrightarrow> keeper_inv (clear_execution_failures k s)"
  "keeper_inv s \<Longrightarrow> keeper_inv (clear_freeze_failures k s)"
  by (simp_all add: keeper_inv_def)

lemma keeper_inv_error: "keeper_inv s \<Longrightarrow> keeper_inv (fst (record_error S op e h (s, w)))"
  using counts_ok_same_keys [OF record_error_keys [of s S op e h w]] by (simp add: keeper_inv_def logs_record_error)

lemma keeper_inv_execution: "keeper_inv s \<Longrightarrow> keeper_inv (fst (record_execution S op k h b m (s, w)))"
  using counts_ok_same_keys [OF record_execution_keys [of s S op k h b m w]] by (simp add: keeper_inv_def logs_record_execution)

lemma keeper_inv_on_world [simp]:
  "keeper_inv (kr_app r) \<Longrightarrow> keeper_inv (kr_app (on_world (record_error S op e h) r))"
  "keeper_inv (kr_app r) \<Longrightarrow> keeper_inv (kr_app (on_world (record_execution S op k h b m) r))"
  by (simp_all add: on_world_app keeper_inv_error keeper_inv_execution)

lemma keeper_inv_failed_work [simp]:
  "keeper_inv (kr_app r) \<Longrightarrow> keeper_inv (kr_app (record_failed_work S op k m sh h r))"
  "keeper_inv (kr_app r) \<Longrightarrow> keeper_inv (kr_app (work_undecided S op k e r))"
  by (simp_all add: record_failed_work_def work_undecided_def)

lemma claim_key_frame:
  assumes "claim_key S k r = (b, r')"
  shows "st_blacklist (kr_app r') = st_blacklist (kr_app r)"
    and "st_execution_failures (kr_app r') = st_execution_failures (kr_app r)"
    and "st_freeze_failures (kr_app r') = st_freeze_failures (kr_app r)"
    and "keeper_inv (kr_app r') = keeper_inv (kr_app r)" and "kr_summary r' = kr_summary r"
    and "kr_seq r' = kr_seq r"
  using assms by (auto simp: claim_key_def split: option.splits prod.splits if_splits)

lemma order_failed_inv:
  assumes "order_failed S k e r = (Ok u, r')" and "keeper_inv (kr_app r)" and "st_blacklist (kr_app r) k = None"
  shows "keeper_inv (kr_app r')"
proof (cases "is_market_paused_error e")
  case True
  then show ?thesis using assms(1,2) by (auto simp: order_failed_def Let_def)
next
  case False
  let ?r1 = "count_error (on_app (release_key k) r)"
  have r1: "keeper_inv (kr_app ?r1)" "st_blacklist (kr_app ?r1) k = None"
    using assms by (simp_all add: release_key_def)
  have below: "next_count (st_execution_failures (kr_app ?r1)) k \<le> MAX_CONSECUTIVE_EXECUTION_FAILURES"
    using counts_below(1) r1 by (auto simp: keeper_inv_def)
  from False assms(1) obtain f r2 r3 where
    freeze: "(if is_budget_exceeded (sy_chain S) e then freeze_order S k else return_action (Ok None)) ?r1 = (Ok f, r2)"
    and abandon: "abandon_if_broken S (cf_order_handler_contract_id (sy_config S)) ''freeze_order'' k r2 = (Ok (), r3)"
    and r': "keeper_inv (kr_app r3) \<Longrightarrow> keeper_inv (kr_app r')"
    by (auto simp: order_failed_def Let_def bind_action_def split: prod.splits outcome.splits)
  have "keeper_inv (kr_app r2) \<and> next_count (st_execution_failures (kr_app r2)) k \<le> MAX_CONSECUTIVE_EXECUTION_FAILURES"
  proof (cases "is_budget_exceeded (sy_chain S) e")
    case True
    then show ?thesis
      using freeze freeze_order_inv [OF _ r1, of S f r2] freeze_order_exec [of S k ?r1 f r2] below by simp
  next
    case False
    then show ?thesis using freeze r1 below by (simp add: return_action_def)
  qed
  then show ?thesis using abandon_inv [OF abandon] r' by blast
qed

lemma work_failed_inv:
  assumes "work_failed S c op fm k e r = (Ok u, r')" and "keeper_inv (kr_app r)" and "st_blacklist (kr_app r) k = None"
  shows "keeper_inv (kr_app r')"
proof (cases "is_market_paused_error e")
  case True
  then show ?thesis using assms(1,2) by (auto simp: work_failed_def Let_def)
next
  case False
  let ?r1 = "count_error (on_app (release_key k) r)"
  have r1: "keeper_inv (kr_app ?r1)" "st_blacklist (kr_app ?r1) k = None"
    using assms by (simp_all add: release_key_def)
  have below: "next_count (st_execution_failures (kr_app ?r1)) k \<le> MAX_CONSECUTIVE_EXECUTION_FAILURES"
    using counts_below(1) r1 by (auto simp: keeper_inv_def)
  from False assms(1) obtain r3 where "abandon_if_broken S c fm k ?r1 = (Ok (), r3)"
    and "keeper_inv (kr_app r3) \<Longrightarrow> keeper_inv (kr_app r')"
    by (auto simp: work_failed_def Let_def bind_action_def split: prod.splits outcome.splits)
  then show ?thesis using abandon_inv [OF _ r1(1) below] by blast
qed

lemma guarded_inv:
  assumes "guarded S k submit r = (Ok u, r')" and "keeper_inv (kr_app r)"
    and "\<And>r1 r2. submit r1 = (Ok u, r2) \<Longrightarrow> keeper_inv (kr_app r1) \<Longrightarrow> st_blacklist (kr_app r1) k = None
      \<Longrightarrow> keeper_inv (kr_app r2)"
  shows "keeper_inv (kr_app r')"
proof (cases "st_blacklist (kr_app r) k = None")
  case True
  obtain b r1 where c: "claim_key S k r = (b, r1)" by (cases "claim_key S k r")
  note f = claim_key_frame [OF c]
  show ?thesis
    using assms(1,2) True c f assms(3) [of r1 r'] by (cases b) (auto simp: guarded_def)
next
  case False
  then show ?thesis using assms(1,2) by (auto simp: guarded_def)
qed

lemma attempt_inv:
  assumes a: "attempt S c op k succeeded failed r = (Ok u, r')" and inv: "keeper_inv (kr_app r)"
    and b: "st_blacklist (kr_app r) k = None"
    and ok: "\<And>tx r1. keeper_inv (kr_app r1) \<Longrightarrow> keeper_inv (kr_app (succeeded tx r1))"
    and failed: "\<And>e r1. failed e r1 = (Ok u, r') \<Longrightarrow> keeper_inv (kr_app r1) \<Longrightarrow> st_blacklist (kr_app r1) k = None
      \<Longrightarrow> keeper_inv (kr_app r')"
  shows "keeper_inv (kr_app r')"
proof -
  obtain x r1 where x: "run_handler S c op k r = (x, r1)" by (cases "run_handler S c op k r")
  have app: "kr_app r1 = kr_app r" using run_handler_frame' [OF x] by simp
  show ?thesis
  proof (cases x)
    case (Ok tx)
    have "keeper_inv (kr_app (succeeded tx (on_app (release_key k) r1)))" by (rule ok) (simp add: app inv)
    then show ?thesis using a x Ok by (auto simp: attempt_def)
  next
    case (Err e)
    then show ?thesis using a x app inv b failed [of e r1] by (auto simp: attempt_def split: if_splits)
  next
    case Panic
    then show ?thesis using a x by (simp add: attempt_def)
  qed
qed

lemma process_order_inv:
  assumes "process_order S k r = (Ok u, r')" and "keeper_inv (kr_app r)"
  shows "keeper_inv (kr_app r')"
  using assms(1) unfolding process_order_def
  by (rule guarded_inv [OF _ assms(2)]) (erule attempt_inv, assumption, assumption, simp, erule order_failed_inv, assumption, assumption)

lemma process_deposit_inv:
  assumes "process_deposit S stale k r = (Ok u, r')" and "keeper_inv (kr_app r)"
  shows "keeper_inv (kr_app r')"
proof (cases stale)
  case False
  then have "guarded S k (attempt S (cf_deposit_handler_contract_id (sy_config S)) ''execute_deposit'' k
       (\<lambda>_ r. on_app (clear_execution_failures k)
          (on_summary (\<lambda>m. m\<lparr>su_deposits_executed := su_deposits_executed m + 1\<rparr>) r))
       (work_failed S (cf_deposit_handler_contract_id (sy_config S)) ''execute_deposit'' ''freeze_deposit'' k)) r = (Ok u, r')"
    using assms(1) by (simp add: process_deposit_def)
  then show ?thesis
    by (rule guarded_inv [OF _ assms(2)]) (erule attempt_inv, assumption, assumption, simp, erule work_failed_inv, assumption, assumption)
qed (use assms in \<open>simp add: process_deposit_def\<close>)

lemma process_withdrawal_inv:
  assumes "process_withdrawal S stale k r = (Ok u, r')" and "keeper_inv (kr_app r)"
  shows "keeper_inv (kr_app r')"
proof (cases stale)
  case False
  then have "guarded S k (attempt S (cf_withdrawal_handler_contract_id (sy_config S)) ''execute_withdrawal'' k
       (\<lambda>_ r. on_app (clear_execution_failures k)
          (on_summary (\<lambda>m. m\<lparr>su_withdrawals_executed := su_withdrawals_executed m + 1\<rparr>) r))
       (work_failed S (cf_withdrawal_handler_contract_id (sy_config S)) ''execute_withdrawal'' ''freeze_withdrawal'' k)) r
     = (Ok u, r')"
    using assms(1) by (simp add: process_withdrawal_def)
  then show ?thesis
    by (rule guarded_inv [OF _ assms(2)]) (erule attempt_inv, assumption, assumption, simp, erule work_failed_inv, assumption, assumption)
qed (use assms in \<open>simp add: process_withdrawal_def\<close>)

section \<open>A cycle keeps the bounds\<close>

lemma for_each_inv:
  assumes "\<And>x s s'. f x s = (Ok (), s') \<Longrightarrow> I s \<Longrightarrow> I s'"
  shows "for_each f xs s = (Ok u, s') \<Longrightarrow> I s \<Longrightarrow> I s'"
proof (induction xs arbitrary: s)
  case (Cons x xs)
  obtain r s1 where fx: "f x s = (r, s1)" by (cases "f x s")
  show ?case using Cons fx assms [of x s s1] by (cases r) auto
qed simp

lemma process_pending_inv:
  assumes "process_pending S stale os ds ws r = (Ok u, r')" and "keeper_inv (kr_app r)"
  shows "keeper_inv (kr_app r')"
proof -
  let ?I = "\<lambda>r. keeper_inv (kr_app r)"
  have ord: "\<And>x s s'. process_order S x s = (Ok (), s') \<Longrightarrow> ?I s \<Longrightarrow> ?I s'"
    by (rule process_order_inv)
  have dep: "\<And>x s s'. process_deposit S stale x s = (Ok (), s') \<Longrightarrow> ?I s \<Longrightarrow> ?I s'"
    by (rule process_deposit_inv)
  have wdr: "\<And>x s s'. process_withdrawal S stale x s = (Ok (), s') \<Longrightarrow> ?I s \<Longrightarrow> ?I s'"
    by (rule process_withdrawal_inv)
  from assms(1) obtain r1 r2 where
    o1: "(if stale then return_action (Ok ()) else for_each (process_order S) os) r = (Ok (), r1)"
    and d: "for_each (process_deposit S stale) ds r1 = (Ok (), r2)"
    and w: "for_each (process_withdrawal S stale) ws r2 = (Ok u, r')"
    by (auto simp: process_pending_def bind_action_def split: prod.splits outcome.splits)
  have "?I r1"
  proof (cases stale)
    case True
    then show ?thesis using o1 assms(2) by (simp add: return_action_def)
  next
    case False
    then have "for_each (process_order S) os r = (Ok (), r1)" using o1 by simp
    then show ?thesis
      by (rule for_each_inv [where f = "process_order S" and I = ?I, rotated]) (rule assms(2), erule ord, assumption)
  qed
  then have "?I r2"
    by (rule for_each_inv [where f = "process_deposit S stale" and I = ?I, OF _ d, rotated]) (erule dep, assumption)
  then show ?thesis
    by (rule for_each_inv [where f = "process_withdrawal S stale" and I = ?I, OF _ w, rotated]) (erule wdr, assumption)
qed

text \<open>The reads, the balance check and the publication leave the keys and the logs alone.\<close>

lemma get_pending_keys_frame:
  "get_pending_keys S c k (s, w) = (x, (s', w')) \<Longrightarrow> \<exists>i. s' = s\<lparr>st_start_index := i\<rparr>"
proof -
  assume a: "get_pending_keys S c k (s, w) = (x, (s', w'))"
  have "s' = s \<or> (\<exists>i. s' = s\<lparr>st_start_index := i\<rparr>)"
    using a unfolding get_pending_keys_def Let_def
    by (auto simp: bind_action_def return_action_def lift_snd_simp
        split: outcome.splits prod.splits if_splits)
  moreover have "s = s\<lparr>st_start_index := st_start_index s\<rparr>" by simp
  ultimately show ?thesis by metis
qed

lemma pending_or_none_frame:
  "pending_or_none S c k (s, w) = (x, (s', w')) \<Longrightarrow> \<exists>i. s' = s\<lparr>st_start_index := i\<rparr>"
  using get_pending_keys_frame [of S c k s w]
  by (auto simp: pending_or_none_def split: prod.splits outcome.splits)

lemma balance_gate_frame:
  "balance_gate S (s, w) = (x, (s', w')) \<Longrightarrow> \<exists>f. s' = s\<lparr>st_balance_below_min := f\<rparr>"
  by (auto simp: balance_gate_def split: prod.splits)

lemma publish_prices_frame:
  "publish_prices S fresh (s, w) = (x, (s', w')) \<Longrightarrow> \<exists>c. s' = s\<lparr>st_price_cache := c\<rparr>"
proof -
  assume a: "publish_prices S fresh (s, w) = (x, (s', w'))"
  have "s' = s \<or> (\<exists>c. s' = s\<lparr>st_price_cache := c\<rparr>)"
    using a unfolding publish_prices_def Let_def
    by (auto simp: bind_action_def return_action_def lift_snd_simp
        split: outcome.splits prod.splits if_splits)
  moreover have "s = s\<lparr>st_price_cache := st_price_cache s\<rparr>" by simp
  ultimately show ?thesis by metis
qed

lemma keeper_inv_other_fields [simp]:
  "keeper_inv (s\<lparr>st_start_index := i\<rparr>) = keeper_inv s"
  "keeper_inv (s\<lparr>st_balance_below_min := b\<rparr>) = keeper_inv s"
  "keeper_inv (s\<lparr>st_price_cache := c\<rparr>) = keeper_inv s"
  "keeper_inv (s\<lparr>st_cycle_status := y\<rparr>) = keeper_inv s"
  "keeper_inv (s\<lparr>st_metrics := m\<rparr>) = keeper_inv s"
  "keeper_inv (s\<lparr>st_generation := g\<rparr>) = keeper_inv s"
  "keeper_inv (set_pending a d e s) = keeper_inv s"
  "keeper_inv (start_keeper_cycle s) = keeper_inv s"
  "keeper_inv (stamp_keeper_cycle t l s) = keeper_inv s"
  "keeper_inv (close_generation s) = keeper_inv s"
  by (simp_all add: keeper_inv_def logs_bounded_def counts_ok_def set_pending_def start_keeper_cycle_def
      stamp_keeper_cycle_def close_generation_def)

lemma sweep_inv: "keeper_inv (fst (sweep_expired_in_flight_keys S (s, w))) = keeper_inv s"
  by (simp add: sweep_expired_in_flight_keys_def case_prod_beta)

lemma execute_work_inv:
  assumes x: "execute_work S fresh low os ds ws (s, w) = (Ok m, (s', w'))" and inv: "keeper_inv s"
  shows "keeper_inv s'"
proof -
  let ?r = "\<lambda>s w. \<lparr>kr_app = s, kr_summary = summary_skipped (fresh = []) low, kr_seq = None, kr_world = w\<rparr>"
  from x obtain s1 w1 r' where
    p: "(if fresh = [] then return_action (Ok ()) else publish_prices S fresh) (s, w) = (Ok (), (s1, w1))"
    and q: "process_pending S (fresh = []) os ds ws (?r s1 w1) = (Ok (), r')" and s': "s' = kr_app r'"
    by (auto simp: execute_work_def bind_action_def outcome_ops split: prod.splits outcome.splits)
  have "keeper_inv s1"
    using p inv publish_prices_frame [of S fresh s w] by (auto simp: return_action_def split: if_splits)
  then show ?thesis using process_pending_inv [OF q] s' by simp
qed

text \<open>Items of work never fail: a failing handler is accounted for, and the cycle goes on.\<close>

definition never_fails :: "('w, 'e, 'a) action \<Rightarrow> bool" where
  "never_fails m \<longleftrightarrow> (\<forall>w e. fst (m w) \<noteq> Err e)"

named_theorems never_fails \<open>operations that do not fail\<close>

lemma never_fails_return [never_fails]: "never_fails (\<lambda>w. (Ok a, f w))" "never_fails (return_action (Ok a))"
  by (simp_all add: never_fails_def return_action_def)

lemma never_fails_bind [never_fails]:
  "never_fails m \<Longrightarrow> (\<And>a. never_fails (f a)) \<Longrightarrow> never_fails (bind_action m f)"
  by (auto simp: never_fails_def bind_action_def split: outcome.splits prod.splits) (metis fst_conv)+

lemma never_fails_for_each [never_fails]:
  assumes "\<And>x. never_fails (f x)"
  shows "never_fails (for_each f xs)"
proof -
  have "fst (for_each f xs s) \<noteq> Err e" for s e
  proof (induction xs arbitrary: s)
    case (Cons x xs)
    obtain r s1 where fx: "f x s = (r, s1)" by (cases "f x s")
    then show ?case using Cons [of s1] assms [of x] unfolding never_fails_def by (cases r) (auto, metis fst_conv)
  qed simp
  then show ?thesis by (simp add: never_fails_def)
qed

lemma never_fails_abandon [never_fails]: "never_fails (abandon_if_broken S c fm k)"
  by (auto simp: never_fails_def abandon_if_broken_def Let_def split: outcome.splits prod.splits)

lemma never_fails_freeze [never_fails]: "never_fails (freeze_order S k)"
  by (auto simp: never_fails_def freeze_order_def Let_def split: outcome.splits prod.splits)

lemma never_fails_order_failed [never_fails]: "never_fails (order_failed S k e)"
proof -
  have budget: "never_fails (if b then freeze_order S k else return_action (Ok None))" for b
    by (cases b) (simp_all add: never_fails)
  have "never_fails (bind_action (if b then freeze_order S k else return_action (Ok None))
      (\<lambda>fe. bind_action (abandon_if_broken S (cf_order_handler_contract_id (sy_config S)) ''freeze_order'' k)
        (\<lambda>_ r2. (Ok (), f fe r2))))" for b f
    by (intro never_fails_bind budget never_fails)
  note seq = this [unfolded never_fails_def, rule_format]
  show ?thesis
    unfolding never_fails_def
  proof (intro allI)
    fix r f
    show "fst (order_failed S k e r) \<noteq> Err f"
    proof (cases "is_market_paused_error e")
      case False
      then show ?thesis by (simp only: order_failed_def Let_def if_False) (rule seq)
    qed (simp add: order_failed_def)
  qed
qed

lemma never_fails_work_failed [never_fails]: "never_fails (work_failed S c op fm k e)"
proof -
  have "never_fails (bind_action (abandon_if_broken S c fm k) (\<lambda>_ r2. (Ok (), f r2)))" for f
    by (auto intro!: never_fails)
  then show ?thesis by (simp add: never_fails_def work_failed_def Let_def)
qed

lemma never_fails_guarded [never_fails]: "never_fails submit \<Longrightarrow> never_fails (guarded S k submit)"
  by (auto simp: never_fails_def guarded_def split: prod.splits bool.splits)

lemma never_fails_attempt [never_fails]:
  "(\<And>e. never_fails (failed e)) \<Longrightarrow> never_fails (attempt S c op k suc failed)"
  by (auto simp: never_fails_def attempt_def split: prod.splits outcome.splits)

lemma never_fails_process [never_fails]:
  "never_fails (process_order S k)"
  "never_fails (process_deposit S stale k)"
  "never_fails (process_withdrawal S stale k)"
proof -
  have g: "never_fails (guarded S k (attempt S c op k suc (work_failed S c op fm k)))" for c op suc fm
    by (intro never_fails)
  show "never_fails (process_order S k)" unfolding process_order_def by (intro never_fails)
  show "never_fails (process_deposit S stale k)" "never_fails (process_withdrawal S stale k)"
    using g by (simp_all add: never_fails_def process_deposit_def process_withdrawal_def)
qed

lemma never_fails_pending: "never_fails (process_pending S stale os ds ws)"
  unfolding process_pending_def by (cases stale) (simp_all only: if_True if_False, (intro never_fails)+)

text \<open>The shape of a cycle that ends: it stopped after the reads, or it went on to the work.\<close>

lemma execute_keeper_cycle_cases:
  assumes "execute_keeper_cycle S (s, w) = (x, (s', w'))" and "x \<noteq> Panic"
  obtains low s1 w1 now w2 os s2 w3 ds s3 w4 ws s4 w5 fresh s5 where
    "balance_gate S (sweep_expired_in_flight_keys S (s, w)) = (Ok low, (s1, w1))"
    and "current_timestamp_secs (sy_env S) w1 = (now, w2)"
    and "fresh = fresh_prices (cf_tokens (sy_config S)) now (pc_prices (st_price_cache s1))"
    and "pending_or_none S ''get_order_count'' ''get_order_keys'' (s1, w2) = (Ok os, (s2, w3))"
    and "pending_or_none S ''get_deposit_count'' ''get_deposit_keys'' (s2, w3) = (Ok ds, (s3, w4))"
    and "pending_or_none S ''get_withdrawal_count'' ''get_withdrawal_keys'' (s3, w4) = (Ok ws, (s4, w5))"
    and "s5 = set_pending (length os) (length ds) (length ws) s4"
    and "if os = [] \<and> ds = [] \<and> ws = [] \<or> low
         then x = Ok (summary_skipped (fresh = []) low) \<and> s' = s5 \<and> w' = w5
         else execute_work S fresh low os ds ws (s5, w5) = (x, (s', w'))"
proof -
  obtain y s1 w1 where g: "balance_gate S (sweep_expired_in_flight_keys S (s, w)) = (y, (s1, w1))"
    by (metis prod.exhaust)
  obtain now w2 where t: "current_timestamp_secs (sy_env S) w1 = (now, w2)" by (metis prod.exhaust)
  obtain yo s2 w3 where po: "pending_or_none S ''get_order_count'' ''get_order_keys'' (s1, w2) = (yo, (s2, w3))"
    by (metis prod.exhaust)
  obtain yd s3 w4 where pd: "pending_or_none S ''get_deposit_count'' ''get_deposit_keys'' (s2, w3) = (yd, (s3, w4))"
    by (metis prod.exhaust)
  obtain yw s4 w5 where pw:
    "pending_or_none S ''get_withdrawal_count'' ''get_withdrawal_keys'' (s3, w4) = (yw, (s4, w5))"
    by (metis prod.exhaust)
  have gate_ok: "y \<noteq> Err e" for e
    using g by (auto simp: balance_gate_def split: prod.splits outcome.splits rpc_error.splits)
  have pending_ok: "pending_or_none S c k sw \<noteq> (Err e, st)" for c k sw e st
    by (auto simp: pending_or_none_def split: prod.splits outcome.splits)
  obtain low where y: "y = Ok low"
    using assms g gate_ok by (cases y) (auto simp: execute_keeper_cycle_def bind_action_def)
  obtain os where yo: "yo = Ok os"
    using assms g y t po pending_ok
    by (cases yo) (auto simp: execute_keeper_cycle_def bind_action_def Let_def)
  obtain ds where yd: "yd = Ok ds"
    using assms g y t po yo pd pending_ok
    by (cases yd) (auto simp: execute_keeper_cycle_def bind_action_def Let_def)
  obtain ws where yw: "yw = Ok ws"
    using assms g y t po yo pd yd pw pending_ok
    by (cases yw) (auto simp: execute_keeper_cycle_def bind_action_def Let_def)
  have eq: "execute_keeper_cycle S (s, w) =
      (let fresh = fresh_prices (cf_tokens (sy_config S)) now (pc_prices (st_price_cache s1));
           s5 = set_pending (length os) (length ds) (length ws) s4
       in if os = [] \<and> ds = [] \<and> ws = [] \<or> low then (Ok (summary_skipped (fresh = []) low), (s5, w5))
          else execute_work S fresh low os ds ws (s5, w5))"
    unfolding execute_keeper_cycle_def Let_def bind_action_def
    by (simp only: g y t po yo pd yd pw yw prod.case outcome.case)
  show ?thesis
    by (rule that [OF g [unfolded y] t refl po [unfolded yo] pd [unfolded yd] pw [unfolded yw] refl])
      (use assms(1) eq in \<open>auto simp: Let_def split: if_splits\<close>)
qed

lemma execute_work_err:
  assumes x: "execute_work S fresh low os ds ws (s, w) = (Err e, (s', w'))"
  shows "publish_prices S fresh (s, w) = (Err e, (s', w')) \<and> fresh \<noteq> []"
proof -
  have "fst (process_pending S stale os ds ws r) \<noteq> Err e" for stale r
    using never_fails_pending [of S stale os ds ws] by (simp add: never_fails_def)
  then have "process_pending S stale os ds ws r \<noteq> (Err e, k)" for stale r k
    by (metis fst_conv)
  then show ?thesis
    using x by (auto simp: execute_work_def bind_action_def return_action_def outcome_ops
        split: prod.splits outcome.splits if_splits)
qed

lemma execute_keeper_cycle_inv:
  assumes x: "execute_keeper_cycle S (s, w) = (x, (s', w'))" and "x \<noteq> Panic" and inv: "keeper_inv s"
  shows "keeper_inv s'"
  using x \<open>x \<noteq> Panic\<close>
proof (cases rule: execute_keeper_cycle_cases)
  case (1 low s1 w1 now w2 os s2 w3 ds s3 w4 ws s4 w5 fresh s5)
  have "keeper_inv s1"
    using 1(1) balance_gate_frame [of S "fst (sweep_expired_in_flight_keys S (s, w))"] inv
      sweep_inv [of S s w] by (metis keeper_inv_other_fields(2) prod.collapse)
  moreover have "keeper_inv t' = keeper_inv t" if "pending_or_none S c k (t, v) = (y, (t', v'))" for c k t v y t' v'
    using pending_or_none_frame [OF that] by auto
  ultimately have s5: "keeper_inv s5" using 1(4-7) by simp
  show ?thesis
  proof (cases "os = [] \<and> ds = [] \<and> ws = [] \<or> low")
    case True
    then show ?thesis using 1(8) s5 by (simp split: if_splits)
  next
    case False
    then have work: "execute_work S fresh low os ds ws (s5, w5) = (x, (s', w'))" using 1(8) by auto
    show ?thesis
    proof (cases x)
      case (Ok m)
      show ?thesis by (rule execute_work_inv [OF work [unfolded Ok] s5])
    next
      case (Err e)
      then show ?thesis
        using execute_work_err [OF work [unfolded Err]] publish_prices_frame s5 by fastforce
    next
      case Panic
      then show ?thesis using assms(2) by simp
    qed
  qed
qed

lemma finish_keeper_cycle_inv:
  "keeper_inv s \<Longrightarrow> keeper_inv (fst (finish_keeper_cycle S started x (s, w)))"
proof -
  have e: "keeper_inv t \<Longrightarrow> record_error S op m h (t, v) = (t', v') \<Longrightarrow> keeper_inv t'" for op m h t v t' v'
    using keeper_inv_error [of t S op m h v] by simp
  show "keeper_inv s \<Longrightarrow> ?thesis"
    by (auto simp: finish_keeper_cycle_def Let_def split: prod.splits outcome.splits dest!: e [rotated])
qed

lemma run_keeper_cycle_inv:
  assumes x: "run_keeper_cycle S (s, w) = (x, (s', w'))" and np: "x \<noteq> Panic" and inv: "keeper_inv s"
  shows "keeper_inv s'"
proof -
  obtain started w1 where i: "env_instant (sy_env S) w = (started, w1)" by (metis prod.exhaust)
  obtain y s1 w2 where c: "execute_keeper_cycle S (start_keeper_cycle s, w1) = (y, (s1, w2))"
    by (metis prod.exhaust)
  have y: "y = x" "y \<noteq> Panic" "(s', w') = finish_keeper_cycle S started y (s1, w2)"
    using x np i c by (auto simp: run_keeper_cycle_def split: outcome.splits)
  have "keeper_inv s1" using execute_keeper_cycle_inv [OF c y(2)] inv by simp
  then show ?thesis using finish_keeper_cycle_inv [of s1 S started y w2] y(3) by (metis fst_conv)
qed

end
