(* ===== verification/Oracle_Keeper_Spec.thy ===== *)
theory Oracle_Keeper_Spec
  imports Oracle_Keeper_Inv Oracle_Submit_Spec
begin

text \<open>
  What the keeper cycle promises. A key of pending work is active with some number of
  consecutive failures, or abandoned; the bookkeeping of the cycle implements that account.
  A key that is held is not submitted, a cycle that is gated touches nothing, and the sequence
  of the keeper's account is not used twice.
\<close>

section \<open>The standing of a key\<close>

datatype standing = Active nat | Abandoned

datatype verdict = Succeeded | Undecided | Paused | Failing

definition standing_of :: "app_state \<Rightarrow> string \<Rightarrow> standing" where
  "standing_of s k =
     (if st_blacklist s k \<noteq> None then Abandoned
      else Active (case st_execution_failures s k of None \<Rightarrow> 0 | Some n \<Rightarrow> n))"

fun react :: "verdict \<Rightarrow> standing \<Rightarrow> standing" where
  "react v Abandoned = Abandoned"
| "react Succeeded (Active n) = Active 0"
| "react Undecided (Active n) = Active n"
| "react Paused (Active n) = Active n"
| "react Failing (Active n) =
     (if MAX_CONSECUTIVE_EXECUTION_FAILURES \<le> n + 1 then Abandoned else Active (n + 1))"

fun verdict_of :: "(handler_error, 'a) outcome \<Rightarrow> verdict option" where
  "verdict_of (Ok _) = Some Succeeded"
| "verdict_of (Err e) =
     Some (if handler_may_still_confirm e then Undecided
           else if is_market_paused_error e then Paused else Failing)"
| "verdict_of Panic = None"

text \<open>What the handler said about an item, unless the item was held back.\<close>

definition item_verdict :: "'w system \<Rightarrow> string \<Rightarrow> string \<Rightarrow> string \<Rightarrow> 'w keeper_run \<Rightarrow> verdict option" where
  "item_verdict S c op k r =
     (if st_blacklist (kr_app r) k \<noteq> None then None
      else (case claim_key S k r of
              (False, _) \<Rightarrow> None
            | (True, r1) \<Rightarrow> verdict_of (fst (run_handler S c op k r1))))"

definition reacted :: "verdict option \<Rightarrow> standing \<Rightarrow> standing" where
  "reacted v s = (case v of None \<Rightarrow> s | Some v \<Rightarrow> react v s)"

section \<open>The effect of one item on the bookkeeping\<close>

definition struck :: "string \<Rightarrow> app_state \<Rightarrow> app_state" where
  "struck k s =
     (let n = next_count (st_execution_failures s) k;
          s1 = s\<lparr>st_execution_failures := (st_execution_failures s)(k \<mapsto> n)\<rparr>
      in if MAX_CONSECUTIVE_EXECUTION_FAILURES \<le> n \<and> st_blacklist s k = None
         then clear_execution_failures k (blacklist_key k n s1) else s1)"

lemma abandon_struck:
  "abandon_if_broken S c fm k r = (Ok u, r') \<Longrightarrow> same_keys (struck k (kr_app r)) (kr_app r')"
  unfolding struck_def Let_def by (rule abandon_keys)

lemma same_keys_standing: "same_keys s s' \<Longrightarrow> standing_of s' j = standing_of s j"
  by (simp add: same_keys_def standing_of_def)

lemma standing_struck:
  "st_blacklist s k = None \<Longrightarrow> standing_of (struck k s) k = react Failing (standing_of s k)"
  "j \<noteq> k \<Longrightarrow> standing_of (struck k s) j = standing_of s j"
  by (auto simp: struck_def standing_of_def Let_def clear_execution_failures_def blacklist_key_def next_count_def
      split: option.splits)

lemma in_flight_struck [simp]: "st_in_flight (struck k s) = st_in_flight s"
  by (simp add: struck_def Let_def clear_execution_failures_def blacklist_key_def)

lemma standing_updates [simp]:
  "standing_of (release_key k s) j = standing_of s j"
  "standing_of (st_in_flight_update g s) j = standing_of s j"
  "standing_of (clear_freeze_failures k s) j = standing_of s j"
  by (simp_all add: standing_of_def release_key_def clear_freeze_failures_def)

lemma standing_clear:
  "standing_of (clear_execution_failures k s) j =
     (if j = k \<and> st_blacklist s k = None then Active 0 else standing_of s j)"
  by (simp add: standing_of_def clear_execution_failures_def)

lemma blacklist_release [simp]: "st_blacklist (release_key k s) = st_blacklist s"
  by (simp add: release_key_def)

lemma reacted_simps [simp]:
  "reacted None d = d"
  "reacted (Some Undecided) d = d"
  "reacted (Some Paused) d = d"
  by (cases d; simp add: reacted_def)+

lemma reacted_succeeded: "st_blacklist s k = None \<Longrightarrow> reacted (Some Succeeded) (standing_of s k) = Active 0"
  by (simp add: reacted_def standing_of_def)

lemma reacted_failing: "reacted (Some Failing) d = react Failing d"
  by (simp add: reacted_def)

lemma work_failed_keys:
  assumes "work_failed S c op fm k e r = (Ok u, r')"
  shows "same_keys (if is_market_paused_error e then release_key k (kr_app r)
                    else struck k (release_key k (kr_app r))) (kr_app r')"
proof (cases "is_market_paused_error e")
  case True
  then show ?thesis using assms by (auto simp: work_failed_def Let_def)
next
  case False
  then obtain r3 where "abandon_if_broken S c fm k (count_error (on_app (release_key k) r)) = (Ok (), r3)"
    and "r' = record_failed_work S op k (he_message e) (he_message e) None r3"
    using assms by (auto simp: work_failed_def Let_def bind_action_def split: prod.splits outcome.splits)
  then show ?thesis
    using False abandon_struck [of S c fm k "count_error (on_app (release_key k) r)"]
      same_keys_trans [OF _ record_failed_work_keys] by auto
qed

lemma claim_key_standing: "claim_key S k r = (b, r1) \<Longrightarrow> standing_of (kr_app r1) j = standing_of (kr_app r) j"
  using claim_key_frame [of S k r b r1] by (simp add: standing_of_def)

text \<open>One submission, the claim included, with the follow-up of deposits and withdrawals.\<close>

lemma guarded_attempt_standing:
  assumes g: "guarded S k (attempt S c op k suc (work_failed S c op fm k)) r = (Ok u, r')"
    and suc: "\<And>tx r1. kr_app (suc tx r1) = clear_execution_failures k (kr_app r1)"
  shows "standing_of (kr_app r') k = reacted (item_verdict S c op k r) (standing_of (kr_app r) k)"
    and "j \<noteq> k \<Longrightarrow> standing_of (kr_app r') j = standing_of (kr_app r) j"
proof -
  have "standing_of (kr_app r') k = reacted (item_verdict S c op k r) (standing_of (kr_app r) k)
    \<and> (j \<noteq> k \<longrightarrow> standing_of (kr_app r') j = standing_of (kr_app r) j)"
  proof (cases "st_blacklist (kr_app r) k = None")
    case False
    then show ?thesis using g by (auto simp: guarded_def item_verdict_def)
  next
    case b: True
    obtain claimed r1 where c: "claim_key S k r = (claimed, r1)" by (cases "claim_key S k r")
    note st = claim_key_standing [OF c] and bl = claim_key_frame(1) [OF c]
    show ?thesis
    proof (cases claimed)
      case False
      then show ?thesis using g b c st by (auto simp: guarded_def item_verdict_def)
    next
      case True
      obtain x r2 where h: "run_handler S c op k r1 = (x, r2)" by (cases "run_handler S c op k r1")
      have app: "kr_app r2 = kr_app r1" using run_handler_frame' [OF h] by simp
      have a: "attempt S c op k suc (work_failed S c op fm k) r1 = (Ok u, r')"
        using g b c True by (simp add: guarded_def)
      have v: "item_verdict S c op k r = verdict_of x" using b c True h by (simp add: item_verdict_def)
      show ?thesis
      proof (cases x)
        case (Ok tx)
        then have "same_keys (clear_execution_failures k (release_key k (kr_app r2))) (kr_app r')"
          using a h suc by (auto simp: attempt_def on_world_app record_execution_keys)
        then show ?thesis
          using same_keys_standing b bl app st v Ok reacted_succeeded [OF b]
          by (auto simp: standing_clear)
      next
        case (Err e)
        show ?thesis
        proof (cases "handler_may_still_confirm e")
          case True
          then have "same_keys (kr_app r2) (kr_app r')" using a h Err by (auto simp: attempt_def)
          then show ?thesis
            using same_keys_standing app st v Err True by simp
        next
          case False
          then have "work_failed S c op fm k e r2 = (Ok u, r')" using a h Err by (simp add: attempt_def)
          from same_keys_standing [OF work_failed_keys [OF this]] show ?thesis
            using app st v Err False b bl standing_struck(1) [of "release_key k (kr_app r2)" k]
              standing_struck(2) [of j k "release_key k (kr_app r2)"]
            by (auto simp: reacted_failing)
        qed
      next
        case Panic
        then show ?thesis using a h by (simp add: attempt_def)
      qed
    qed
  qed
  then show "standing_of (kr_app r') k = reacted (item_verdict S c op k r) (standing_of (kr_app r) k)"
    and "j \<noteq> k \<Longrightarrow> standing_of (kr_app r') j = standing_of (kr_app r) j" by blast+
qed

section \<open>Keys in flight\<close>

lemma in_flight_updates [simp]:
  "st_in_flight (clear_execution_failures k s) = st_in_flight s"
  "st_in_flight (clear_freeze_failures k s) = st_in_flight s"
  "st_in_flight (blacklist_key k n s) = st_in_flight s"
  "st_in_flight (release_key k s) = (st_in_flight s)(k := None)"
  by (simp_all add: clear_execution_failures_def clear_freeze_failures_def blacklist_key_def release_key_def)

lemma in_flight_same: "same_keys s s' \<Longrightarrow> st_in_flight s' = st_in_flight s"
  by (simp add: same_keys_def)

lemma in_flight_records [simp]:
  "st_in_flight (kr_app (record_failed_work S op k m sh h r)) = st_in_flight (kr_app r)"
  "st_in_flight (kr_app (work_undecided S op k e r)) = st_in_flight (kr_app r)"
  "st_in_flight (kr_app (on_world (record_execution S op k h b msg) r)) = st_in_flight (kr_app r)"
  by (rule in_flight_same, simp)+

lemma freeze_order_in_flight:
  assumes "freeze_order S k r = (Ok f, r')"
  shows "st_in_flight (kr_app r') = st_in_flight (kr_app r)"
proof -
  have e: "st_in_flight (fst (record_error S op m h (s, w))) = st_in_flight s" for op m h s w
    using record_error_keys [of s S op m h w] by (simp add: same_keys_def)
  show ?thesis
    using assms unfolding freeze_order_def Let_def
    by (auto split: outcome.splits prod.splits if_splits dest!: run_handler_frame' simp: on_world_app e)
qed

lemma order_failed_in_flight:
  assumes "order_failed S k e r = (Ok u, r')"
  shows "st_in_flight (kr_app r') = (st_in_flight (kr_app r))(k := None)"
proof (cases "is_market_paused_error e")
  case True
  then show ?thesis using assms by (auto simp: order_failed_def Let_def)
next
  case False
  let ?r1 = "count_error (on_app (release_key k) r)"
  from False assms obtain f r2 r3 sh where
    freeze: "(if is_budget_exceeded (sy_chain S) e then freeze_order S k else return_action (Ok None)) ?r1 = (Ok f, r2)"
    and abandon: "abandon_if_broken S (cf_order_handler_contract_id (sy_config S)) ''freeze_order'' k r2 = (Ok (), r3)"
    and r': "r' = record_failed_work S ''execute_order'' k (he_message e) sh None r3"
    by (auto simp: order_failed_def Let_def bind_action_def split: prod.splits outcome.splits)
  have "st_in_flight (kr_app r2) = (st_in_flight (kr_app r))(k := None)"
    using freeze freeze_order_in_flight [of S k ?r1 f r2] by (auto simp: return_action_def split: if_splits)
  then show ?thesis
    using in_flight_same [OF abandon_struck [OF abandon]] r' by simp
qed

lemma work_failed_in_flight:
  "work_failed S c op fm k e r = (Ok u, r') \<Longrightarrow> st_in_flight (kr_app r') = (st_in_flight (kr_app r))(k := None)"
  using in_flight_same [OF work_failed_keys] by (fastforce split: if_splits)

text \<open>A claimed key is in flight while the handler runs; only an undecided submission leaves it there.\<close>

lemma claim_key_in_flight: "claim_key S k r = (True, r1) \<Longrightarrow> st_in_flight (kr_app r1) k \<noteq> None"
  by (auto simp: claim_key_def split: option.splits prod.splits if_splits)

lemma claim_key_others:
  "claim_key S k r = (b, r1) \<Longrightarrow> j \<noteq> k \<Longrightarrow> st_in_flight (kr_app r1) j = st_in_flight (kr_app r) j"
  by (auto simp: claim_key_def split: option.splits prod.splits if_splits)

lemma guarded_attempt_in_flight:
  assumes g: "guarded S k (attempt S c op k suc failed) r = (Ok u, r')"
    and suc: "\<And>tx r1. st_in_flight (kr_app (suc tx r1)) = st_in_flight (kr_app r1)"
    and failed: "\<And>e r1 r2. failed e r1 = (Ok u, r2) \<Longrightarrow>
      st_in_flight (kr_app r2) = (st_in_flight (kr_app r1))(k := None)"
    and v: "item_verdict S c op k r = Some v"
  shows "st_in_flight (kr_app r') k \<noteq> None \<longleftrightarrow> v = Undecided"
    and "j \<noteq> k \<Longrightarrow> st_in_flight (kr_app r') j = st_in_flight (kr_app r) j"
proof -
  obtain claimed r1 where c: "claim_key S k r = (claimed, r1)" by (cases "claim_key S k r")
  have b: "st_blacklist (kr_app r) k = None" and claimed: "claimed = True"
    using v c by (auto simp: item_verdict_def split: if_splits bool.splits)
  obtain x r2 where h: "run_handler S c op k r1 = (x, r2)" by (cases "run_handler S c op k r1")
  have app: "kr_app r2 = kr_app r1" using run_handler_frame' [OF h] by simp
  have a: "attempt S c op k suc failed r1 = (Ok u, r')"
    using g b c claimed by (simp add: guarded_def)
  have vx: "verdict_of x = Some v" using v b c claimed h by (simp add: item_verdict_def)
  have r1: "st_in_flight (kr_app r1) k \<noteq> None" "j \<noteq> k \<Longrightarrow> st_in_flight (kr_app r1) j = st_in_flight (kr_app r) j"
    using claim_key_in_flight claim_key_others c claimed by auto
  have "(st_in_flight (kr_app r') k \<noteq> None \<longleftrightarrow> v = Undecided)
      \<and> (j \<noteq> k \<longrightarrow> st_in_flight (kr_app r') j = st_in_flight (kr_app r) j)"
  proof (cases x)
    case (Ok tx)
    then show ?thesis using a h suc app r1 vx by (auto simp: attempt_def)
  next
    case (Err e)
    show ?thesis
    proof (cases "handler_may_still_confirm e")
      case True
      then have "st_in_flight (kr_app r') = st_in_flight (kr_app r1)"
        using a h Err app by (auto simp: attempt_def)
      then show ?thesis using True Err vx r1 by auto
    next
      case False
      then have "failed e r2 = (Ok u, r')" using a h Err by (simp add: attempt_def)
      from failed [OF this] show ?thesis using False Err vx r1 app by (auto split: if_splits)
    qed
  next
    case Panic
    then show ?thesis using vx by simp
  qed
  then show "st_in_flight (kr_app r') k \<noteq> None \<longleftrightarrow> v = Undecided"
    and "j \<noteq> k \<Longrightarrow> st_in_flight (kr_app r') j = st_in_flight (kr_app r) j" by blast+
qed

end
