(* ===== verification/Oracle_Keeper_Props.thy ===== *)
theory Oracle_Keeper_Props
  imports Oracle_Keeper_Spec
begin

text \<open>
  The properties of the keeper cycle, with a sample system on which each of them is applied: a
  scripted node, and a chain library that decodes any key or none.
\<close>

section \<open>Sample systems\<close>

definition sample_config :: config where
  "sample_config =
     \<lparr>cf_network = ''testnet'', cf_network_passphrase = ''net'', cf_stellar_rpc_url = ''rpc'',
      cf_horizon_url = ''horizon'', cf_oracle_contract_id = ''CO'', cf_data_store_contract_id = ''CD'',
      cf_order_handler_contract_id = ''CH'', cf_deposit_handler_contract_id = ''CP'',
      cf_withdrawal_handler_contract_id = ''CW'', cf_reader_contract_id = ''CR'',
      cf_keeper_private_key = ''p'', cf_keeper_secret_key = ''s'', cf_keeper_account_id = ''GK'',
      cf_keeper_index = 0, cf_admin_api_token = None, cf_pyth_api_key = None,
      cf_min_keeper_balance_xlm = Fin 1, cf_set_prices_tx_fee = 100, cf_keeper_tx_fee = 100,
      cf_price_loop_interval_ms = 1000, cf_keeper_loop_interval_ms = 1000, cf_tokens = [],
      cf_coinbase_base_url = ''coinbase'', cf_binance_base_url = ''binance''\<rparr>"

text \<open>The reader contract answers \<open>3\<close> or the keys \<open>a\<close>, \<open>b\<close>, \<open>c\<close>.\<close>

definition sample_keys :: json_value where
  "sample_keys = JArray (map (\<lambda>k. JObject [(''bytes'', JString k)]) [''a'', ''b'', ''c''])"

definition sample_reader :: json_codec where
  "sample_reader =
     \<lparr>js_parse = (\<lambda>s. if s = ''count'' then Ok (JObject [(''result'', JUInt 3)])
                      else if s = ''keys'' then Ok (JObject [(''result'', sample_keys)])
                      else if s = ''3'' then Ok (JUInt 3) else Ok sample_keys),
      js_text = (\<lambda>v. case v of JUInt _ \<Rightarrow> ''3'' | _ \<Rightarrow> ''abc'')\<rparr>"

definition sample_system :: "script system" where
  "sample_system =
     \<lparr>sy_env = script_env, sy_codec = sample_codec, sy_chain = sample_chain, sy_json = sample_reader,
      sy_http_json = undefined, sy_config = sample_config, sy_price_key = Some ''p'', sy_tx_key = Some ''s''\<rparr>"

text \<open>Here no key can be decoded, so every handler fails, and so does every freeze.\<close>

definition failing_system :: "script system" where
  "failing_system = sample_system\<lparr>sy_chain := sample_chain\<lparr>ch_hex_decode := \<lambda>_. Err ''odd''\<rparr>\<rparr>"

definition sample_error :: handler_error where
  "sample_error = handler_local ''invalid key hex: odd''"

definition sample_run :: "script keeper_run" where
  "sample_run = \<lparr>kr_app = app_state_new, kr_summary = summary_skipped False False, kr_seq = None,
     kr_world = ([], 0, 0)\<rparr>"

lemma failing_handler: "run_handler failing_system c m k r = (Err sample_error, r)"
  by (cases r) (simp add: run_handler_def execute_handler_def bind_action_def return_action_def
      failing_system_def sample_system_def sample_error_def)

lemma sample_error_settled:
  "\<not> handler_may_still_confirm sample_error" "\<not> is_market_paused_error sample_error"
  by (code_simp)+

text \<open>Claiming a key that nobody holds.\<close>

lemma claim_key_free:
  "st_in_flight (kr_app r) k = None \<Longrightarrow> fst (claim_key S k r) = True"
  by (simp add: claim_key_def split: prod.splits)

lemma app_state_new_keys [simp]:
  "st_in_flight app_state_new = Map.empty" "st_blacklist app_state_new = Map.empty"
  "st_execution_failures app_state_new = Map.empty" "st_freeze_failures app_state_new = Map.empty"
  by (simp_all add: app_state_new_def)

section \<open>Held keys\<close>

text \<open>
  C7: A key that is abandoned, or whose earlier submission is in flight and has not expired, is
  not submitted: processing it as any kind of work leaves the shared state and the cached
  sequence alone and at most reads the clock.
\<close>

theorem held_work_not_submitted:
  assumes "st_blacklist (kr_app r) k \<noteq> None
    \<or> (\<exists>t. st_in_flight (kr_app r) k = Some t
         \<and> fst (env_instant (sy_env S) (kr_world r)) - t \<le> IN_FLIGHT_EXPIRY)"
  shows "\<forall>step \<in> {process_order S k, process_deposit S stale k, process_withdrawal S stale k}.
    \<exists>r'. step r = (Ok (), r') \<and> kr_app r' = kr_app r \<and> kr_seq r' = kr_seq r
      \<and> kr_world r' \<in> {kr_world r, snd (env_instant (sy_env S) (kr_world r))}"
proof -
  have "\<exists>r'. guarded S k submit r = (Ok (), r') \<and> kr_app r' = kr_app r \<and> kr_seq r' = kr_seq r
      \<and> kr_world r' \<in> {kr_world r, snd (env_instant (sy_env S) (kr_world r))}" for submit
  proof (cases "st_blacklist (kr_app r) k = None")
    case True
    then obtain t where "st_in_flight (kr_app r) k = Some t"
      and "fst (env_instant (sy_env S) (kr_world r)) - t \<le> IN_FLIGHT_EXPIRY" using assms by auto
    then show ?thesis using True by (simp add: guarded_def claim_key_def case_prod_beta)
  qed (simp add: guarded_def count_error_def on_summary_def)
  then show ?thesis
    by (simp add: process_order_def process_deposit_def process_withdrawal_def)
qed

theorem held_work_not_submitted_witness:
  "(\<exists>r'. process_order failing_system ''k'' (sample_run\<lparr>kr_app := app_state_new\<lparr>st_in_flight := [''k'' \<mapsto> 0]\<rparr>\<rparr>) = (Ok (), r')
      \<and> kr_app r' = app_state_new\<lparr>st_in_flight := [''k'' \<mapsto> 0]\<rparr> \<and> kr_seq r' = None
      \<and> kr_world r' = ([], 0, 0))
   \<and> (\<exists>r'. process_deposit failing_system False ''k'' (sample_run\<lparr>kr_app := app_state_new\<lparr>st_in_flight := [''k'' \<mapsto> 0]\<rparr>\<rparr>) = (Ok (), r')
      \<and> kr_app r' = app_state_new\<lparr>st_in_flight := [''k'' \<mapsto> 0]\<rparr> \<and> kr_seq r' = None
      \<and> kr_world r' = ([], 0, 0))
   \<and> (\<exists>r'. process_withdrawal failing_system False ''k'' (sample_run\<lparr>kr_app := app_state_new\<lparr>st_in_flight := [''k'' \<mapsto> 0]\<rparr>\<rparr>) = (Ok (), r')
      \<and> kr_app r' = app_state_new\<lparr>st_in_flight := [''k'' \<mapsto> 0]\<rparr> \<and> kr_seq r' = None
      \<and> kr_world r' = ([], 0, 0))"
  using held_work_not_submitted [of "sample_run\<lparr>kr_app := app_state_new\<lparr>st_in_flight := [''k'' \<mapsto> 0]\<rparr>\<rparr>" "''k''"
      failing_system False]
  by (simp add: sample_run_def failing_system_def sample_system_def script_env_def)

section \<open>Keys in flight\<close>

text \<open>The common shape of the three kinds of work, as far as keys in flight go.\<close>

definition item_step :: "'w system \<Rightarrow> string \<Rightarrow> string \<Rightarrow> string \<Rightarrow> 'w keeper_step \<Rightarrow> bool" where
  "item_step S k c op step \<longleftrightarrow> (\<exists>suc failed. step = guarded S k (attempt S c op k suc failed)
     \<and> (\<forall>tx r. st_in_flight (kr_app (suc tx r)) = st_in_flight (kr_app r))
     \<and> (\<forall>e r u r'. failed e r = (Ok u, r') \<longrightarrow> st_in_flight (kr_app r') = (st_in_flight (kr_app r))(k := None)))"

lemma item_stepI:
  "step = guarded S k (attempt S c op k suc failed)
    \<Longrightarrow> (\<And>tx r. st_in_flight (kr_app (suc tx r)) = st_in_flight (kr_app r))
    \<Longrightarrow> (\<And>e r u r'. failed e r = (Ok u, r') \<Longrightarrow> st_in_flight (kr_app r') = (st_in_flight (kr_app r))(k := None))
    \<Longrightarrow> item_step S k c op step"
  unfolding item_step_def by blast

lemma item_steps:
  "item_step S k (cf_order_handler_contract_id (sy_config S)) ''execute_order'' (process_order S k)"
  "item_step S k (cf_deposit_handler_contract_id (sy_config S)) ''execute_deposit'' (process_deposit S False k)"
  "item_step S k (cf_withdrawal_handler_contract_id (sy_config S)) ''execute_withdrawal'' (process_withdrawal S False k)"
  by (rule item_stepI, rule process_order_def, simp, erule order_failed_in_flight)
    (rule item_stepI, rule ext, simp add: process_deposit_def process_withdrawal_def, simp,
      erule work_failed_in_flight)+

lemma item_in_flight:
  assumes step: "item_step S k c op step" and r': "step r = (Ok (), r')" and v: "item_verdict S c op k r = Some v"
  shows "st_in_flight (kr_app r') k \<noteq> None \<longleftrightarrow> v = Undecided"
    and "j \<noteq> k \<Longrightarrow> st_in_flight (kr_app r') j = st_in_flight (kr_app r) j"
proof -
  from step obtain suc failed where step: "step = guarded S k (attempt S c op k suc failed)"
    and suc: "\<And>tx r. st_in_flight (kr_app (suc tx r)) = st_in_flight (kr_app r)"
    and failed: "\<And>e r u r'. failed e r = (Ok u, r') \<Longrightarrow>
      st_in_flight (kr_app r') = (st_in_flight (kr_app r))(k := None)"
    unfolding item_step_def by blast
  note g = guarded_attempt_in_flight [OF r' [unfolded step] suc _ v]
  show "st_in_flight (kr_app r') k \<noteq> None \<longleftrightarrow> v = Undecided" by (rule g(1), erule failed)
  show "j \<noteq> k \<Longrightarrow> st_in_flight (kr_app r') j = st_in_flight (kr_app r) j" by (rule g(2), erule failed)
qed

text \<open>
  C6: After the handler of an item has answered, its key is in flight if and only if the answer is
  that the polls of an accepted transaction ran out, and no other key's claim changed. Every
  other answer releases the key, also the one of a transaction that was accepted and whose poll was
  lost to an error that is not retried: the code takes it for settled.
\<close>

theorem in_flight_iff_undecided:
  assumes "st_blacklist (kr_app r) k = None" and "claim_key S k r = (True, r1)" and "run_handler S c op k r1 = (x, r2)"
    and "(step, c, op) \<in> {(process_order S k, cf_order_handler_contract_id (sy_config S), ''execute_order''),
      (process_deposit S False k, cf_deposit_handler_contract_id (sy_config S), ''execute_deposit''),
      (process_withdrawal S False k, cf_withdrawal_handler_contract_id (sy_config S), ''execute_withdrawal'')}"
    and "step r = (Ok (), r')"
  shows "(st_in_flight (kr_app r') k \<noteq> None \<longleftrightarrow> (\<exists>e hash. x = Err e \<and> he_submit e = Some (PollTimeout hash)))
    \<and> (\<forall>j. j \<noteq> k \<longrightarrow> st_in_flight (kr_app r') j = st_in_flight (kr_app r) j)"
proof -
  have "x \<noteq> Panic"
    using assms by (auto simp: process_order_def process_deposit_def process_withdrawal_def guarded_def attempt_def)
  then obtain v where v: "verdict_of x = Some v" by (cases x) auto
  then have d: "item_verdict S c op k r = Some v" using assms(1-3) by (simp add: item_verdict_def)
  have i: "item_step S k c op step" using assms(4) item_steps [of S k] by auto
  have "may_still_confirm s \<longleftrightarrow> (\<exists>hash. s = PollTimeout hash)" for s by (cases s) simp_all
  then have "v = Undecided \<longleftrightarrow> (\<exists>e hash. x = Err e \<and> he_submit e = Some (PollTimeout hash))"
    using v by (cases x) (auto simp: handler_may_still_confirm_def split: option.splits if_splits)
  then show ?thesis using item_in_flight [OF i assms(5) d] by blast
qed

lemma failing_verdict:
  assumes "st_blacklist (kr_app r) k = None" and "st_in_flight (kr_app r) k = None"
  shows "item_verdict failing_system c op k r = Some Failing"
proof -
  obtain r1 where "claim_key failing_system k r = (True, r1)"
    using claim_key_free [of r k failing_system] assms(2) by (metis prod.collapse)
  then show ?thesis using assms(1) sample_error_settled by (simp add: item_verdict_def failing_handler)
qed

text \<open>A step never fails, so it ends with a new state unless it panics.\<close>

lemma failing_step:
  assumes "never_fails step" and "fst (step r) \<noteq> Panic"
  shows "step r = (Ok (), snd (step r))"
proof (cases "step r")
  case (Pair x r')
  then show ?thesis using assms unfolding never_fails_def by (cases x) (auto, metis fst_conv)
qed

lemma failing_deposit_ok: "fst (process_deposit failing_system False k r) \<noteq> Panic"
  by (auto simp: process_deposit_def guarded_def attempt_def failing_handler sample_error_settled
      work_failed_def Let_def bind_action_def abandon_if_broken_def split: prod.splits bool.splits)

theorem in_flight_iff_undecided_witness:
  "st_in_flight (kr_app (snd (process_deposit failing_system False ''k'' sample_run))) ''k'' = None
   \<and> st_in_flight (kr_app (snd (process_deposit failing_system False ''k'' sample_run))) ''j''
        = st_in_flight (kr_app sample_run) ''j''"
proof -
  let ?r' = "snd (process_deposit failing_system False ''k'' sample_run)"
  have free: "st_blacklist (kr_app sample_run) ''k'' = None" "st_in_flight (kr_app sample_run) ''k'' = None"
    by (simp_all add: sample_run_def)
  obtain r1 where c: "claim_key failing_system ''k'' sample_run = (True, r1)"
    using claim_key_free [of sample_run "''k''" failing_system] free(2) by (metis prod.collapse)
  have "(st_in_flight (kr_app ?r') ''k'' \<noteq> None \<longleftrightarrow>
      (\<exists>e hash. (Err sample_error :: (handler_error, string) outcome) = Err e \<and> he_submit e = Some (PollTimeout hash)))
     \<and> (\<forall>j. j \<noteq> ''k'' \<longrightarrow> st_in_flight (kr_app ?r') j = st_in_flight (kr_app sample_run) j)"
    by (rule in_flight_iff_undecided [where op = "''execute_deposit''",
          OF free(1) c failing_handler _ failing_step [OF never_fails_process(2) failing_deposit_ok]])
      simp
  then show ?thesis using sample_error_settled(1) by (auto simp: handler_may_still_confirm_def)
qed

section \<open>Strikes\<close>

lemma settling_steps:
  "\<exists>suc fm. process_deposit S False k = guarded S k (attempt S (cf_deposit_handler_contract_id (sy_config S))
        ''execute_deposit'' k suc (work_failed S (cf_deposit_handler_contract_id (sy_config S)) ''execute_deposit'' fm k))
      \<and> (\<forall>tx r. kr_app (suc tx r) = clear_execution_failures k (kr_app r))"
  "\<exists>suc fm. process_withdrawal S False k = guarded S k (attempt S (cf_withdrawal_handler_contract_id (sy_config S))
        ''execute_withdrawal'' k suc
        (work_failed S (cf_withdrawal_handler_contract_id (sy_config S)) ''execute_withdrawal'' fm k))
      \<and> (\<forall>tx r. kr_app (suc tx r) = clear_execution_failures k (kr_app r))"
  by (intro exI conjI allI, rule ext, simp add: process_deposit_def, simp)
    (intro exI conjI allI, rule ext, simp add: process_withdrawal_def, simp)

lemma strikes_refined_step:
  "process_deposit S False k r = (Ok (), r') \<Longrightarrow> standing_of (kr_app r') k = reacted (item_verdict S
     (cf_deposit_handler_contract_id (sy_config S)) ''execute_deposit'' k r) (standing_of (kr_app r) k)"
  "process_withdrawal S False k r = (Ok (), r') \<Longrightarrow> standing_of (kr_app r') k = reacted (item_verdict S
     (cf_withdrawal_handler_contract_id (sy_config S)) ''execute_withdrawal'' k r) (standing_of (kr_app r) k)"
proof -
  have work: "standing_of (kr_app r') k = reacted (item_verdict S c op k r) (standing_of (kr_app r) k)"
    if "\<exists>suc fm. step = guarded S k (attempt S c op k suc (work_failed S c op fm k))
      \<and> (\<forall>tx r. kr_app (suc tx r) = clear_execution_failures k (kr_app r))"
      and r': "step r = (Ok (), r')" for step c op
  proof -
    from that(1) obtain suc fm where "step = guarded S k (attempt S c op k suc (work_failed S c op fm k))"
      and "\<And>tx r. kr_app (suc tx r) = clear_execution_failures k (kr_app r)" by blast
    from guarded_attempt_standing(1) [OF r' [unfolded this(1)] this(2)] show ?thesis .
  qed
  show "process_deposit S False k r = (Ok (), r') \<Longrightarrow> standing_of (kr_app r') k = reacted (item_verdict S
     (cf_deposit_handler_contract_id (sy_config S)) ''execute_deposit'' k r) (standing_of (kr_app r) k)"
    by (rule work [OF settling_steps(1)])
  show "process_withdrawal S False k r = (Ok (), r') \<Longrightarrow> standing_of (kr_app r') k = reacted (item_verdict S
     (cf_withdrawal_handler_contract_id (sy_config S)) ''execute_withdrawal'' k r) (standing_of (kr_app r) k)"
    by (rule work [OF settling_steps(2)])
qed

text \<open>
  C4: The bookkeeping of deposits and withdrawals implements the account of strikes: whatever
  the handler answers, the key's standing afterwards is the abstract reaction to that answer
  (a success clears the strikes, a settled failure adds one, the fifth abandons the key, an
  undecided or paused answer changes nothing), and no other key's standing moves.
\<close>

theorem strikes_refined:
  assumes "(step, c, op) \<in> {
      (process_deposit S False k, cf_deposit_handler_contract_id (sy_config S), ''execute_deposit''),
      (process_withdrawal S False k, cf_withdrawal_handler_contract_id (sy_config S), ''execute_withdrawal'')}"
    and "step r = (Ok (), r')"
  shows "standing_of (kr_app r') k = reacted (item_verdict S c op k r) (standing_of (kr_app r) k)
    \<and> (\<forall>j. j \<noteq> k \<longrightarrow> standing_of (kr_app r') j = standing_of (kr_app r) j)"
proof -
  have "\<exists>suc fm. step = guarded S k (attempt S c op k suc (work_failed S c op fm k))
      \<and> (\<forall>tx r. kr_app (suc tx r) = clear_execution_failures k (kr_app r))"
    using assms(1) settling_steps [of S k] by auto
  then obtain suc fm where "step = guarded S k (attempt S c op k suc (work_failed S c op fm k))"
    and "\<And>tx r. kr_app (suc tx r) = clear_execution_failures k (kr_app r)" by blast
  from guarded_attempt_standing [OF assms(2) [unfolded this(1)] this(2)] show ?thesis by blast
qed

theorem strikes_refined_witness:
  "standing_of (kr_app (snd (process_deposit failing_system False ''k'' sample_run))) ''k''
     = reacted (item_verdict failing_system (cf_deposit_handler_contract_id (sy_config failing_system))
         ''execute_deposit'' ''k'' sample_run) (standing_of (kr_app sample_run) ''k'')
   \<and> standing_of (kr_app (snd (process_deposit failing_system False ''k'' sample_run))) ''j''
        = standing_of (kr_app sample_run) ''j''"
proof -
  let ?r' = "snd (process_deposit failing_system False ''k'' sample_run)"
  have "standing_of (kr_app ?r') ''k'' = reacted (item_verdict failing_system
         (cf_deposit_handler_contract_id (sy_config failing_system)) ''execute_deposit'' ''k'' sample_run)
         (standing_of (kr_app sample_run) ''k'')
       \<and> (\<forall>j. j \<noteq> ''k'' \<longrightarrow> standing_of (kr_app ?r') j = standing_of (kr_app sample_run) j)"
    by (rule strikes_refined) (simp, rule failing_step [OF never_fails_process(2) failing_deposit_ok])
  then show ?thesis by simp
qed

text \<open>A step that strikes a free key every time, repeated.\<close>

lemma struck_repeatedly:
  assumes step: "\<And>r. st_in_flight (kr_app r) k = None \<Longrightarrow>
      \<exists>r'. f k r = (Ok (), r') \<and> st_in_flight (kr_app r') k = None
        \<and> standing_of (kr_app r') k = react Failing (standing_of (kr_app r) k)"
  shows "st_in_flight (kr_app r) k = None \<Longrightarrow>
    \<exists>r'. for_each f (replicate n k) r = (Ok (), r') \<and> st_in_flight (kr_app r') k = None
      \<and> standing_of (kr_app r') k = (react Failing ^^ n) (standing_of (kr_app r) k)"
proof (induction n arbitrary: r)
  case (Suc n)
  from step [OF Suc.prems] obtain r1 where "f k r = (Ok (), r1)" and f: "st_in_flight (kr_app r1) k = None"
    and s: "standing_of (kr_app r1) k = react Failing (standing_of (kr_app r) k)" by blast
  then show ?case using Suc.IH [OF f] by (simp add: funpow_swap1)
qed simp

lemma five_strikes: "(react Failing ^^ 5) d = Abandoned"
proof -
  have five: "(5 :: nat) = Suc (Suc (Suc (Suc (Suc 0))))" by simp
  show ?thesis unfolding five by (cases d) (simp_all add: limits)
qed

lemma guarded_no_panic:
  "(\<And>r. fst (submit r) \<noteq> Panic) \<Longrightarrow> fst (guarded S k submit r) \<noteq> Panic"
  by (auto simp: guarded_def split: prod.splits bool.splits)

lemma deposit_fails_no_panic:
  assumes fails: "\<And>r. \<exists>e r'. run_handler S (cf_deposit_handler_contract_id (sy_config S)) ''execute_deposit'' k r = (Err e, r')"
    and freeze: "\<And>r. fst (run_handler S (cf_deposit_handler_contract_id (sy_config S)) ''freeze_deposit'' k r) \<noteq> Panic"
  shows "fst (process_deposit S False k r) \<noteq> Panic"
proof -
  have fr: "run_handler S (cf_deposit_handler_contract_id (sy_config S)) ''freeze_deposit'' k r \<noteq> (Panic, r')" for r r'
    using freeze [of r] by auto
  have "abandon_if_broken S (cf_deposit_handler_contract_id (sy_config S)) ''freeze_deposit'' k r \<noteq> (Panic, r')" for r r'
    by (auto simp: abandon_if_broken_def Let_def fr split: prod.splits outcome.splits)
  then have "fst (work_failed S (cf_deposit_handler_contract_id (sy_config S)) op ''freeze_deposit'' k e r) \<noteq> Panic" for op e r
    by (auto simp: work_failed_def Let_def bind_action_def split: prod.splits outcome.splits)
  then have "fst (attempt S (cf_deposit_handler_contract_id (sy_config S)) ''execute_deposit'' k suc
      (work_failed S (cf_deposit_handler_contract_id (sy_config S)) ''execute_deposit'' ''freeze_deposit'' k) r) \<noteq> Panic" for suc r
    using fails [of r] by (auto simp: attempt_def split: if_splits)
  then show ?thesis by (simp add: process_deposit_def guarded_no_panic)
qed

text \<open>
  C5: A deposit that keeps failing is abandoned: when its handler fails with a settled error on
  every submission, and the freeze does not panic, five submissions in a row leave it abandoned,
  however many strikes it had before.
\<close>

theorem five_failures_abandon:
  assumes fails: "\<And>r. \<exists>e r'. run_handler S (cf_deposit_handler_contract_id (sy_config S)) ''execute_deposit'' k r
      = (Err e, r') \<and> \<not> handler_may_still_confirm e \<and> \<not> is_market_paused_error e"
    and freeze: "\<And>r. fst (run_handler S (cf_deposit_handler_contract_id (sy_config S)) ''freeze_deposit'' k r) \<noteq> Panic"
    and free: "st_in_flight (kr_app r) k = None"
  shows "\<exists>r'. for_each (process_deposit S False) (replicate 5 k) r = (Ok (), r') \<and> st_blacklist (kr_app r') k \<noteq> None"
proof -
  let ?c = "cf_deposit_handler_contract_id (sy_config S)"
  have "\<exists>r'. process_deposit S False k r = (Ok (), r') \<and> st_in_flight (kr_app r') k = None
      \<and> standing_of (kr_app r') k = react Failing (standing_of (kr_app r) k)"
    if f: "st_in_flight (kr_app r) k = None" for r
  proof -
    have np: "fst (process_deposit S False k r) \<noteq> Panic"
      by (rule deposit_fails_no_panic [OF _ freeze]) (use fails in blast)
    then obtain r' where r': "process_deposit S False k r = (Ok (), r')"
      using failing_step [OF never_fails_process(2) np] by blast
    note st = strikes_refined_step(1) [OF r']
    show ?thesis
    proof (cases "st_blacklist (kr_app r) k = None")
      case True
      obtain r1 where c: "claim_key S k r = (True, r1)"
        using claim_key_free [of r k S] f by (metis prod.collapse)
      have v: "item_verdict S ?c ''execute_deposit'' k r = Some Failing"
        using fails [of r1] True c by (auto simp: item_verdict_def)
      then have "st_in_flight (kr_app r') k = None" using item_in_flight(1) [OF item_steps(2) r' v] by simp
      then show ?thesis using r' st v by (simp add: reacted_failing)
    next
      case False
      then have "standing_of (kr_app r) k = Abandoned" by (simp add: standing_of_def)
      moreover have "kr_app r' = kr_app r" using False r' by (auto simp: process_deposit_def guarded_def)
      ultimately show ?thesis using r' f by simp
    qed
  qed
  from struck_repeatedly [where f = "process_deposit S False" and k = k and n = 5, OF this free] five_strikes
  obtain r' where "for_each (process_deposit S False) (replicate 5 k) r = (Ok (), r')"
    and "standing_of (kr_app r') k = Abandoned" by auto
  then show ?thesis by (auto simp: standing_of_def split: if_splits)
qed

theorem five_failures_abandon_witness:
  "\<exists>r'. for_each (process_deposit failing_system False) (replicate 5 ''k'') sample_run = (Ok (), r')
     \<and> st_blacklist (kr_app r') ''k'' \<noteq> None"
proof (rule five_failures_abandon)
  show "\<exists>e r'. run_handler failing_system (cf_deposit_handler_contract_id (sy_config failing_system))
      ''execute_deposit'' ''k'' r = (Err e, r') \<and> \<not> handler_may_still_confirm e \<and> \<not> is_market_paused_error e" for r
    by (intro exI conjI) (rule failing_handler, rule sample_error_settled, rule sample_error_settled)
qed (simp_all add: failing_handler sample_run_def)

end
