(* ===== verification/Oracle_Cycle_Props.thy ===== *)
theory Oracle_Cycle_Props
  imports Oracle_Keeper_Props "HOL-Library.Multiset"
begin

text \<open>
  Properties of a whole keeper cycle: the gate of stale prices and of a low balance, the rotation
  of the pending keys, the suppression of prices that barely moved, the account sequence shared
  by the handlers of a cycle, and the snapshot served while a cycle runs.
\<close>

section \<open>The gate\<close>

definition flags :: "'w keeper_run \<Rightarrow> bool \<times> bool" where
  "flags r = (su_prices_stale (kr_summary r), su_keeper_balance_low (kr_summary r))"

lemma flags_simps [simp]:
  "flags (on_app f r) = flags r"
  "flags (on_world g r) = flags r"
  "flags (count_error r) = flags r"
  "flags (record_failed_work S op k m sh h r) = flags r"
  "flags (work_undecided S op k e r) = flags r"
  by (simp_all add: flags_def on_app_def on_world_def count_error_def on_summary_def record_failed_work_def
      work_undecided_def case_prod_beta)

lemma flags_run_handler [simp]: "run_handler S c m k r = (x, r') \<Longrightarrow> flags r' = flags r"
  using run_handler_frame' [of S c m k r x r'] by (simp add: flags_def)

lemma flags_claim: "claim_key S k r = (b, r') \<Longrightarrow> flags r' = flags r"
  using claim_key_frame(5) [of S k r b r'] by (simp add: flags_def)

lemma flags_abandon: "abandon_if_broken S c fm k r = (Ok u, r') \<Longrightarrow> flags r' = flags r"
  by (auto simp: abandon_if_broken_def Let_def split: if_splits outcome.splits prod.splits)

lemma flags_freeze: "freeze_order S k r = (Ok u, r') \<Longrightarrow> flags r' = flags r"
  by (auto simp: freeze_order_def Let_def split: if_splits outcome.splits prod.splits)

lemma flags_work_failed: "work_failed S c op fm k e r = (Ok u, r') \<Longrightarrow> flags r' = flags r"
  by (auto simp: work_failed_def Let_def bind_action_def split: if_splits outcome.splits prod.splits
      dest!: flags_abandon)

lemma flags_order_failed: "order_failed S k e r = (Ok u, r') \<Longrightarrow> flags r' = flags r"
  by (auto simp: order_failed_def Let_def bind_action_def return_action_def split: if_splits outcome.splits prod.splits
      dest!: flags_abandon flags_freeze)

lemma flags_item:
  assumes "guarded S k (attempt S c op k suc failed) r = (Ok u, r')"
    and "\<And>tx r1. flags (suc tx r1) = flags r1"
    and "\<And>e r1 r2 u. failed e r1 = (Ok u, r2) \<Longrightarrow> flags r2 = flags r1"
  shows "flags r' = flags r"
  using assms(1)
  by (auto simp: guarded_def attempt_def assms(2) split: if_splits prod.splits bool.splits outcome.splits
      dest!: flags_claim assms(3))

lemma flags_process:
  "process_order S k r = (Ok u, r') \<Longrightarrow> flags r' = flags r"
  "process_deposit S stale k r = (Ok u, r') \<Longrightarrow> flags r' = flags r"
  "process_withdrawal S stale k r = (Ok u, r') \<Longrightarrow> flags r' = flags r"
  unfolding process_order_def process_deposit_def process_withdrawal_def
  by (erule flags_item, simp add: flags_def on_app_def on_summary_def, erule flags_order_failed)
    (cases stale, simp, simp, erule flags_item, simp add: flags_def on_app_def on_summary_def,
      erule flags_work_failed)+

lemma flags_pending:
  assumes "process_pending S stale os ds ws r = (Ok u, r')"
  shows "flags r' = flags r"
proof -
  have each: "flags r2 = flags r1" if "for_each f xs r1 = (Ok u, r2)"
    and f: "\<And>x s s'. f x s = (Ok (), s') \<Longrightarrow> flags s' = flags s" for f xs r1 r2 u
    by (rule for_each_inv [where f = f and I = "\<lambda>r. flags r = flags r1", OF _ that(1)]) (simp_all add: f)
  from assms obtain r1 r2 where
    o1: "(if stale then return_action (Ok ()) else for_each (process_order S) os) r = (Ok (), r1)"
    and d: "for_each (process_deposit S stale) ds r1 = (Ok (), r2)"
    and w: "for_each (process_withdrawal S stale) ws r2 = (Ok u, r')"
    by (auto simp: process_pending_def bind_action_def split: prod.splits outcome.splits)
  have "flags r1 = flags r"
    using o1 each [of "process_order S" os r "()" r1, OF _ flags_process(1)]
    by (auto simp: return_action_def split: if_splits)
  with each [OF d flags_process(2)] each [OF w flags_process(3)] show ?thesis by simp
qed

lemma for_each_skip: "for_each (\<lambda>_ r. (Ok (), r)) xs r = (Ok (), r)"
  by (induction xs) simp_all

lemma process_pending_stale: "process_pending S True os ds ws r = (Ok (), r)"
proof -
  have "process_deposit S True = (\<lambda>_ r. (Ok (), r))" "process_withdrawal S True = (\<lambda>_ r. (Ok (), r))"
    by (intro ext, simp add: process_deposit_def process_withdrawal_def)+
  then show ?thesis by (simp add: process_pending_def bind_action_def return_action_def for_each_skip)
qed

section \<open>A sample market\<close>

text \<open>
  The reader contract of the sample system reports three keys of each kind; the account is not
  funded, so its balance is not known to be low.
\<close>

lemma sample_arg: "length a \<le> 32 \<Longrightarrow> \<exists>v. simulate_arg sample_chain a = Ok v"
  by (auto simp: simulate_arg_def strkey_to_sc_address_def sample_chain_def outcome_ops)

lemma sample_args: "\<forall>a \<in> set args. length a \<le> 32 \<Longrightarrow> \<exists>vs. map_outcome (simulate_arg sample_chain) args = Ok vs"
proof (induction args)
  case (Cons a args)
  then obtain v vs where "simulate_arg sample_chain a = Ok v" and "map_outcome (simulate_arg sample_chain) args = Ok vs"
    using sample_arg [of a] by auto
  then show ?case by (simp add: outcome_ops)
qed simp

lemma sample_simulate:
  assumes "\<forall>a \<in> set args. length a \<le> 32" and "length m \<le> 32" and "simulate_reply sample_reader b = Ok v"
  shows "simulate_contract_call sample_system c m args (reply b # rs, n, t) = (Ok v, (rs, Suc n, t))"
proof -
  obtain vs where vs: "map_outcome (simulate_arg sample_chain) args = Ok vs" using sample_args [OF assms(1)] by blast
  have "simulate_payload sample_system c m args = Ok ''simulateTransaction''"
    using assms(2) vs
    by (simp add: simulate_payload_def sample_system_def outcome_ops build_invoke_tx_def
        account_strkey_to_muxed_def strkey_to_sc_address_def to_vec_def sample_config_def sample_chain_def)
  then have "simulate_contract_call_once sample_system c m args (reply b # rs, n, t) = (Ok v, (rs, Suc n, t))"
    using assms(3) by (simp add: simulate_contract_call_once_def bind_action_def return_action_def map_err_action_def
        outcome_ops sample_system_def)
  then show ?thesis
    by (simp add: simulate_contract_call_def map_err_action_def retry_with_backoff_def SIMULATE_RETRY_ATTEMPTS_def
        numeral_3_eq_3 outcome_ops)
qed

lemma sample_replies:
  "simulate_reply sample_reader ''count'' = Ok ''3''"
  "simulate_reply sample_reader ''keys'' = Ok ''abc''"
  "parse_u32_from_result sample_reader ''3'' = Ok 3"
  "parse_bytes_vec_from_result sample_reader ''abc'' = Ok [''a'', ''b'', ''c'']"
  by (simp_all add: simulate_reply_def sample_reader_def sample_keys_def outcome_ops parse_u32_from_result_def
      parse_bytes_vec_from_result_def parse_key_item_def u32_max_def)

lemma sample_pending:
  assumes "length cm \<le> 32" and "length km \<le> 32" and "st_start_index s < 3"
  shows "get_pending_keys sample_system cm km (s, (reply ''count'' # reply ''keys'' # rs, n, t))
    = (Ok (rotate_keys (st_start_index s) [''a'', ''b'', ''c'']),
       (s\<lparr>st_start_index := (st_start_index s + 1) mod 3\<rparr>, (rs, Suc (Suc n), t)))"
proof -
  have cfg: "cf_data_store_contract_id (sy_config sample_system) = ''CD''" "sy_json sample_system = sample_reader"
    by (simp_all add: sample_system_def sample_config_def)
  have digits: "length (nat_digits (st_start_index s)) \<le> 32" "length (nat_digits 3) \<le> 32"
  proof -
    have "length (nat_digits 0) \<le> 32" "length (nat_digits 1) \<le> 32" "length (nat_digits 2) \<le> 32"
      and three: "length (nat_digits 3) \<le> 32" by code_simp+
    moreover have "st_start_index s = 0 \<or> st_start_index s = 1 \<or> st_start_index s = 2" using assms(3) by linarith
    ultimately show "length (nat_digits (st_start_index s)) \<le> 32" by auto
    show "length (nat_digits 3) \<le> 32" by (rule three)
  qed
  have adv: "advance_start_index 3 (st_start_index s) = (Ok ((st_start_index s + 1) mod 3) :: (string, u32) outcome)"
    using assms(3) by (simp add: advance_start_index_def u32_max_def)
  show ?thesis
    using digits adv assms
    by (simp add: get_pending_keys_def Let_def bind_action_def return_action_def lift_snd_simp cfg sample_simulate
        sample_replies)
qed

definition sample_market :: script where
  "sample_market = (Ok (404, Ok []) # [reply ''count'', reply ''keys'', reply ''count'', reply ''keys'', reply ''count'', reply ''keys''], 0, 0)"

lemma sample_sweep:
  "sweep_expired_in_flight_keys sample_system (app_state_new, w) = (app_state_new, w)"
  by (simp add: sweep_expired_in_flight_keys_def sample_system_def script_env_def)

lemma sample_gate:
  "balance_gate sample_system (s, (Ok (404, Ok []) # rs, n, t)) = (Ok False, (s, (rs, Suc n, t)))"
  by (simp add: balance_gate_def check_keeper_balance_def get_account_balance_stroops_def sample_system_def
      http_get_def script_env_def outcome_ops)

lemma sample_cycle:
  "execute_keeper_cycle sample_system (app_state_new, sample_market)
     = (Ok (summary_skipped True False), (set_pending 3 3 3 app_state_new, ([], 7, 0)))"
proof -
  have p: "pending_or_none sample_system cm km (s, (reply ''count'' # reply ''keys'' # rs, n, t))
    = (Ok (rotate_keys (st_start_index s) [''a'', ''b'', ''c'']),
       (s\<lparr>st_start_index := (st_start_index s + 1) mod 3\<rparr>, (rs, Suc (Suc n), t)))"
    if "length cm \<le> 32" and "length km \<le> 32" and "st_start_index s < 3" for cm km s rs n t
    using sample_pending [OF that] by (simp add: pending_or_none_def)
  have t: "current_timestamp_secs (sy_env sample_system) w = (1700000000, w)" for w
    by (simp add: current_timestamp_secs_def sample_system_def script_env_def)
  have new: "st_start_index app_state_new = 0" "pc_prices (st_price_cache app_state_new) = []"
    by (simp_all add: app_state_new_def)
  have empty: "fresh_prices tokens now [] = []" for tokens now
    by (simp add: fresh_prices_def bt_collect_def bt_insert_all_def)
  have same: "set_pending 3 3 3 (app_state_new\<lparr>st_start_index := 0\<rparr>) = set_pending 3 3 3 app_state_new"
    by (simp add: app_state_new_def)
  let ?s = "\<lambda>i. app_state_new\<lparr>st_start_index := i\<rparr>"
  have p1: "pending_or_none sample_system ''get_order_count'' ''get_order_keys''
      (app_state_new, (reply ''count'' # reply ''keys'' # rs, n, t)) = (Ok [''a'', ''b'', ''c''], (?s 1, (rs, Suc (Suc n), t)))" for rs n t
    by (simp add: p new rotate_keys_def)
  have p2: "pending_or_none sample_system ''get_deposit_count'' ''get_deposit_keys''
      (?s 1, (reply ''count'' # reply ''keys'' # rs, n, t)) = (Ok [''b'', ''c'', ''a''], (?s 2, (rs, Suc (Suc n), t)))" for rs n t
    by (simp add: p rotate_keys_def)
  have p3: "pending_or_none sample_system ''get_withdrawal_count'' ''get_withdrawal_keys''
      (?s 2, (reply ''count'' # reply ''keys'' # rs, n, t)) = (Ok [''c'', ''a'', ''b''], (?s 0, (rs, Suc (Suc n), t)))" for rs n t
    by (simp add: p rotate_keys_def)
  have work: "execute_work sample_system [] False os ds ws (s, w) = (Ok (summary_skipped True False), (s, w))" for os ds ws s w
    by (simp add: execute_work_def bind_action_def return_action_def outcome_ops process_pending_stale)
  show ?thesis
    unfolding execute_keeper_cycle_def bind_action_def sample_sweep sample_market_def sample_gate prod.case
      outcome.case t new empty p1 p2 p3 Let_def
    using same by (simp add: work numeral_3_eq_3)
qed

section \<open>Gated cycles\<close>

text \<open>What the gated cycle does not touch.\<close>

definition untouched :: "app_state \<Rightarrow> app_state \<Rightarrow> bool" where
  "untouched s s' \<longleftrightarrow> same_keys s s' \<and> st_price_cache s' = st_price_cache s \<and> st_failures s' = st_failures s
     \<and> ks_last_executions (st_keeper_status s') = ks_last_executions (st_keeper_status s)"

lemma untouched_trans: "untouched s t \<Longrightarrow> untouched t u \<Longrightarrow> untouched s u"
  by (auto simp: untouched_def same_keys_def)

lemma untouched_reads:
  "untouched s (s\<lparr>st_start_index := i\<rparr>)" "untouched s (s\<lparr>st_balance_below_min := b\<rparr>)"
  "untouched s (set_pending a d e s)"
  by (simp_all add: untouched_def same_keys_def set_pending_def)

lemma execute_work_gated:
  assumes x: "execute_work S fresh False os ds ws (s, w) = (Ok m, (s', w'))"
    and g: "su_prices_stale m \<or> su_keeper_balance_low m"
  shows "m = summary_skipped True False \<and> s' = s"
proof -
  let ?r = "\<lambda>s w. \<lparr>kr_app = s, kr_summary = summary_skipped (fresh = []) False, kr_seq = None, kr_world = w\<rparr>"
  from x obtain s1 w1 r' where
    p: "(if fresh = [] then return_action (Ok ()) else publish_prices S fresh) (s, w) = (Ok (), (s1, w1))"
    and q: "process_pending S (fresh = []) os ds ws (?r s1 w1) = (Ok (), r')"
    and m: "m = kr_summary r'" "s' = kr_app r'"
    by (auto simp: execute_work_def bind_action_def outcome_ops split: prod.splits outcome.splits)
  have "flags r' = (fresh = [], False)" using flags_pending [OF q] by (simp add: flags_def summary_skipped_def)
  then have "fresh = []" using g m by (simp add: flags_def)
  then show ?thesis using p q m by (auto simp: process_pending_stale return_action_def)
qed

text \<open>
  C15: A cycle without a fresh price, or with a balance known to be low, submits nothing at all:
  its summary counts no work and no error, no price is published, and apart from the eviction
  of expired claims the keys, the failures and the log of executions are what they were.
\<close>

theorem gated_cycle_leaves_work:
  assumes "execute_keeper_cycle S (s, w) = (Ok m, (s', w'))" and "su_prices_stale m \<or> su_keeper_balance_low m"
  shows "m = summary_skipped (su_prices_stale m) (su_keeper_balance_low m)
    \<and> untouched (fst (sweep_expired_in_flight_keys S (s, w))) s'"
  using assms(1)
proof (rule execute_keeper_cycle_cases)
  fix low s1 w1 now w2 os s2 w3 ds s3 w4 ws s4 w5 fresh s5
  assume gate: "balance_gate S (sweep_expired_in_flight_keys S (s, w)) = (Ok low, (s1, w1))"
    and po: "pending_or_none S ''get_order_count'' ''get_order_keys'' (s1, w2) = (Ok os, (s2, w3))"
    and pd: "pending_or_none S ''get_deposit_count'' ''get_deposit_keys'' (s2, w3) = (Ok ds, (s3, w4))"
    and pw: "pending_or_none S ''get_withdrawal_count'' ''get_withdrawal_keys'' (s3, w4) = (Ok ws, (s4, w5))"
    and s5: "s5 = set_pending (length os) (length ds) (length ws) s4"
    and tail: "if os = [] \<and> ds = [] \<and> ws = [] \<or> low
         then Ok m = Ok (summary_skipped (fresh = []) low) \<and> s' = s5 \<and> w' = w5
         else execute_work S fresh low os ds ws (s5, w5) = (Ok m, (s', w'))"
  let ?s0 = "fst (sweep_expired_in_flight_keys S (s, w))"
  have s1: "untouched ?s0 s1"
    using balance_gate_frame [of S ?s0 "snd (sweep_expired_in_flight_keys S (s, w))" "Ok low" s1 w1] gate
      untouched_reads(2) by fastforce
  have "untouched t t'" if "pending_or_none S c k (t, v) = (y, (t', v'))" for c k t v y t' v'
    using pending_or_none_frame [OF that] untouched_reads(1) by auto
  note read = this
  have "untouched ?s0 s4"
    by (rule untouched_trans [OF untouched_trans [OF untouched_trans [OF s1 read [OF po]] read [OF pd]] read [OF pw]])
  then have u: "untouched ?s0 s5" unfolding s5 by (rule untouched_trans) (rule untouched_reads)
  show ?thesis
  proof (cases "os = [] \<and> ds = [] \<and> ws = [] \<or> low")
    case True
    then have "m = summary_skipped (fresh = []) low" "s' = s5" using tail by auto
    then show ?thesis using u by (simp add: summary_skipped_def)
  next
    case False
    then have "execute_work S fresh False os ds ws (s5, w5) = (Ok m, (s', w'))" using tail by auto
    from execute_work_gated [OF this assms(2)] show ?thesis using u by (simp add: summary_skipped_def)
  qed
qed simp

theorem gated_cycle_leaves_work_witness:
  "summary_skipped True False
      = summary_skipped (su_prices_stale (summary_skipped True False)) (su_keeper_balance_low (summary_skipped True False))
    \<and> untouched (fst (sweep_expired_in_flight_keys sample_system (app_state_new, sample_market)))
        (set_pending 3 3 3 app_state_new)"
  by (rule gated_cycle_leaves_work [OF sample_cycle]) (simp add: summary_skipped_def)

section \<open>Pending keys\<close>

lemma rotate_keys_rotate: "n < length ks \<Longrightarrow> rotate_keys n ks = rotate n ks"
  by (simp add: rotate_keys_def rotate_drop_take)

lemma get_pending_keys_rotated:
  assumes "get_pending_keys S count_method keys_method (s, w) = (Ok ks, (s', w'))" and "ks \<noteq> []"
  shows "\<exists>count_result w1 keys_result keys.
    simulate_contract_call S (cf_reader_contract_id (sy_config S)) count_method
      [cf_data_store_contract_id (sy_config S)] w = (Ok count_result, w1)
    \<and> parse_u32_from_result (sy_json S) count_result = Ok (length keys)
    \<and> simulate_contract_call S (cf_reader_contract_id (sy_config S)) keys_method
      [cf_data_store_contract_id (sy_config S), nat_digits (st_start_index s), nat_digits (length keys)] w1
      = (Ok keys_result, w')
    \<and> parse_bytes_vec_from_result (sy_json S) keys_result = Ok keys
    \<and> ks = (if st_start_index s < length keys then rotate (st_start_index s) keys else keys)
    \<and> s' = s\<lparr>st_start_index := (st_start_index s + 1) mod length keys\<rparr>"
proof -
  let ?i = "st_start_index s"
  from assms obtain count_result w1 count i' keys_result keys where
      count: "simulate_contract_call S (cf_reader_contract_id (sy_config S)) count_method
        [cf_data_store_contract_id (sy_config S)] w = (Ok count_result, w1)"
      "parse_u32_from_result (sy_json S) count_result = Ok count" "count \<noteq> 0"
    and i': "advance_start_index count ?i = (Ok i' :: (string, u32) outcome)" and s': "s' = s\<lparr>st_start_index := i'\<rparr>"
    and read: "simulate_contract_call S (cf_reader_contract_id (sy_config S)) keys_method
        [cf_data_store_contract_id (sy_config S), nat_digits ?i, nat_digits count] w1 = (Ok keys_result, w')"
      "parse_bytes_vec_from_result (sy_json S) keys_result = Ok keys" "length keys = count"
    and ks: "ks = rotate_keys ?i keys"
    unfolding get_pending_keys_def Let_def
    by (auto simp: bind_action_def return_action_def lift_snd_def
        split: outcome.splits prod.splits if_splits)
  have "i' = (?i + 1) mod length keys"
    using i' count(3) read(3) by (cases "count = 1") (auto simp: advance_start_index_def split: if_splits)
  moreover have "ks = (if ?i < length keys then rotate ?i keys else keys)"
    using ks by (simp add: rotate_keys_rotate) (simp add: rotate_keys_def)
  ultimately show ?thesis using count(1,2) read s' by blast
qed

text \<open>
  C16: The keys a cycle works on are exactly those the reader contract reported: a successful read
  asks it for their number and then for as many keys from the shared start index on, and yields
  the keys of that reply, rotated by the index when it is below their number and as they came
  otherwise; the next index is left for the next read.
\<close>

theorem pending_keys_rotated:
  assumes "get_pending_keys S count_method keys_method (s, w) = (Ok ks, (s', w'))" and "ks \<noteq> []"
  shows "\<exists>count_result w1 keys_result keys.
    simulate_contract_call S (cf_reader_contract_id (sy_config S)) count_method
      [cf_data_store_contract_id (sy_config S)] w = (Ok count_result, w1)
    \<and> parse_u32_from_result (sy_json S) count_result = Ok (length keys)
    \<and> simulate_contract_call S (cf_reader_contract_id (sy_config S)) keys_method
      [cf_data_store_contract_id (sy_config S), nat_digits (st_start_index s), nat_digits (length keys)] w1
      = (Ok keys_result, w')
    \<and> parse_bytes_vec_from_result (sy_json S) keys_result = Ok keys
    \<and> ks = (if st_start_index s < length keys then rotate (st_start_index s) keys else keys)
    \<and> s' = s\<lparr>st_start_index := (st_start_index s + 1) mod length keys\<rparr>"
  by (rule get_pending_keys_rotated [OF assms])

theorem pending_keys_rotated_witness:
  "\<exists>keys_result keys w1. simulate_contract_call sample_system (cf_reader_contract_id (sy_config sample_system)) ''k''
      [cf_data_store_contract_id (sy_config sample_system), nat_digits 1, nat_digits (length keys)] w1
      = (Ok keys_result, ([], 2, 0))
    \<and> parse_bytes_vec_from_result (sy_json sample_system) keys_result = Ok keys
    \<and> [''b'', ''c'', ''a''] = (if 1 < length keys then rotate 1 keys else keys)"
proof -
  have "get_pending_keys sample_system ''c'' ''k'' (app_state_new\<lparr>st_start_index := 1\<rparr>, ([reply ''count'', reply ''keys''], 0, 0))
      = (Ok [''b'', ''c'', ''a''], (app_state_new\<lparr>st_start_index := 2\<rparr>, ([], 2, 0)))"
    by (subst sample_pending) (simp_all add: rotate_keys_def)
  note read = pending_keys_rotated [OF this list.distinct(2)]
  have i: "st_start_index (app_state_new\<lparr>st_start_index := 1\<rparr>) = 1" by simp
  from read [unfolded i] show ?thesis by blast
qed

section \<open>Prices that barely moved\<close>

text \<open>A move that is not reported is within the threshold, overflows included.\<close>

lemma unreported_move:
  assumes "\<not> move_exceeds_bps lst median bps"
  shows "\<bar>median - lst\<bar> * 10000 \<le> \<bar>lst\<bar> * int bps"
proof (cases "in_i128 (median - lst) \<and> in_i128 \<bar>median - lst\<bar> \<and> median \<noteq> lst \<and> in_i128 (\<bar>median - lst\<bar> * 10000)
    \<and> in_i128 \<bar>lst\<bar> \<and> in_i128 (\<bar>lst\<bar> * int bps)")
  case True
  then show ?thesis using assms by (simp add: move_exceeds_bps_def checked_i128_def BPS_DENOMINATOR_def)
next
  case False
  have "median = lst"
  proof (rule ccontr)
    assume "median \<noteq> lst"
    with False assms show False
      by (cases "in_i128 (median - lst)"; cases "in_i128 \<bar>median - lst\<bar>"; cases "in_i128 \<bar>lst\<bar>")
        (auto simp: move_exceeds_bps_def checked_i128_def BPS_DENOMINATOR_def split: if_splits)
  qed
  then show ?thesis by simp
qed

text \<open>
  C17: A fresh price is left out of a publication only when it barely moved: no heartbeat is due,
  a median of its token was submitted before, its token has a threshold, and the move since
  then, scaled exactly, is within that threshold. No overflow suppresses a move.
\<close>

theorem suppressed_price_barely_moved:
  assumes "bt_wf prices" and "bt_get prices k = Some p"
    and "bt_get (filter_prices_by_threshold tokens cache prices heartbeat) k = None"
  shows "\<not> heartbeat \<and> (\<exists>medians lst threshold. pc_last_submitted_medians cache = Some medians
    \<and> bt_get medians k = Some lst \<and> token_thresholds tokens k = Some threshold \<and> 0 < threshold
    \<and> \<bar>cp_median p - lst\<bar> * 10000 \<le> \<bar>lst\<bar> * int threshold)"
proof -
  have "\<not> should_submit tokens cache heartbeat k p"
    using assms bt_get_filter [OF assms(1), of "\<lambda>(key, price). should_submit tokens cache heartbeat key price" k p]
    by (auto simp: filter_prices_by_threshold_def)
  then show ?thesis
    using unreported_move
    by (auto simp: should_submit_def Let_def split: if_splits option.splits bind_splits)
qed

definition sample_cache :: price_cache where
  "sample_cache = \<lparr>pc_prices = [], pc_last_updated = None,
     pc_last_submitted_medians = Some [(''t'', 10000)], pc_last_full_submission = None\<rparr>"

definition quiet_token :: token_config where
  "quiet_token = token_config_default\<lparr>tc_symbol := ''T'', tc_submit_threshold_bps := 10\<rparr>"

lemma quiet_token_threshold: "token_thresholds [quiet_token] ''t'' = Some 10"
  by code_simp

theorem suppressed_price_barely_moved_witness:
  "\<not> False \<and> (\<exists>medians lst threshold. pc_last_submitted_medians sample_cache = Some medians
    \<and> bt_get medians ''t'' = Some lst \<and> token_thresholds [quiet_token] ''t'' = Some threshold \<and> 0 < threshold
    \<and> \<bar>cp_median (sample_price\<lparr>cp_median := 10008\<rparr>) - lst\<bar> * 10000 \<le> \<bar>lst\<bar> * int threshold)"
proof (rule suppressed_price_barely_moved [where prices = "[(''t'', sample_price\<lparr>cp_median := 10008\<rparr>)]"])
  have "\<not> move_exceeds_bps 10000 10008 10"
    by (simp add: move_exceeds_bps_def BPS_DENOMINATOR_def checked_i128_def int_ops)
  then have "\<not> should_submit [quiet_token] sample_cache False ''t'' (sample_price\<lparr>cp_median := 10008\<rparr>)"
    by (simp add: should_submit_def quiet_token_threshold sample_cache_def bt_get_def)
  then show "bt_get (filter_prices_by_threshold [quiet_token] sample_cache
      [(''t'', sample_price\<lparr>cp_median := 10008\<rparr>)] False) ''t'' = None"
    by (simp add: filter_prices_by_threshold_def bt_get_collect)
qed (simp_all add: bt_wf_def bt_get_def)

section \<open>The account sequence of a cycle\<close>

lemma he_submit_submitted [simp]: "he_submit (handler_submitted cd operation s) = Some s"
  by (simp add: handler_submitted_def)



text \<open>A confirmed call in the sample system, and one that runs out of budget.\<close>

definition budget_codec :: codec where
  "budget_codec = sample_codec\<lparr>cd_get := \<lambda>b. Ok \<lparr>resp_result = Some \<lparr>gr_status = b, gr_ledger = Some 100,
     gr_events = Some [BUDGET_EXCEEDED_PATTERN]\<rparr>, resp_error = None\<rparr>\<rparr>"

definition budget_system :: "script system" where
  "budget_system = sample_system\<lparr>sy_codec := budget_codec\<rparr>"

lemma budget_submit:
  "submit_and_poll script_env budget_codec url xdr (reply ''PENDING'' # reply st # rs, n, t) =
     (case poll_status \<lparr>gr_status = st, gr_ledger = Some 100, gr_events = Some [BUDGET_EXCEEDED_PATTERN]\<rparr> INITIAL_BACKOFF_MS of
        PollDone r \<Rightarrow> (r, (rs, Suc (Suc n), t))
      | PollWait d b \<Rightarrow> poll_loop script_env budget_codec url ''h'' 5 b (rs, Suc (Suc n), t + d))"
proof -
  have "send_transaction_xdr script_env budget_codec url xdr (reply ''PENDING'' # reply st # rs, n, t)
      = send_transaction_xdr script_env sample_codec url xdr (reply ''PENDING'' # reply st # rs, n, t)"
    by (simp add: send_transaction_xdr_def parse_send_response_def budget_codec_def)
  moreover have "poll_once script_env budget_codec url ''h'' INITIAL_BACKOFF_MS (reply st # rs, Suc n, t) =
    (poll_status \<lparr>gr_status = st, gr_ledger = Some 100, gr_events = Some [BUDGET_EXCEEDED_PATTERN]\<rparr> INITIAL_BACKOFF_MS,
     (rs, Suc (Suc n), t))"
    by (simp add: poll_once_def parse_get_transaction_response_def budget_codec_def)
  ultimately show ?thesis
    by (simp add: submit_and_poll_def bind_action_def poll_until_confirmed_step split: poll_step.split)
qed

lemma budget_handler:
  assumes "length m \<le> 32"
  shows "execute_handler budget_system c m key (Some seq, w) = submit_handler budget_system m seq ''envelope'' (Some seq, w)"
  using assms
  by (simp add: execute_handler_def bind_action_def return_action_def budget_system_def sample_system_def
      sample_chain_def to_vec_def cached_sequence_hit lift_snd_simp signed_invocation_def current_timestamp_secs_def
      strkey_to_sc_address_def build_invoke_tx_def account_strkey_to_muxed_def sample_config_def sign_keeper_tx_def
      sign_transaction_with_key_def outcome_ops script_env_def Let_def case_prod_beta)

lemma budget_handler_ok:
  assumes "length m \<le> 32" and "seq < u64_max"
  shows "execute_handler budget_system c m key (Some seq, (reply ''PENDING'' # reply ''SUCCESS'' # rs, n, t))
    = (Ok (''confirmed on ledger '' @ nat_digits 100), (Some (seq + 1), (rs, Suc (Suc n), t)))"
  unfolding budget_handler [OF assms(1)] using assms(2)
  by (simp add: submit_handler_def budget_system_def sample_system_def sample_config_def budget_submit poll_status_def
      checked_succ_def outcome_ops checked_u64_def)


text \<open>
  C36: When the node accepts a transaction and the first poll of it is lost to an error that is not
  retried, the call is reported as settled and keeps its number: the next call of the cycle is
  signed with the same number, although the transaction that carries it may still be applied. If
  it is, the next call fails with a bad sequence.
\<close>

theorem sequence_kept_after_lost_poll:
  assumes "send_transaction_xdr (sy_env S) (sy_codec S) (cf_stellar_rpc_url (sy_config S)) xdr w = (Ok hash, w1)"
    and "cd_request (sy_codec S) ''getTransaction'' (HashParam hash) = Ok payload"
    and "rpc_post (sy_env S) (cf_stellar_rpc_url (sy_config S)) payload w1 = (Err e, w2)" and "\<not> rpc_retryable e"
    and "\<not> is_bad_sequence (sy_codec S) (SubmitRpc e)"
    and "submit_handler S meth seq xdr (cache, w) = (x, (cache', w'))"
  shows "x = Err (handler_submitted (sy_codec S) meth (SubmitRpc e))
    \<and> \<not> handler_may_still_confirm (handler_submitted (sy_codec S) meth (SubmitRpc e))
    \<and> fst (cached_sequence S (cache', v)) = Ok seq"
proof -
  have "poll_once (sy_env S) (sy_codec S) (cf_stellar_rpc_url (sy_config S)) hash b w1 = (PollDone (Err (SubmitRpc e)), w2)" for b
    using assms(2-4) by (simp add: poll_once_def)
  then have "submit_and_poll (sy_env S) (sy_codec S) (cf_stellar_rpc_url (sy_config S)) xdr w = (Err (SubmitRpc e), w2)"
    using assms(1) by (simp add: submit_and_poll_def bind_action_def poll_until_confirmed_step)
  then show ?thesis using assms(5,6)
    by (auto simp: submit_handler_def sequence_after_error_def handler_may_still_confirm_def handler_submitted_def cached_sequence_def)
qed

theorem sequence_kept_after_lost_poll_witness:
  "case submit_handler sample_system ''execute_order'' 7 ''x'' (Some 7, ([reply ''PENDING'', Ok (404, Ok [])], 0, 0)) of
     (x, (cache', w')) \<Rightarrow> fst (cached_sequence sample_system (cache', w')) = Ok 7"
proof -
  obtain x cache' w' where x: "submit_handler sample_system ''execute_order'' 7 ''x''
      (Some 7, ([reply ''PENDING'', Ok (404, Ok [])], 0, 0)) = (x, (cache', w'))" by (metis prod.exhaust)
  have sys: "sy_env sample_system = script_env" "sy_codec sample_system = sample_codec"
    by (simp_all add: sample_system_def)
  have good: "\<not> is_bad_sequence sample_codec (SubmitRpc (RpcHttp 404 (truncate_error_body [])))"
    unfolding is_bad_sequence_def by simp code_simp
  have "fst (cached_sequence sample_system (cache', w')) = Ok 7"
    using sequence_kept_after_lost_poll [of sample_system _ _ "''h''", OF _ _ _ _ _ x] good
    by (simp add: sys)
  then show ?thesis unfolding x by simp
qed

section \<open>Frozen orders\<close>

text \<open>
  C37: An order that ran out of budget and was frozen starts over with one failure: freezing it
  drops its count, and the guard that follows counts the same failure again.
\<close>

theorem frozen_order_restarts_count:
  assumes "process_order S k r = (Ok (), r')"
    and "st_blacklist (kr_app r) k = None" and "claim_key S k r = (True, r1)"
    and "run_handler S (cf_order_handler_contract_id (sy_config S)) ''execute_order'' k r1 = (Err e, r2)"
    and "\<not> handler_may_still_confirm e" and "\<not> is_market_paused_error e" and "is_budget_exceeded (sy_chain S) e"
    and "run_handler S (cf_order_handler_contract_id (sy_config S)) ''freeze_order'' k
      (count_error (on_app (release_key k) r2)) = (Ok tx, r3)"
  shows "st_execution_failures (kr_app r') k = Some 1 \<and> st_freeze_failures (kr_app r') k = None"
proof -
  let ?h = "cf_order_handler_contract_id (sy_config S)"
  have "order_failed S k e r2 = (Ok (), r')"
    using assms by (simp add: process_order_def guarded_def attempt_def)
  moreover have "freeze_order S k (count_error (on_app (release_key k) r2))
      = (Ok None, on_app (clear_execution_failures k) (on_app (clear_freeze_failures k) r3))"
    using assms(8) by (simp add: freeze_order_def)
  ultimately obtain r4 where a: "abandon_if_broken S ?h ''freeze_order'' k
      (on_app (clear_execution_failures k) (on_app (clear_freeze_failures k) r3)) = (Ok (), r4)"
    and r': "r' = record_failed_work S ''execute_order'' k (he_message e) (he_message e) None r4"
    using assms(6,7) by (auto simp: order_failed_def bind_action_def split: prod.splits outcome.splits)
  have "same_keys (struck k (clear_execution_failures k (clear_freeze_failures k (kr_app r3)))) (kr_app r')"
    using same_keys_trans [OF abandon_struck [OF a] record_failed_work_keys] r' by simp
  then show ?thesis
    by (simp add: same_keys_def struck_def next_count_def clear_execution_failures_def clear_freeze_failures_def limits)
qed

definition out_of_budget :: handler_error where
  "out_of_budget = handler_submitted budget_codec ''execute_order'' (TransactionFailed [BUDGET_EXCEEDED_PATTERN])"

lemma budget_handler_failed:
  "execute_handler budget_system c ''execute_order'' key (Some 7, (reply ''PENDING'' # reply ''FAILED'' # rs, n, t))
    = (Err out_of_budget, (Some 8, (rs, Suc (Suc n), t)))"
proof -
  have "truncate_events_for_log [BUDGET_EXCEEDED_PATTERN] = Some [BUDGET_EXCEEDED_PATTERN]" by code_simp
  then have "poll_status \<lparr>gr_status = ''FAILED'', gr_ledger = Some 100, gr_events = Some [BUDGET_EXCEEDED_PATTERN]\<rparr> b
      = PollDone (Err (TransactionFailed [BUDGET_EXCEEDED_PATTERN]))" for b
    by (simp add: poll_status_def)
  moreover have "\<not> is_bad_sequence_error (submit_error_message budget_codec (TransactionFailed [BUDGET_EXCEEDED_PATTERN]))"
    by (simp add: budget_codec_def sample_codec_def) code_simp
  ultimately show ?thesis
    by (subst budget_handler) (simp_all add: submit_handler_def budget_system_def sample_system_def sample_config_def budget_submit
      checked_succ_def outcome_ops checked_u64_def u64_max_def sequence_after_error_def is_bad_sequence_def out_of_budget_def)
qed

lemma out_of_budget_message:
  "he_message out_of_budget = ''execute_order submit failed: transaction failed on-chain; diagnostic events: []''"
  by (simp add: out_of_budget_def handler_submitted_def budget_codec_def sample_codec_def)

lemma out_of_budget:
  "\<not> handler_may_still_confirm out_of_budget" "\<not> is_market_paused_error out_of_budget"
  "is_budget_exceeded (sy_chain budget_system) out_of_budget"
proof -
  have "\<not> contains_str ''execute_order submit failed: transaction failed on-chain; diagnostic events: []'' MARKET_PAUSED_PATTERN"
    by code_simp
  then show "\<not> is_market_paused_error out_of_budget" unfolding is_market_paused_error_def out_of_budget_message .
  have "contains_str BUDGET_EXCEEDED_PATTERN BUDGET_EXCEEDED_PATTERN" by code_simp
  then show "is_budget_exceeded (sy_chain budget_system) out_of_budget"
    by (simp add: is_budget_exceeded_def handler_diagnostic_events_def out_of_budget_def)
qed (simp add: out_of_budget_def handler_may_still_confirm_def)

definition budget_run :: "script keeper_run" where
  "budget_run = sample_run\<lparr>kr_seq := Some 7,
     kr_world := ([reply ''PENDING'', reply ''FAILED'', reply ''PENDING'', reply ''SUCCESS''], 0, 0)\<rparr>"

definition claimed_run :: "script keeper_run" where
  "claimed_run = budget_run\<lparr>kr_app := app_state_new\<lparr>st_in_flight := [''k'' \<mapsto> 0]\<rparr>\<rparr>"

lemma budget_claim: "claim_key budget_system ''k'' budget_run = (True, claimed_run)"
  by (simp add: claim_key_def budget_run_def claimed_run_def sample_run_def budget_system_def sample_system_def script_env_def)

lemma budget_execute:
  "run_handler budget_system c ''execute_order'' ''k'' claimed_run = (Err out_of_budget,
     claimed_run\<lparr>kr_seq := Some 8, kr_world := ([reply ''PENDING'', reply ''SUCCESS''], 2, 0)\<rparr>)"
  by (simp add: run_handler_def claimed_run_def budget_run_def sample_run_def budget_handler_failed)

definition frozen_run :: "script keeper_run" where
  "frozen_run = count_error (on_app (release_key ''k'')
     (claimed_run\<lparr>kr_seq := Some 8, kr_world := ([reply ''PENDING'', reply ''SUCCESS''], 2, 0)\<rparr>))"

lemma budget_freeze:
  "run_handler budget_system c ''freeze_order'' ''k'' frozen_run
    = (Ok (''confirmed on ledger '' @ nat_digits 100), frozen_run\<lparr>kr_seq := Some 9, kr_world := ([], 4, 0)\<rparr>)"
proof -
  have "kr_seq frozen_run = Some 8" "kr_world frozen_run = ([reply ''PENDING'', reply ''SUCCESS''], 2, 0)"
    by (simp_all add: frozen_run_def count_error_def on_summary_def on_app_def)
  moreover have "execute_handler budget_system c ''freeze_order'' ''k'' (Some 8, ([reply ''PENDING'', reply ''SUCCESS''], 2, 0))
    = (Ok (''confirmed on ledger '' @ nat_digits 100), (Some 9, ([], 4, 0)))"
    by (subst budget_handler_ok) (simp_all add: u64_max_def)
  ultimately show ?thesis by (simp add: run_handler_def)
qed

lemma budget_order_ends: "fst (process_order budget_system ''k'' budget_run) \<noteq> Panic"
proof -
  have "fst (process_order budget_system ''k'' budget_run) = fst (order_failed budget_system ''k'' out_of_budget
      (claimed_run\<lparr>kr_seq := Some 8, kr_world := ([reply ''PENDING'', reply ''SUCCESS''], 2, 0)\<rparr>))"
    using out_of_budget budget_claim budget_execute
    by (simp add: process_order_def guarded_def attempt_def budget_run_def sample_run_def)
  also have "\<dots> \<noteq> Panic"
    using out_of_budget budget_freeze
    by (auto simp: order_failed_def bind_action_def freeze_order_def abandon_if_broken_def Let_def next_count_def limits
        clear_execution_failures_def frozen_run_def [symmetric] split: prod.splits outcome.splits)
  finally show ?thesis .
qed

theorem frozen_order_restarts_count_witness:
  "st_execution_failures (kr_app (snd (process_order budget_system ''k'' budget_run))) ''k'' = Some 1
    \<and> st_freeze_failures (kr_app (snd (process_order budget_system ''k'' budget_run))) ''k'' = None"
  by (rule frozen_order_restarts_count [OF failing_step [OF never_fails_process(1) budget_order_ends]
        _ budget_claim budget_execute out_of_budget budget_freeze [unfolded frozen_run_def]])
    (simp add: budget_run_def sample_run_def)

section \<open>The snapshot\<close>

text \<open>
  The status snapshot can pair counts from before a cycle with timing from after its work:
  the generation is odd for the whole cycle, so a reader that takes the counts before the
  cycle sets them and the timing after it is stamped sees one generation and does not retry.
\<close>

theorem snapshot_can_be_torn:
  "keeper_status_snapshot (\<lambda>t. if t \<le> 1 then start_keeper_cycle s
      else stamp_keeper_cycle t0 latency (set_pending orders deposits withdrawals (start_keeper_cycle s)))
   = (st_keeper_status s, (st_cycle_status s)\<lparr>cy_keeper_cycle_running := False,
        cy_last_keeper_cycle_at := Some t0, cy_last_keeper_cycle_latency_ms := Some latency\<rparr>)"
proof -
  have eight: "(8 :: nat) = Suc 7" by simp
  show ?thesis
    unfolding keeper_status_snapshot_def eight snapshot_loop.simps
    by (simp add: start_keeper_cycle_def stamp_keeper_cycle_def set_pending_def)
qed

end
