(* ===== verification/Oracle_Price_Cycle.thy ===== *)
theory Oracle_Price_Cycle
  imports Oracle_Keeper Oracle_Price_Spec
begin

text \<open>
  The price cycle (\<^verbatim>\<open>price_loop.rs\<close>): every source of a token with its retries, the aggregation
  and signature of a cached price, and the update of the cache. The requests of a cycle that
  the code joins run here in the order they are written; the tokens are built one after the
  other. How an \<^verbatim>\<open>f64\<close> prints with two decimals and how an error prints for debugging are
  parameters.
\<close>

section \<open>Sources\<close>

record formats =
  fo_bps :: "f64 \<Rightarrow> string"
  fo_debug :: "binance_error \<Rightarrow> string"

record price_with_observation_time =
  po_price :: i128
  po_observation_time :: u64

datatype price_source_error =
    SourceBinance binance_error
  | SourceCoinbase coinbase_error
  | SourcePyth pyth_error
  | SourceFixed fixed_error
  | SourceConfig string
  | SourceUnsupported string

fun price_source_message :: "formats \<Rightarrow> price_source_error \<Rightarrow> string" where
  "price_source_message F (SourceBinance e) = binance_error_message e"
| "price_source_message F (SourceCoinbase e) = coinbase_error_message e"
| "price_source_message F (SourcePyth e) = pyth_error_message (fo_bps F) e"
| "price_source_message F (SourceFixed e) = fixed_error_message e"
| "price_source_message F (SourceConfig msg) = ''config error: '' @ msg"
| "price_source_message F (SourceUnsupported source) = ''unsupported source: '' @ source"

fun price_source_retryable :: "price_source_error \<Rightarrow> bool" where
  "price_source_retryable (SourceBinance e) = binance_retryable e"
| "price_source_retryable (SourceCoinbase e) = coinbase_retryable e"
| "price_source_retryable (SourcePyth e) = pyth_retryable e"
| "price_source_retryable (SourceFixed e) = fixed_retryable e"
| "price_source_retryable (SourceConfig _) = False"
| "price_source_retryable (SourceUnsupported _) = False"

definition SOURCE_RETRY_ATTEMPTS :: nat where "SOURCE_RETRY_ATTEMPTS = 3"
definition SOURCE_RETRY_BASE_DELAY_MS :: u64 where "SOURCE_RETRY_BASE_DELAY_MS = 100"
definition LEDGER_SEQUENCE_RETRY_ATTEMPTS :: nat where "LEDGER_SEQUENCE_RETRY_ATTEMPTS = 3"
definition LEDGER_SEQUENCE_RETRY_BASE_DELAY_MS :: u64 where "LEDGER_SEQUENCE_RETRY_BASE_DELAY_MS = 100"
definition PRICE_CYCLE_TIMEOUT_SECS :: u64 where "PRICE_CYCLE_TIMEOUT_SECS = 60"

text \<open>What the batched requests of a cycle brought: the feeds, whether they failed, the tickers.\<close>

record batch =
  ba_pyth :: "string \<rightharpoonup> pyth_price_feed"
  ba_pyth_failed :: bool
  ba_binance :: "(string \<rightharpoonup> i128) option"

definition observed_now :: "u64 \<Rightarrow> i128 \<Rightarrow> price_with_observation_time" where
  "observed_now now price = \<lparr>po_price = price, po_observation_time = now\<rparr>"

definition validated_feed ::
  "token_config \<Rightarrow> u64 \<Rightarrow> pyth_price_feed \<Rightarrow> (pyth_error, price_with_observation_time) outcome" where
  "validated_feed token now feed =
     bind_outcome (validate_pyth_price (pf_price feed) now (tc_stale_after_seconds token)
         (tc_pyth_max_confidence_bps token))
       (\<lambda>result. Ok \<lparr>po_price = pt_price result, po_observation_time = pt_observation_time result\<rparr>)"

definition fetch_binance ::
  "'w system \<Rightarrow> token_config \<Rightarrow> batch \<Rightarrow> u64 \<Rightarrow> ('w, price_source_error, price_with_observation_time) action" where
  "fetch_binance S token batch now =
     (case tc_binance_symbol token of
        None \<Rightarrow> return_action (Err (SourceConfig ''missing binance_symbol''))
      | Some symbol \<Rightarrow>
          (case ba_binance batch of
             Some prices \<Rightarrow>
               return_action (or_err (SourceConfig (''binance symbol not returned in batch: '' @ symbol))
                 (map_option (observed_now now) (prices symbol)))
           | None \<Rightarrow>
               bind_action (map_err_action SourceBinance (fetch_spot_prices (sy_env S) (sy_http_json S) [symbol]))
                 (\<lambda>results. return_action (or_err (SourceConfig (''binance symbol not returned: '' @ symbol))
                    (map_option (\<lambda>(_, price). observed_now now price)
                      (find (\<lambda>(got_symbol, _). got_symbol = symbol) results))))))"

definition fetch_coinbase ::
  "'w system \<Rightarrow> formats \<Rightarrow> token_config \<Rightarrow> u64 \<Rightarrow> ('w, price_source_error, price_with_observation_time) action" where
  "fetch_coinbase S F token now =
     (case tc_coinbase_symbol token of
        None \<Rightarrow> return_action (Err (SourceConfig ''missing coinbase_symbol''))
      | Some symbol \<Rightarrow>
          bind_action (map_err_action SourceCoinbase
              (fetch_spot_price_with_url (sy_env S) (sy_http_json S) (fo_debug F)
                 (cf_coinbase_base_url (sy_config S)) symbol))
            (\<lambda>price. return_action (Ok (observed_now now price))))"

definition fetch_pyth ::
  "'w system \<Rightarrow> token_config \<Rightarrow> batch \<Rightarrow> u64 \<Rightarrow> ('w, price_source_error, price_with_observation_time) action" where
  "fetch_pyth S token batch now =
     (case tc_pyth_feed_id token of
        None \<Rightarrow> return_action (Err (SourceConfig ''missing pyth_feed_id''))
      | Some feed_id \<Rightarrow>
          map_err_action SourcePyth
            (case ba_pyth batch feed_id of
               Some feed \<Rightarrow> return_action (validated_feed token now feed)
             | None \<Rightarrow>
                 if ba_pyth_failed batch
                 then return_action (Err (PythNetwork ''batch request failed, skipping individual fallback''))
                 else bind_action (fetch_pyth_prices (sy_env S) (sy_http_json S) [feed_id]
                          (cf_pyth_api_key (sy_config S)))
                        (\<lambda>feeds. return_action (bind_outcome (or_err (MissingFeedId feed_id) (feeds feed_id))
                           (validated_feed token now)))))"

definition fetch_source_price ::
  "'w system \<Rightarrow> formats \<Rightarrow> token_config \<Rightarrow> batch \<Rightarrow> string
    \<Rightarrow> ('w, price_source_error, price_with_observation_time) action" where
  "fetch_source_price S F token batch source w =
     (case current_timestamp_secs (sy_env S) w of (now, w1) \<Rightarrow>
        (if source = ''binance'' then fetch_binance S token batch now
         else if source = ''coinbase'' then fetch_coinbase S F token now
         else if source = ''pyth'' then fetch_pyth S token batch now
         else if source = ''fixed''
         then return_action (map_err SourceFixed (bind_outcome (fixed_price token) (\<lambda>p. Ok (observed_now now p))))
         else return_action (Err (SourceUnsupported source))) w1)"

definition fetch_source_with_retry ::
  "'w system \<Rightarrow> formats \<Rightarrow> token_config \<Rightarrow> batch \<Rightarrow> string
    \<Rightarrow> ('w, price_source_error, price_with_observation_time) action" where
  "fetch_source_with_retry S F token batch source =
     retry_with_backoff (sy_env S) price_source_retryable (fetch_source_price S F token batch source)
       SOURCE_RETRY_ATTEMPTS SOURCE_RETRY_BASE_DELAY_MS MAX_BACKOFF_DELAY_MS"

section \<open>Building a cached price\<close>

definition record_error_with_context ::
  "'w system \<Rightarrow> string \<Rightarrow> string \<Rightarrow> string \<Rightarrow> string \<Rightarrow> u32 \<Rightarrow> app_state \<times> 'w \<Rightarrow> app_state \<times> 'w" where
  "record_error_with_context S operation error token symbol ledger_seq =
     (\<lambda>(s, w). case env_system (sy_env S) w of (t0, w1) \<Rightarrow>
        (case current_timestamp_secs (sy_env S) w1 of (secs, w2) \<Rightarrow>
           (s\<lparr>st_failures := ring_push (failure_entry (sy_config S) t0 secs operation error token symbol None ledger_seq)
                              (st_failures s)\<rparr>, w2)))"

definition record_cycle_error :: "'w system \<Rightarrow> string \<Rightarrow> string \<Rightarrow> app_state \<times> 'w \<Rightarrow> app_state \<times> 'w" where
  "record_cycle_error S operation error = record_error_with_context S operation error '''' '''' 0"

text \<open>An update of the metrics by an operation that reads the clock.\<close>

definition on_metrics :: "(metrics \<Rightarrow> 'w \<Rightarrow> metrics \<times> 'w) \<Rightarrow> app_state \<times> 'w \<Rightarrow> app_state \<times> 'w" where
  "on_metrics f = (\<lambda>(s, w). case f (st_metrics s) w of (m, w') \<Rightarrow> (s\<lparr>st_metrics := m\<rparr>, w'))"

definition source_failed ::
  "'w system \<Rightarrow> formats \<Rightarrow> token_config \<Rightarrow> u32 \<Rightarrow> string \<Rightarrow> price_source_error \<Rightarrow> app_state \<times> 'w \<Rightarrow> app_state \<times> 'w" where
  "source_failed S F token ledger_seq source error sw =
     record_error_with_context S (''source:'' @ tc_symbol token @ '':'' @ source) (price_source_message F error)
       (tc_stellar_address token) (tc_symbol token) ledger_seq
       (on_metrics (record_token_source_fetch_failure (sy_env S) (tc_symbol token) (tc_stellar_address token) source) sw)"

fun collect_sources ::
  "'w system \<Rightarrow> formats \<Rightarrow> token_config \<Rightarrow> u32 \<Rightarrow> batch \<Rightarrow> string list
    \<Rightarrow> (app_state \<times> 'w, string, (string \<times> price_with_observation_time) list) action" where
  "collect_sources S F token ledger_seq batch [] sw = (Ok [], sw)"
| "collect_sources S F token ledger_seq batch (source # rest) sw =
     (case lift_snd (fetch_source_with_retry S F token batch source) sw of
        (Ok price, sw1) \<Rightarrow>
          (case collect_sources S F token ledger_seq batch rest sw1 of
             (r, sw2) \<Rightarrow> (bind_outcome r (\<lambda>prices. Ok ((source, price) # prices)), sw2))
      | (Err error, sw1) \<Rightarrow>
          collect_sources S F token ledger_seq batch rest (source_failed S F token ledger_seq source error sw1)
      | (Panic, sw1) \<Rightarrow> (Panic, sw1))"

definition record_rejections ::
  "'w system \<Rightarrow> token_config \<Rightarrow> rejected_source list \<Rightarrow> app_state \<times> 'w \<Rightarrow> app_state \<times> 'w" where
  "record_rejections S token rejected =
     fold (\<lambda>r. on_metrics (record_token_source_outlier_rejection (sy_env S) (tc_symbol token)
        (tc_stellar_address token) (rs_source r))) rejected"

text \<open>The key decoded at startup signs; without one, decoding the configured key reports its error.\<close>

definition signed_cached_price ::
  "'w system \<Rightarrow> token_config \<Rightarrow> u32 \<Rightarrow> aggregated_price \<Rightarrow> (string, cached_price) outcome" where
  "signed_cached_price S token ledger_seq aggregate =
     (let ch = sy_chain S; cfg = sy_config S; timestamp = ap_min_observation_time aggregate
      in bind_outcome
        (case sy_price_key S of
           Some key \<Rightarrow> Ok (sign_price_with_key ch key (cf_network_passphrase cfg) ledger_seq
             (tc_stellar_address token) (ap_min aggregate) (ap_max aggregate) timestamp)
         | None \<Rightarrow> map_err (signing_error_message) (sign_price ch (cf_keeper_private_key cfg)
             (cf_network_passphrase cfg) ledger_seq (tc_stellar_address token) (ap_min aggregate)
             (ap_max aggregate) timestamp))
        (\<lambda>signature. Ok
          \<lparr>cp_token_address = tc_stellar_address token, cp_symbol = tc_symbol token,
           cp_display_symbol = display_symbol token, cp_keeper_index = cf_keeper_index cfg,
           cp_min = ap_min aggregate, cp_max = ap_max aggregate, cp_median = ap_median aggregate,
           cp_timestamp = timestamp, cp_ledger_seq = ledger_seq,
           cp_sources_used = ap_sources_used aggregate, cp_signature = ch_hex_encode ch signature\<rparr>))"

definition aggregate_collected ::
  "token_config \<Rightarrow> (string \<times> price_with_observation_time) list \<Rightarrow> (string, aggregated_price) outcome" where
  "aggregate_collected token prices =
     map_err agg_error_message (aggregate_prices (map (po_price \<circ> snd) prices) (map fst prices)
       (map (po_observation_time \<circ> snd) prices) (tc_min_sources token) (tc_max_deviation_bps token))"

definition build_cached_price ::
  "'w system \<Rightarrow> formats \<Rightarrow> u32 \<Rightarrow> batch \<Rightarrow> token_config \<Rightarrow> (app_state \<times> 'w, string, cached_price) action" where
  "build_cached_price S F ledger_seq batch token =
     bind_action (collect_sources S F token ledger_seq batch (tc_sources token)) (\<lambda>prices.
     bind_action (return_action (aggregate_collected token prices)) (\<lambda>aggregate sw.
       (signed_cached_price S token ledger_seq aggregate,
        record_rejections S token (ap_rejected_sources aggregate) sw)))"

section \<open>The cycle\<close>

definition pyth_feed_ids :: "token_config list \<Rightarrow> string list" where
  "pyth_feed_ids tokens =
     List.map_filter tc_pyth_feed_id (filter (\<lambda>t. list_ex (\<lambda>source. source = ''pyth'') (tc_sources t)) tokens)"

definition binance_symbols :: "token_config list \<Rightarrow> string list" where
  "binance_symbols tokens =
     List.map_filter tc_binance_symbol (filter (\<lambda>t. list_ex (\<lambda>source. source = ''binance'') (tc_sources t)) tokens)"

definition fetch_ledger :: "'w system \<Rightarrow> ('w, rpc_error, u32) action" where
  "fetch_ledger S =
     retry_with_backoff (sy_env S) rpc_retryable
       (get_latest_ledger_sequence (sy_env S) (sy_codec S) (cf_stellar_rpc_url (sy_config S)))
       LEDGER_SEQUENCE_RETRY_ATTEMPTS LEDGER_SEQUENCE_RETRY_BASE_DELAY_MS MAX_BACKOFF_DELAY_MS"

text \<open>A failed batch is no error of the cycle.\<close>

definition pyth_batch ::
  "(pyth_error, string \<rightharpoonup> pyth_price_feed) outcome \<Rightarrow> (string, (string \<rightharpoonup> pyth_price_feed) \<times> bool) outcome" where
  "pyth_batch r = (case r of Ok prices \<Rightarrow> Ok (prices, False) | Err _ \<Rightarrow> Ok (Map.empty, True) | Panic \<Rightarrow> Panic)"

definition binance_batch :: "'w system \<Rightarrow> ('w, string, (string \<rightharpoonup> i128) option) action" where
  "binance_batch S w =
     (let symbols = binance_symbols (cf_tokens (sy_config S)) in
      if symbols = [] then (Ok None, w)
      else case fetch_spot_prices_with_url (sy_env S) (sy_http_json S) (cf_binance_base_url (sy_config S)) symbols w of
          (Ok results, w1) \<Rightarrow> (Ok (Some (map_of (rev results))), w1)
        | (Err _, w1) \<Rightarrow> (Ok None, w1)
        | (Panic, w1) \<Rightarrow> (Panic, w1))"

text \<open>What a cycle counts: tokens with a price, tokens without one, stale prices seen.\<close>

type_synonym price_counts = "nat \<times> nat \<times> nat"

definition stale_cached :: "token_config list \<Rightarrow> u64 \<Rightarrow> (string, cached_price) btree \<Rightarrow> nat" where
  "stale_cached tokens now prices =
     length (filter (\<lambda>token. case bt_get prices (lookup_key token) of
        None \<Rightarrow> False | Some cached \<Rightarrow> is_stale cached (tc_stale_after_seconds token) now) tokens)"

fun build_all ::
  "'w system \<Rightarrow> formats \<Rightarrow> u32 \<Rightarrow> batch \<Rightarrow> token_config list
    \<Rightarrow> (app_state \<times> 'w, string, (token_config \<times> (string, cached_price) outcome) list) action" where
  "build_all S F ledger_seq batch [] sw = (Ok [], sw)"
| "build_all S F ledger_seq batch (token # tokens) sw =
     (case build_cached_price S F ledger_seq batch token sw of
        (Panic, sw1) \<Rightarrow> (Panic, sw1)
      | (result, sw1) \<Rightarrow>
          (case build_all S F ledger_seq batch tokens sw1 of
             (r, sw2) \<Rightarrow> (bind_outcome r (\<lambda>results. Ok ((token, result) # results)), sw2)))"

text \<open>A token that failed keeps its cached price while that is fresh.\<close>

definition keep_cached ::
  "'w system \<Rightarrow> u32 \<Rightarrow> token_config \<Rightarrow> string \<Rightarrow> (string, cached_price) btree \<times> price_counts
    \<Rightarrow> app_state \<times> 'w \<Rightarrow> ((string, cached_price) btree \<times> price_counts) \<times> (app_state \<times> 'w)" where
  "keep_cached S ledger_seq token error acc sw =
     (case acc of (new_prices, oks, failed, stale) \<Rightarrow>
      case record_error_with_context S (''price:'' @ tc_symbol token) error (tc_stellar_address token)
             (tc_symbol token) ledger_seq sw of (s, w) \<Rightarrow>
        (case bt_get (pc_prices (st_price_cache s)) (lookup_key token) of
           None \<Rightarrow> ((new_prices, oks, failed + 1, stale), (s, w))
         | Some cached \<Rightarrow>
             (case current_timestamp_secs (sy_env S) w of (now, w1) \<Rightarrow>
                if \<not> is_stale cached (tc_stale_after_seconds token) now
                then ((bt_insert (lookup_key token) cached new_prices, oks + 1, failed, stale), (s, w1))
                else ((new_prices, oks, failed + 1, stale + 1), (s, w1)))))"

fun settle_results ::
  "'w system \<Rightarrow> u32 \<Rightarrow> (token_config \<times> (string, cached_price) outcome) list
    \<Rightarrow> (string, cached_price) btree \<times> price_counts \<Rightarrow> app_state \<times> 'w
    \<Rightarrow> ((string, cached_price) btree \<times> price_counts) \<times> (app_state \<times> 'w)" where
  "settle_results S ledger_seq [] acc sw = (acc, sw)"
| "settle_results S ledger_seq ((token, result) # rest) acc sw =
     (case result of
        Ok price \<Rightarrow>
          (case acc of (new_prices, oks, failed, stale) \<Rightarrow>
             settle_results S ledger_seq rest
               (bt_insert (lookup_key token) price new_prices, oks + 1, failed, stale) sw)
      | Err error \<Rightarrow>
          (case keep_cached S ledger_seq token error acc sw of
             (acc', sw') \<Rightarrow> settle_results S ledger_seq rest acc' sw')
      | Panic \<Rightarrow> settle_results S ledger_seq rest acc sw)"

text \<open>The cache takes the new prices; when there is none at all it is cleared.\<close>

definition update_cache ::
  "'w system \<Rightarrow> (string, cached_price) btree \<Rightarrow> app_state \<times> 'w \<Rightarrow> app_state \<times> 'w" where
  "update_cache S new_prices =
     (\<lambda>(s, w).
        if new_prices \<noteq> []
        then (case env_system (sy_env S) w of (t0, w1) \<Rightarrow>
                (s\<lparr>st_price_cache := (st_price_cache s)
                     \<lparr>pc_prices := bt_insert_all new_prices (pc_prices (st_price_cache s)),
                      pc_last_updated := Some t0\<rparr>\<rparr>, w1))
        else (s\<lparr>st_price_cache := (st_price_cache s)\<lparr>pc_prices := [], pc_last_updated := None\<rparr>\<rparr>, w))"

definition price_tokens ::
  "'w system \<Rightarrow> formats \<Rightarrow> u64 \<Rightarrow> u32 \<Rightarrow> (string \<rightharpoonup> pyth_price_feed) \<times> bool
    \<Rightarrow> (app_state \<times> 'w, string, price_counts) action" where
  "price_tokens S F now ledger_seq feeds =
     bind_action (lift_snd (binance_batch S)) (\<lambda>tickers (s, w).
       let tokens = cf_tokens (sy_config S);
           stale = stale_cached tokens now (pc_prices (st_price_cache s));
           batch = \<lparr>ba_pyth = fst feeds, ba_pyth_failed = snd feeds, ba_binance = tickers\<rparr>
       in bind_action (build_all S F ledger_seq batch tokens) (\<lambda>results sw.
            case settle_results S ledger_seq results ([], 0, 0, stale) sw of
              ((new_prices, counts), sw1) \<Rightarrow> (Ok counts, update_cache S new_prices sw1)) (s, w))"

definition execute_price_cycle :: "'w system \<Rightarrow> formats \<Rightarrow> (app_state \<times> 'w, string, price_counts) action" where
  "execute_price_cycle S F =
     (\<lambda>(s, w). case current_timestamp_secs (sy_env S) w of (now, w0) \<Rightarrow>
        (case fetch_ledger S w0 of (ledger_result, w1) \<Rightarrow>
         case fetch_pyth_prices (sy_env S) (sy_http_json S) (pyth_feed_ids (cf_tokens (sy_config S)))
                (cf_pyth_api_key (sy_config S)) w1 of (pyth_result, w2) \<Rightarrow>
           (case ledger_result of
              Ok ledger_seq \<Rightarrow>
                bind_action (return_action (pyth_batch pyth_result)) (price_tokens S F now ledger_seq) (s, w2)
            | Err error \<Rightarrow>
                (Ok (0, 1, 0), record_cycle_error S ''get_latest_ledger''
                   (rpc_error_message (cd_float (sy_codec S)) error) (s, w2))
            | Panic \<Rightarrow> (Panic, (s, w2)))))"

definition start_price_cycle :: "app_state \<Rightarrow> app_state" where
  "start_price_cycle s = s\<lparr>st_cycle_status := (st_cycle_status s)\<lparr>cy_price_cycle_running := True\<rparr>\<rparr>"

definition finish_cycle ::
  "'w system \<Rightarrow> instant \<Rightarrow> price_counts \<Rightarrow> app_state \<times> 'w \<Rightarrow> app_state \<times> 'w" where
  "finish_cycle S started counts =
     (\<lambda>(s, w). case counts of (tokens_ok, tokens_failed, tokens_stale) \<Rightarrow>
        case env_instant (sy_env S) w of (stop, w1) \<Rightarrow>
        case env_system (sy_env S) w1 of (t0, w2) \<Rightarrow>
          on_metrics (record_price_cycle (sy_env S) ((stop - started) div 1000000) tokens_ok tokens_failed)
            (s\<lparr>st_cycle_status := (st_cycle_status s)
                 \<lparr>cy_price_cycle_running := False, cy_last_price_cycle_at := Some t0\<rparr>\<rparr>, w2))"

definition run_price_cycle :: "'w system \<Rightarrow> formats \<Rightarrow> (app_state \<times> 'w, string, unit) action" where
  "run_price_cycle S F =
     (\<lambda>(s, w). case env_instant (sy_env S) w of (started, w1) \<Rightarrow>
        bind_action (execute_price_cycle S F)
          (\<lambda>counts sw. (Ok (), finish_cycle S started counts sw)) (start_price_cycle s, w1))"

text \<open>A cycle dropped after its budget, in whatever state it had reached: every token counts as failed.\<close>

definition timed_out_price_cycle :: "'w system \<Rightarrow> instant \<Rightarrow> app_state \<times> 'w \<Rightarrow> app_state \<times> 'w" where
  "timed_out_price_cycle S started dropped =
     finish_cycle S started (0, length (cf_tokens (sy_config S)), 0) dropped"

end
