(* ===== verification/Oracle_Price_Inv.thy ===== *)
theory Oracle_Price_Inv
  imports Oracle_Price_Cycle Oracle_Keeper_Inv
begin

text \<open>
  What the price cycle keeps: every cached price is the signed aggregate of positive prices that
  the configured sources delivered, the cache is ordered by key, and every token of a cycle is
  accounted for once.
\<close>

section \<open>The prices of a cycle are positive\<close>

definition positive_price :: "i128 \<Rightarrow> bool" where
  "positive_price p \<longleftrightarrow> 0 < p \<and> in_i128 p"

definition batch_positive :: "batch \<Rightarrow> bool" where
  "batch_positive batch \<longleftrightarrow> (\<forall>m symbol p. ba_binance batch = Some m \<longrightarrow> m symbol = Some p \<longrightarrow> positive_price p)"

lemma collect_symbols_positive:
  "collect_symbols entries symbols = Ok results \<Longrightarrow> (s, p) \<in> set results \<Longrightarrow> positive_price p"
proof (induction symbols arbitrary: results)
  case (Cons symbol symbols)
  then show ?case
    using decimal_source.positive
    by (fastforce simp: positive_price_def outcome_ops split: option.splits)
qed simp

lemma ticker_positive:
  "parse_ticker_http_result js r symbols = Ok results \<Longrightarrow> (s, p) \<in> set results \<Longrightarrow> positive_price p"
  using collect_symbols_positive
  by (fastforce simp: parse_ticker_http_result_def parse_ticker_http_response_def parse_ticker_response_body_def
      outcome_ops split: if_splits prod.splits)

lemma spot_prices_positive:
  "fetch_spot_prices_with_url env js url symbols w = (Ok results, w') \<Longrightarrow> (s, p) \<in> set results \<Longrightarrow> positive_price p"
  using ticker_positive by (fastforce simp: fetch_spot_prices_with_url_def Let_def split: prod.splits)

lemma binance_batch_positive:
  assumes "binance_batch S w = (Ok m, w')"
  shows "batch_positive \<lparr>ba_pyth = feeds, ba_pyth_failed = b, ba_binance = m\<rparr>"
  using assms spot_prices_positive
  by (fastforce simp: binance_batch_def batch_positive_def Let_def split: if_splits outcome.splits prod.splits
      dest: map_of_SomeD)

lemma coinbase_positive:
  "fetch_spot_price_with_url env js dbg url symbol w = (Ok p, w') \<Longrightarrow> positive_price p"
  using coinbase_source.positive
  by (fastforce simp: fetch_spot_price_with_url_def parse_coinbase_http_result_def parse_coinbase_http_response_def
      positive_price_def outcome_ops Let_def split: if_splits prod.splits)

lemma validated_feed_positive: "validated_feed token now feed = Ok r \<Longrightarrow> positive_price (po_price r)"
  using pyth_source.positive [of "(pf_price feed, now, tc_stale_after_seconds token, tc_pyth_max_confidence_bps token)"]
  by (auto simp: validated_feed_def outcome_ops positive_price_def)

lemma fixed_positive: "fixed_price token = Ok p \<Longrightarrow> positive_price p"
  using fixed_source.positive [of token p] by (simp add: positive_price_def)

lemma bind_return_Ok:
  "fst (bind_action m (\<lambda>a. return_action (f a)) w) = Ok r \<Longrightarrow> \<exists>a w'. m w = (Ok a, w') \<and> f a = Ok r"
  by (cases "m w") (auto simp: bind_action_def return_action_def split: outcome.splits)

lemma map_err_action_Ok: "map_err_action g m w = (Ok a, w') \<Longrightarrow> m w = (Ok a, w')"
  by (auto simp: map_err_action_def outcome_ops split: prod.splits)

lemma fst_map_err_Ok: "fst (map_err_action g m w) = Ok a \<Longrightarrow> fst (m w) = Ok a"
  by (cases "m w") (auto simp: map_err_action_def outcome_ops)

lemma or_err_Ok: "or_err e x = Ok a \<Longrightarrow> x = Some a"
  by (cases x) (auto simp: outcome_ops)

lemma fetch_binance_positive:
  assumes "batch_positive batch" and ok: "fst (fetch_binance S token batch now w) = Ok r"
  shows "positive_price (po_price r)"
proof (cases "tc_binance_symbol token")
  case None
  then show ?thesis using ok by (simp add: fetch_binance_def return_action_def)
next
  case (Some symbol)
  show ?thesis
  proof (cases "ba_binance batch")
    case None
    from ok obtain results w1 where
      f: "map_err_action SourceBinance (fetch_spot_prices (sy_env S) (sy_http_json S) [symbol]) w = (Ok results, w1)"
      and p: "or_err (SourceConfig (''binance symbol not returned: '' @ symbol))
         (map_option (\<lambda>(_, price). observed_now now price) (find (\<lambda>(got_symbol, _). got_symbol = symbol) results)) = Ok r"
      by (auto simp: fetch_binance_def Some None dest!: bind_return_Ok)
    from or_err_Ok [OF p] obtain s q where "find (\<lambda>(got_symbol, _). got_symbol = symbol) results = Some (s, q)"
      and r: "r = observed_now now q" by auto
    then have "(s, q) \<in> set results" by (auto simp: find_Some_iff in_set_conv_nth)
    moreover have "fetch_spot_prices_with_url (sy_env S) (sy_http_json S) BINANCE_TICKER_PRICE_URL [symbol] w = (Ok results, w1)"
      using map_err_action_Ok [OF f] by (simp add: fetch_spot_prices_def)
    ultimately show ?thesis using spot_prices_positive r by (simp add: observed_now_def)
  next
    case (Some m)
    then have "or_err (SourceConfig (''binance symbol not returned in batch: '' @ symbol))
        (map_option (observed_now now) (m symbol)) = Ok r"
      using ok \<open>tc_binance_symbol token = Some symbol\<close> by (simp add: fetch_binance_def return_action_def)
    from or_err_Ok [OF this] show ?thesis
      using assms(1) Some by (auto simp: batch_positive_def observed_now_def)
  qed
qed

lemma fetch_coinbase_positive:
  assumes "fst (fetch_coinbase S F token now w) = Ok r"
  shows "positive_price (po_price r)"
proof (cases "tc_coinbase_symbol token")
  case None
  then show ?thesis using assms by (simp add: fetch_coinbase_def return_action_def)
next
  case (Some symbol)
  then obtain p w1 where "map_err_action SourceCoinbase (fetch_spot_price_with_url (sy_env S) (sy_http_json S)
      (fo_debug F) (cf_coinbase_base_url (sy_config S)) symbol) w = (Ok p, w1)" and "r = observed_now now p"
    using assms by (auto simp: fetch_coinbase_def dest!: bind_return_Ok)
  then show ?thesis using coinbase_positive map_err_action_Ok by (fastforce simp: observed_now_def)
qed

lemma fetch_pyth_positive:
  assumes "fst (fetch_pyth S token batch now w) = Ok r"
  shows "positive_price (po_price r)"
proof (cases "tc_pyth_feed_id token")
  case None
  then show ?thesis using assms by (simp add: fetch_pyth_def return_action_def)
next
  case (Some feed_id)
  let ?m = "case ba_pyth batch feed_id of
               Some feed \<Rightarrow> return_action (validated_feed token now feed)
             | None \<Rightarrow>
                 if ba_pyth_failed batch
                 then return_action (Err (PythNetwork ''batch request failed, skipping individual fallback''))
                 else bind_action (fetch_pyth_prices (sy_env S) (sy_http_json S) [feed_id]
                          (cf_pyth_api_key (sy_config S)))
                        (\<lambda>feeds. return_action (bind_outcome (or_err (MissingFeedId feed_id) (feeds feed_id))
                           (validated_feed token now)))"
  have "fst (?m w) = Ok r"
    by (rule fst_map_err_Ok [where g = SourcePyth and m = ?m]) (use assms Some in \<open>simp only: fetch_pyth_def option.case\<close>)
  then obtain feed where "validated_feed token now feed = Ok r"
    by (auto simp: outcome_ops split: option.splits if_splits dest!: bind_return_Ok)
      (auto simp: return_action_def)
  then show ?thesis by (rule validated_feed_positive)
qed

lemma fetch_source_price_positive:
  assumes "batch_positive batch" and "fst (fetch_source_price S F token batch source w) = Ok r"
  shows "positive_price (po_price r)"
proof -
  obtain now w1 where now: "current_timestamp_secs (sy_env S) w = (now, w1)" by (metis prod.exhaust)
  have fixed: "map_err SourceFixed (bind_outcome (fixed_price token) (\<lambda>p. Ok (observed_now now p))) = Ok r
      \<Longrightarrow> positive_price (po_price r)"
    using fixed_positive [of token] by (cases "fixed_price token") (auto simp: outcome_ops observed_now_def)
  show ?thesis
    using assms(2) now fetch_binance_positive [OF assms(1)] fetch_coinbase_positive fetch_pyth_positive fixed
    by (auto simp: fetch_source_price_def return_action_def split: if_splits)
qed

lemma fetch_source_with_retry_positive:
  assumes "batch_positive batch" and "fst (fetch_source_with_retry S F token batch source w) = Ok r"
  shows "positive_price (po_price r)"
proof -
  obtain w' where "fst (fetch_source_price S F token batch source w') = Ok r"
    using retry_Ok [where f = "fetch_source_price S F token batch source"] assms(2)
    unfolding fetch_source_with_retry_def by blast
  then show ?thesis by (rule fetch_source_price_positive [OF assms(1)])
qed

section \<open>What a cached price is\<close>

definition collected_ok :: "token_config \<Rightarrow> (string \<times> price_with_observation_time) list \<Rightarrow> bool" where
  "collected_ok token prices \<longleftrightarrow>
     (\<forall>(source, r) \<in> set prices. source \<in> set (tc_sources token) \<and> positive_price (po_price r))"

text \<open>The price is the aggregate of what configured sources of its token delivered.\<close>

definition aggregated_for :: "token_config \<Rightarrow> cached_price \<Rightarrow> bool" where
  "aggregated_for token p \<longleftrightarrow>
     (\<exists>prices a. collected_ok token prices \<and> aggregate_collected token prices = Ok a
        \<and> cp_token_address p = tc_stellar_address token \<and> cp_min p = ap_min a \<and> cp_max p = ap_max a
        \<and> cp_median p = ap_median a \<and> cp_timestamp p = ap_min_observation_time a
        \<and> cp_sources_used p = ap_sources_used a)"

text \<open>It is kept under the key of that token.\<close>

definition price_aggregated :: "config \<Rightarrow> string \<Rightarrow> cached_price \<Rightarrow> bool" where
  "price_aggregated cfg key p \<longleftrightarrow>
     (\<exists>token \<in> set (cf_tokens cfg). lookup_key token = key \<and> aggregated_for token p)"

text \<open>Its signature is one of the keeper's over exactly the fields that are published.\<close>

definition price_signed :: "'w system \<Rightarrow> cached_price \<Rightarrow> bool" where
  "price_signed S p \<longleftrightarrow>
     (\<exists>key. (sy_price_key S = Some key \<or> signing_key_from_hex (sy_chain S) (cf_keeper_private_key (sy_config S)) = Ok key)
        \<and> cp_signature p = ch_hex_encode (sy_chain S) (ch_sign (sy_chain S) key
            (build_price_message (cf_network_passphrase (sy_config S)) (cp_ledger_seq p) (cp_token_address p)
               (cp_min p) (cp_max p) (cp_timestamp p))))"

definition price_valid :: "'w system \<Rightarrow> string \<Rightarrow> cached_price \<Rightarrow> bool" where
  "price_valid S key p \<longleftrightarrow> price_aggregated (sy_config S) key p \<and> price_signed S p"

lemma collect_sources_ok:
  assumes "batch_positive batch" and "set sources \<subseteq> set (tc_sources token)"
  shows "collect_sources S F token ledger_seq batch sources sw = (Ok prices, sw') \<Longrightarrow> collected_ok token prices"
  using assms(2)
proof (induction sources arbitrary: sw prices sw')
  case Nil
  then show ?case by (simp add: collected_ok_def)
next
  case (Cons source sources)
  obtain x sw1 where x: "lift_snd (fetch_source_with_retry S F token batch source) sw = (x, sw1)"
    by (metis prod.exhaust)
  show ?case
  proof (cases x)
    case (Ok r)
    obtain s w where sw: "sw = (s, w)" by (cases sw)
    have "fst (fetch_source_with_retry S F token batch source w) = Ok r"
      using x Ok sw by (simp add: lift_snd_simp)
    then have r: "positive_price (po_price r)" by (rule fetch_source_with_retry_positive [OF assms(1)])
    obtain rest sw2 where rest: "collect_sources S F token ledger_seq batch sources sw1 = (rest, sw2)"
      by (metis prod.exhaust)
    then obtain prices' where "rest = Ok prices'" and "prices = (source, r) # prices'"
      using Cons.prems(1) x Ok by (auto simp: outcome_ops)
    then show ?thesis using Cons.IH rest Cons.prems(2) r by (auto simp: collected_ok_def)
  next
    case (Err e)
    then show ?thesis using Cons x by auto
  next
    case Panic
    then show ?thesis using Cons x by simp
  qed
qed

lemma signed_cached_price_fields:
  assumes "signed_cached_price S token ledger_seq a = Ok p"
  shows "cp_token_address p = tc_stellar_address token" and "cp_min p = ap_min a" and "cp_max p = ap_max a"
    and "cp_median p = ap_median a" and "cp_timestamp p = ap_min_observation_time a"
    and "cp_sources_used p = ap_sources_used a" and "cp_ledger_seq p = ledger_seq"
  using assms by (auto simp: signed_cached_price_def Let_def outcome_ops)

lemma signed_cached_price_signed:
  "signed_cached_price S token ledger_seq a = Ok p \<Longrightarrow> price_signed S p"
  by (auto simp: signed_cached_price_def Let_def outcome_ops price_signed_def sign_price_with_key_def sign_price_def
      split: option.splits)

lemma build_cached_price_valid:
  assumes b: "build_cached_price S F ledger_seq batch token sw = (Ok p, sw')" and pos: "batch_positive batch"
    and token: "token \<in> set (cf_tokens (sy_config S))"
  shows "price_valid S (lookup_key token) p"
proof -
  from b obtain prices sw1 a where c: "collect_sources S F token ledger_seq batch (tc_sources token) sw = (Ok prices, sw1)"
    and a: "aggregate_collected token prices = Ok a" and p: "signed_cached_price S token ledger_seq a = Ok p"
    by (auto simp: build_cached_price_def bind_action_def return_action_def split: outcome.splits prod.splits)
  have "collected_ok token prices" by (rule collect_sources_ok [OF pos subset_refl c])
  then have "price_aggregated (sy_config S) (lookup_key token) p"
    unfolding price_aggregated_def aggregated_for_def using token a signed_cached_price_fields [OF p] by blast
  then show ?thesis using signed_cached_price_signed [OF p] by (simp add: price_valid_def)
qed

section \<open>The operations keep the cache valid\<close>

text \<open>
  The cache is ordered by key, and every entry is a signed aggregate of a configured token.
\<close>

definition entries_valid :: "'w system \<Rightarrow> (string, cached_price) btree \<Rightarrow> bool" where
  "entries_valid S prices \<longleftrightarrow> bt_wf prices \<and> (\<forall>(key, p) \<in> set prices. price_valid S key p)"

definition cache_valid :: "'w system \<Rightarrow> app_state \<Rightarrow> bool" where
  "cache_valid S s \<longleftrightarrow> entries_valid S (pc_prices (st_price_cache s))"

lemma entries_valid_Nil [simp]: "entries_valid S []"
  by (simp add: entries_valid_def)

lemma set_bt_insert: "x \<in> set (bt_insert k v m) \<Longrightarrow> x = (k, v) \<or> x \<in> set m"
  by (induction k v m rule: bt_insert.induct) (auto split: if_splits)

lemma entries_valid_insert: "entries_valid S m \<Longrightarrow> price_valid S k p \<Longrightarrow> entries_valid S (bt_insert k p m)"
  by (auto simp: entries_valid_def bt_wf_insert dest!: set_bt_insert)

lemma entries_valid_insert_all:
  "entries_valid S m \<Longrightarrow> entries_valid S new \<Longrightarrow> entries_valid S (bt_insert_all new m)"
proof -
  have "entries_valid S m \<Longrightarrow> \<forall>(k, p) \<in> set xs. price_valid S k p \<Longrightarrow> entries_valid S (bt_insert_all xs m)" for xs
    by (induction xs arbitrary: m) (auto simp: bt_insert_all_def intro: entries_valid_insert)
  from this [of new] show "entries_valid S m \<Longrightarrow> entries_valid S new \<Longrightarrow> ?thesis"
    unfolding entries_valid_def by blast
qed

lemma entries_valid_get: "entries_valid S m \<Longrightarrow> bt_get m k = Some p \<Longrightarrow> price_valid S k p"
  by (auto simp: entries_valid_def dest!: bt_get_in)

text \<open>Recording touches neither the cache nor the keeper's bookkeeping.\<close>

lemma record_error_with_context_frame:
  "\<exists>f. fst (record_error_with_context S op e tok symbol l (s, w)) = s\<lparr>st_failures := ring_push f (st_failures s)\<rparr>"
  by (auto simp: record_error_with_context_def case_prod_beta)

lemma on_metrics_frame: "\<exists>m. fst (on_metrics f (s, w)) = s\<lparr>st_metrics := m\<rparr>"
  by (auto simp: on_metrics_def case_prod_beta)

text \<open>A property of the state that logging and counting keep.\<close>

definition loggable :: "(app_state \<Rightarrow> bool) \<Rightarrow> bool" where
  "loggable I \<longleftrightarrow> (\<forall>s f. I s \<longrightarrow> I (s\<lparr>st_failures := ring_push f (st_failures s)\<rparr>))
     \<and> (\<forall>s m. I s \<longrightarrow> I (s\<lparr>st_metrics := m\<rparr>)) \<and> (\<forall>s c. I s \<longrightarrow> I (s\<lparr>st_cycle_status := c\<rparr>))"

lemma loggable_error: "loggable I \<Longrightarrow> I (fst sw) \<Longrightarrow> I (fst (record_error_with_context S op e tok symbol l sw))"
  using record_error_with_context_frame [of S op e tok symbol l "fst sw" "snd sw"] by (auto simp: loggable_def)

lemma loggable_metrics: "loggable I \<Longrightarrow> I (fst sw) \<Longrightarrow> I (fst (on_metrics f sw))"
  using on_metrics_frame [of f "fst sw" "snd sw"] by (auto simp: loggable_def)

lemma loggable_collect:
  assumes I: "loggable I"
  shows "I (fst sw) \<Longrightarrow> I (fst (snd (collect_sources S F token ledger_seq batch sources sw)))"
proof (induction sources arbitrary: sw)
  case (Cons source sources)
  obtain x sw1 where x: "lift_snd (fetch_source_with_retry S F token batch source) sw = (x, sw1)"
    by (metis prod.exhaust)
  have "fst sw1 = fst sw" using x by (cases sw; cases sw1) (simp add: lift_snd_simp)
  then have I1: "I (fst sw1)" using Cons.prems by simp
  show ?case
  proof (cases x)
    case (Ok r)
    then show ?thesis using Cons.IH [OF I1] x by (simp add: case_prod_beta)
  next
    case (Err e)
    have "I (fst (source_failed S F token ledger_seq source e sw1))"
      unfolding source_failed_def
      by (rule loggable_error [where I = I, OF I], rule loggable_metrics [where I = I, OF I I1])
    then show ?thesis using Cons.IH x Err by simp
  next
    case Panic
    then show ?thesis using x I1 by simp
  qed
qed simp

lemma loggable_rejections:
  "loggable I \<Longrightarrow> I (fst sw) \<Longrightarrow> I (fst (record_rejections S token rejected sw))"
  unfolding record_rejections_def
  by (induction rejected arbitrary: sw) (simp_all add: loggable_metrics)

lemma loggable_build:
  assumes "loggable I" and "I (fst sw)"
  shows "I (fst (snd (build_cached_price S F ledger_seq batch token sw)))"
  using loggable_collect [where I = I, OF assms, of S F token ledger_seq batch "tc_sources token"]
    loggable_rejections [where I = I, OF assms(1)]
  by (auto simp: build_cached_price_def bind_action_def return_action_def split: outcome.splits prod.splits)

lemma loggable_build_all:
  assumes I: "loggable I"
  shows "I (fst sw) \<Longrightarrow> I (fst (snd (build_all S F ledger_seq batch tokens sw)))"
proof (induction tokens arbitrary: sw)
  case (Cons token tokens)
  obtain x sw1 where x: "build_cached_price S F ledger_seq batch token sw = (x, sw1)" by (metis prod.exhaust)
  have "I (fst sw1)" using loggable_build [where I = I, OF I Cons.prems, of S F ledger_seq batch token] x by simp
  then show ?case using Cons.IH [of sw1] x by (cases x) (simp_all add: case_prod_beta)
qed simp

text \<open>Settling the results keeps what loggable properties say, and produces valid entries.\<close>

lemma loggable_keep:
  "loggable I \<Longrightarrow> I (fst sw) \<Longrightarrow> I (fst (snd (keep_cached S ledger_seq token e acc sw)))"
proof -
  assume I: "loggable I" and sw: "I (fst sw)"
  obtain s w where r: "record_error_with_context S (''price:'' @ tc_symbol token) e (tc_stellar_address token)
      (tc_symbol token) ledger_seq sw = (s, w)" by (metis prod.exhaust)
  have "I s" using loggable_error [where I = I, OF I sw] r by (metis fst_conv)
  then show ?thesis
    using r by (auto simp: keep_cached_def case_prod_beta split: option.splits)
qed

lemma loggable_settle:
  assumes I: "loggable I"
  shows "I (fst sw) \<Longrightarrow> I (fst (snd (settle_results S ledger_seq results acc sw)))"
proof (induction results arbitrary: acc sw)
  case (Cons tr results)
  obtain token r where tr: "tr = (token, r)" by (cases tr)
  show ?case
  proof (cases r)
    case (Ok p)
    then show ?thesis using Cons tr by (cases acc) simp
  next
    case (Err e)
    have "I (fst (snd (keep_cached S ledger_seq token e acc sw)))" by (rule loggable_keep [where I = I, OF I Cons.prems])
    then show ?thesis using Cons.IH tr Err by (simp add: case_prod_beta)
  next
    case Panic
    then show ?thesis using Cons tr by simp
  qed
qed simp

lemma loggable_cache: "loggable (\<lambda>s. st_price_cache s = c)"
  by (simp add: loggable_def)

lemma loggable_cache_valid: "loggable (cache_valid S)"
  by (simp add: loggable_def cache_valid_def)

lemma keep_cached_entries:
  assumes "entries_valid S (fst acc)" and "cache_valid S (fst sw)"
  shows "entries_valid S (fst (fst (keep_cached S ledger_seq token e acc sw)))"
proof -
  obtain s w where r: "record_error_with_context S (''price:'' @ tc_symbol token) e (tc_stellar_address token)
      (tc_symbol token) ledger_seq sw = (s, w)" by (metis prod.exhaust)
  have s: "cache_valid S s" using loggable_error [where I = "cache_valid S", OF loggable_cache_valid assms(2)] r by (metis fst_conv)
  show ?thesis
  proof (cases "bt_get (pc_prices (st_price_cache s)) (lookup_key token)")
    case None
    then show ?thesis using r assms(1) by (simp add: keep_cached_def case_prod_beta)
  next
    case (Some cached)
    then have "price_valid S (lookup_key token) cached" using s entries_valid_get by (auto simp: cache_valid_def)
    then show ?thesis using r Some assms(1) by (simp add: keep_cached_def case_prod_beta entries_valid_insert)
  qed
qed

lemma settle_entries:
  "entries_valid S (fst acc) \<Longrightarrow> cache_valid S (fst sw) \<Longrightarrow> \<forall>(token, r) \<in> set results. \<forall>p. r = Ok p \<longrightarrow> price_valid S (lookup_key token) p
    \<Longrightarrow> entries_valid S (fst (fst (settle_results S ledger_seq results acc sw)))"
proof (induction results arbitrary: acc sw)
  case (Cons tr results)
  obtain token r where tr: "tr = (token, r)" by (cases tr)
  show ?case
  proof (cases r)
    case (Ok p)
    then have "price_valid S (lookup_key token) p" using Cons.prems(3) tr by simp
    then show ?thesis using Cons tr Ok by (cases acc) (simp add: entries_valid_insert)
  next
    case (Err e)
    have "entries_valid S (fst (fst (keep_cached S ledger_seq token e acc sw)))"
      by (rule keep_cached_entries [OF Cons.prems(1,2)])
    moreover have "cache_valid S (fst (snd (keep_cached S ledger_seq token e acc sw)))"
      by (rule loggable_keep [where I = "cache_valid S", OF loggable_cache_valid Cons.prems(2)])
    ultimately show ?thesis using Cons.IH Cons.prems(3) tr Err by (simp add: case_prod_beta)
  next
    case Panic
    then show ?thesis using Cons tr by simp
  qed
qed simp

lemma build_all_results:
  assumes "batch_positive batch"
  shows "build_all S F ledger_seq batch tokens sw = (Ok results, sw') \<Longrightarrow> set tokens \<subseteq> set (cf_tokens (sy_config S))
    \<Longrightarrow> map fst results = tokens \<and> (\<forall>(token, r) \<in> set results. r \<noteq> Panic \<and> (\<forall>p. r = Ok p \<longrightarrow> price_valid S (lookup_key token) p))"
proof (induction tokens arbitrary: sw results sw')
  case (Cons token tokens)
  obtain x sw1 where x: "build_cached_price S F ledger_seq batch token sw = (x, sw1)" by (metis prod.exhaust)
  have np: "x \<noteq> Panic" using Cons.prems(1) x by (cases x) auto
  obtain r sw2 where r: "build_all S F ledger_seq batch tokens sw1 = (r, sw2)" by (metis prod.exhaust)
  obtain results' where "r = Ok results'" and res: "results = (token, x) # results'"
    using Cons.prems(1) x r np by (cases x) (auto simp: outcome_ops)
  moreover have "x = Ok p \<Longrightarrow> price_valid S (lookup_key token) p" for p
    using build_cached_price_valid [OF _ assms, of S F ledger_seq token sw p sw1] x Cons.prems(2) by simp
  ultimately show ?case using Cons.IH [of sw1 results' sw2] r Cons.prems(2) np by simp
qed simp

lemma loggable_keeper_inv: "loggable keeper_inv"
proof -
  have "keeper_inv s \<Longrightarrow> keeper_inv (s\<lparr>st_failures := ring_push f (st_failures s)\<rparr>)" for s f
    by (simp add: keeper_inv_def counts_ok_def logs_bounded_push_failure)
  then show ?thesis by (simp add: loggable_def)
qed

lemma update_cache_valid:
  "cache_valid S (fst sw) \<Longrightarrow> entries_valid S new_prices \<Longrightarrow> cache_valid S (fst (update_cache S new_prices sw))"
  by (cases sw) (simp add: update_cache_def cache_valid_def entries_valid_insert_all case_prod_beta)

lemma update_cache_keeper: "keeper_inv (fst (update_cache S new_prices sw)) = keeper_inv (fst sw)"
  by (cases sw) (simp add: update_cache_def case_prod_beta)

lemma build_all_no_err: "fst (build_all S F ledger_seq batch tokens sw) \<noteq> Err e"
proof (induction tokens arbitrary: sw)
  case (Cons token tokens)
  obtain x sw1 where x: "build_cached_price S F ledger_seq batch token sw = (x, sw1)" by (metis prod.exhaust)
  obtain r sw2 where r: "build_all S F ledger_seq batch tokens sw1 = (r, sw2)" by (metis prod.exhaust)
  then have "r \<noteq> Err e" using Cons.IH [of sw1] by auto
  then show ?case using x r by (cases x; cases r) auto
qed simp

text \<open>The two ways a cycle ends without a panic: without a ledger, and with its tokens priced.\<close>

lemma execute_price_cycle_cases:
  assumes "execute_price_cycle S F (s, w) = (x, (s', w'))" and "x \<noteq> Panic"
  obtains (no_ledger) message w2 where "x = Ok (0, 1, 0)"
      and "(s', w') = record_cycle_error S ''get_latest_ledger'' message (s, w2)"
      and "\<exists>e. fst (fetch_ledger S (snd (current_timestamp_secs (sy_env S) w))) = Err e"
  | (tokens) now ledger_seq tickers feeds failed w1 w2 results sw1 new_prices counts sw2 where
      "binance_batch S w1 = (Ok tickers, w2)"
      and "build_all S F ledger_seq \<lparr>ba_pyth = feeds, ba_pyth_failed = failed, ba_binance = tickers\<rparr>
             (cf_tokens (sy_config S)) (s, w2) = (Ok results, sw1)"
      and "settle_results S ledger_seq results
             ([], 0, 0, stale_cached (cf_tokens (sy_config S)) now (pc_prices (st_price_cache s))) sw1
           = ((new_prices, counts), sw2)"
      and "x = Ok counts" and "(s', w') = update_cache S new_prices sw2"
      and "fst (fetch_ledger S (snd (current_timestamp_secs (sy_env S) w))) = Ok ledger_seq"
proof -
  obtain now w0 where t: "current_timestamp_secs (sy_env S) w = (now, w0)" by (metis prod.exhaust)
  obtain l w1 where l: "fetch_ledger S w0 = (l, w1)" by (metis prod.exhaust)
  obtain py w2 where py: "fetch_pyth_prices (sy_env S) (sy_http_json S) (pyth_feed_ids (cf_tokens (sy_config S)))
      (cf_pyth_api_key (sy_config S)) w1 = (py, w2)" by (metis prod.exhaust)
  show ?thesis
  proof (cases l)
    case (Err e)
    then show ?thesis
      using assms t l py no_ledger [of "rpc_error_message (cd_float (sy_codec S)) e" w2]
      by (simp add: execute_price_cycle_def)
  next
    case (Ok ledger_seq)
    then have run: "bind_action (return_action (pyth_batch py)) (price_tokens S F now ledger_seq) (s, w2) = (x, (s', w'))"
      using assms(1) t l py by (simp add: execute_price_cycle_def)
    then obtain feeds failed where p: "price_tokens S F now ledger_seq (feeds, failed) (s, w2) = (x, (s', w'))"
      using assms(2) by (auto simp: bind_action_def return_action_def pyth_batch_def split: outcome.splits prod.splits)
    obtain tb w3 where b: "binance_batch S w2 = (tb, w3)" by (metis prod.exhaust)
    have "tb \<noteq> Panic" using p b assms(2) by (auto simp: price_tokens_def bind_action_def lift_snd_simp)
    moreover have "tb \<noteq> Err e" for e
      using b by (auto simp: binance_batch_def Let_def split: if_splits prod.splits outcome.splits)
    ultimately obtain tickers where tb: "tb = Ok tickers" by (cases tb) auto
    let ?batch = "\<lparr>ba_pyth = feeds, ba_pyth_failed = failed, ba_binance = tickers\<rparr>"
    obtain y sw1 where y: "build_all S F ledger_seq ?batch (cf_tokens (sy_config S)) (s, w3) = (y, sw1)"
      by (metis prod.exhaust)
    have "y \<noteq> Panic" using p b tb y assms(2) by (auto simp: price_tokens_def bind_action_def lift_snd_simp Let_def)
    moreover have "y \<noteq> Err e" for e using build_all_no_err y by (metis fst_conv)
    ultimately obtain results where res: "y = Ok results" by (cases y) auto
    obtain new_prices counts sw2 where st: "settle_results S ledger_seq results
       ([], 0, 0, stale_cached (cf_tokens (sy_config S)) now (pc_prices (st_price_cache s))) sw1 = ((new_prices, counts), sw2)"
      by (metis prod.exhaust)
    have "x = Ok counts" and "(s', w') = update_cache S new_prices sw2"
      using p b tb y res st by (auto simp: price_tokens_def bind_action_def lift_snd_simp Let_def)
    moreover have "fst (fetch_ledger S (snd (current_timestamp_secs (sy_env S) w))) = Ok ledger_seq"
      using t l Ok by simp
    ultimately show ?thesis using tokens b tb y res st by blast
  next
    case Panic
    then show ?thesis using assms t l py by (simp add: execute_price_cycle_def)
  qed
qed

section \<open>A price cycle keeps the invariants\<close>

definition system_inv :: "'w system \<Rightarrow> app_state \<Rightarrow> bool" where
  "system_inv S s \<longleftrightarrow> keeper_inv s \<and> cache_valid S s"

lemma loggable_conj: "loggable I \<Longrightarrow> loggable J \<Longrightarrow> loggable (\<lambda>s. I s \<and> J s)"
  by (simp add: loggable_def)

lemma loggable_system_inv: "loggable (system_inv S)"
  unfolding system_inv_def by (rule loggable_conj [OF loggable_keeper_inv loggable_cache_valid])

lemma execute_price_cycle_inv:
  assumes x: "execute_price_cycle S F (s, w) = (x, (s', w'))" and np: "x \<noteq> Panic" and inv: "system_inv S s"
  shows "system_inv S s'"
  using x np
proof (cases rule: execute_price_cycle_cases)
  case (no_ledger message w2)
  have "system_inv S (fst (record_cycle_error S ''get_latest_ledger'' message (s, w2)))"
    unfolding record_cycle_error_def
    by (rule loggable_error [where I = "system_inv S", OF loggable_system_inv]) (simp add: inv)
  then show ?thesis using no_ledger(2) by (metis fst_conv)
next
  case (tokens now ledger_seq tickers feeds failed w1 w2 results sw1 new_prices counts sw2)
  let ?batch = "\<lparr>ba_pyth = feeds, ba_pyth_failed = failed, ba_binance = tickers\<rparr>"
  let ?acc = "([], 0, 0, stale_cached (cf_tokens (sy_config S)) now (pc_prices (st_price_cache s)))
    :: (string, cached_price) btree \<times> price_counts"
  have "system_inv S (fst (snd (build_all S F ledger_seq ?batch (cf_tokens (sy_config S)) (s, w2))))"
    by (rule loggable_build_all [where I = "system_inv S", OF loggable_system_inv]) (simp add: inv)
  then have s1: "system_inv S (fst sw1)" using tokens(2) by simp
  have "system_inv S (fst (snd (settle_results S ledger_seq results ?acc sw1)))"
    by (rule loggable_settle [where I = "system_inv S", OF loggable_system_inv s1])
  then have s2: "system_inv S (fst sw2)" using tokens(3) by simp
  have "batch_positive ?batch" by (rule binance_batch_positive [OF tokens(1)])
  from build_all_results [OF this tokens(2) subset_refl]
  have "\<forall>(token, r) \<in> set results. \<forall>p. r = Ok p \<longrightarrow> price_valid S (lookup_key token) p" by auto
  then have "entries_valid S (fst (fst (settle_results S ledger_seq results ?acc sw1)))"
    using s1 by (intro settle_entries) (simp_all add: system_inv_def)
  then have "entries_valid S new_prices" using tokens(3) by simp
  then have "system_inv S (fst (update_cache S new_prices sw2))"
    using s2 by (simp add: system_inv_def update_cache_valid update_cache_keeper)
  then show ?thesis using tokens(5) by (metis fst_conv)
qed

lemma finish_cycle_inv:
  assumes "system_inv S (fst sw)"
  shows "system_inv S (fst (finish_cycle S started counts sw))"
proof -
  have c: "system_inv S (s\<lparr>st_cycle_status := y\<rparr>)" if "system_inv S s" for s y
    using loggable_system_inv [of S] that by (simp add: loggable_def)
  obtain s w a b d where sw: "sw = (s, w)" and counts: "counts = (a, b, d)" by (metis prod.exhaust)
  obtain stop w1 where i: "env_instant (sy_env S) w = (stop, w1)" by (metis prod.exhaust)
  obtain t0 w2 where y: "env_system (sy_env S) w1 = (t0, w2)" by (metis prod.exhaust)
  have "system_inv S (fst (on_metrics (record_price_cycle (sy_env S) ((stop - started) div 1000000) a b)
     (s\<lparr>st_cycle_status := (st_cycle_status s)\<lparr>cy_price_cycle_running := False, cy_last_price_cycle_at := Some t0\<rparr>\<rparr>, w2)))"
    by (rule loggable_metrics [where I = "system_inv S", OF loggable_system_inv]) (use assms sw c in simp)
  then show ?thesis by (simp add: finish_cycle_def sw counts i y)
qed

lemma run_price_cycle_inv:
  assumes "run_price_cycle S F (s, w) = (x, (s', w'))" and "x \<noteq> Panic" and "system_inv S s"
  shows "system_inv S s'"
proof -
  obtain started w1 where i: "env_instant (sy_env S) w = (started, w1)" by (metis prod.exhaust)
  obtain y s1 w2 where c: "execute_price_cycle S F (start_price_cycle s, w1) = (y, (s1, w2))" by (metis prod.exhaust)
  have y: "y \<noteq> Panic" using assms(1,2) i c by (auto simp: run_price_cycle_def bind_action_def)
  have "system_inv S (start_price_cycle s)"
    using loggable_system_inv [of S] assms(3) by (simp add: loggable_def start_price_cycle_def)
  then have s1: "system_inv S s1" using execute_price_cycle_inv [OF c y] by blast
  show ?thesis
  proof (cases y)
    case (Ok counts)
    then have "(s', w') = finish_cycle S started counts (s1, w2)"
      using assms(1) i c by (simp add: run_price_cycle_def bind_action_def)
    then show ?thesis using finish_cycle_inv [of S "(s1, w2)" started counts] s1 by (metis fst_conv)
  next
    case (Err e)
    then show ?thesis using assms(1) i c s1 by (simp add: run_price_cycle_def bind_action_def)
  next
    case Panic
    then show ?thesis using y by simp
  qed
qed

section \<open>Accounting\<close>

lemma keep_cached_counts:
  assumes "keep_cached S ledger_seq token e (np, oks, failed, stale) sw = ((np', oks', failed', stale'), sw')"
  shows "oks' + failed' = oks + failed + 1 \<and> oks \<le> oks' \<and> (np' = [] \<longleftrightarrow> np = [] \<and> oks' = oks)"
proof -
  have ne: "bt_insert k v m \<noteq> []" for k v and m :: "(string, cached_price) btree"
    by (cases "(k, v, m)" rule: bt_insert.cases) (auto split: if_splits)
  show ?thesis
    using assms by (auto simp: keep_cached_def ne split: prod.splits option.splits if_splits)
qed

lemma settle_counts:
  "settle_results S ledger_seq results (np, oks, failed, stale) sw = ((np', oks', failed', stale'), sw')
    \<Longrightarrow> \<forall>(token, r) \<in> set results. r \<noteq> Panic
    \<Longrightarrow> oks' + failed' = oks + failed + length results \<and> oks \<le> oks' \<and> (np' = [] \<longleftrightarrow> np = [] \<and> oks' = oks)"
proof (induction results arbitrary: np oks failed stale sw)
  case (Cons tr results)
  have ne: "bt_insert k v m \<noteq> []" for k v and m :: "(string, cached_price) btree"
    by (cases "(k, v, m)" rule: bt_insert.cases) (auto split: if_splits)
  obtain token r where tr: "tr = (token, r)" by (cases tr)
  show ?case
  proof (cases r)
    case (Ok p)
    then have "settle_results S ledger_seq results (bt_insert (lookup_key token) p np, oks + 1, failed, stale) sw
        = ((np', oks', failed', stale'), sw')" using Cons.prems(1) tr by simp
    from Cons.IH [OF this] Cons.prems(2) ne show ?thesis by auto
  next
    case (Err e)
    obtain np1 oks1 failed1 stale1 sw1 where
      k: "keep_cached S ledger_seq token e (np, oks, failed, stale) sw = ((np1, oks1, failed1, stale1), sw1)"
      by (metis prod.exhaust)
    then have "settle_results S ledger_seq results (np1, oks1, failed1, stale1) sw1 = ((np', oks', failed', stale'), sw')"
      using Cons.prems(1) tr Err by simp
    from Cons.IH [OF this] Cons.prems(2) keep_cached_counts [OF k] show ?thesis by auto
  next
    case Panic
    then show ?thesis using Cons.prems(2) tr by simp
  qed
qed simp

end
