(* ===== verification/Oracle_Api.thy ===== *)
theory Oracle_Api
  imports Oracle_Price_Cycle
begin

text \<open>
  The HTTP API (\<^verbatim>\<open>api/mod.rs\<close>, \<^verbatim>\<open>api/admin.rs\<close>, \<^verbatim>\<open>api/prices.rs\<close>): the admin guard, the readiness
  probe with its cached result, and the handlers that read or clear the shared state. Routing,
  CORS, tracing and JSON are the framework's; a response is the record that is serialised. A
  \<^verbatim>\<open>SystemTime\<close> is never before the epoch here.
\<close>

section \<open>Errors and the admin guard\<close>

record api_error =
  ae_status :: u16
  ae_message :: string

definition api_error_new :: "u16 \<Rightarrow> string \<Rightarrow> api_error" where
  "api_error_new status message = \<lparr>ae_status = status, ae_message = message\<rparr>"

definition SERVICE_UNAVAILABLE :: u16 where "SERVICE_UNAVAILABLE = 503"
definition TOO_MANY_REQUESTS :: u16 where "TOO_MANY_REQUESTS = 429"
definition UNAUTHORIZED :: u16 where "UNAUTHORIZED = 401"
definition NOT_FOUND :: u16 where "NOT_FOUND = 404"

text \<open>What the guard reads of a request: the peer, a readable \<^verbatim>\<open>Authorization\<close> header, the route.\<close>

record auth_request =
  ar_client :: "string option"
  ar_authorization :: "string option"
  ar_route :: "string option"

definition or_unknown :: "string option \<Rightarrow> string" where
  "or_unknown x = (case x of None \<Rightarrow> ''unknown'' | Some s \<Rightarrow> s)"

definition bearer_matches :: "string \<Rightarrow> auth_request \<Rightarrow> bool" where
  "bearer_matches expected rq =
     (case Option.bind (ar_authorization rq) (\<lambda>h. strip_prefix h ''Bearer '') of
        Some actual \<Rightarrow> constant_time_eq actual expected
      | None \<Rightarrow> False)"

definition admin_auth :: "'w system \<Rightarrow> auth_request \<Rightarrow> (app_state \<times> 'w, api_error, unit) action" where
  "admin_auth S rq =
     (\<lambda>(s, w). case cf_admin_api_token (sy_config S) of
        None \<Rightarrow> (Err (api_error_new SERVICE_UNAVAILABLE ''ADMIN_API_TOKEN is not configured''), (s, w))
      | Some expected \<Rightarrow>
          (case env_instant (sy_env S) w of (now, w1) \<Rightarrow>
             let client = or_unknown (ar_client rq) in
             if limiter_blocked (st_limiter s) client now
             then (Err (api_error_new TOO_MANY_REQUESTS ''too many failed admin auth attempts; try again later''), (s, w1))
             else if bearer_matches expected rq
             then (Ok (), (s\<lparr>st_limiter := limiter_record_success client (st_limiter s)\<rparr>, w1))
             else (Err (api_error_new UNAUTHORIZED ''unauthorized''),
                   (s\<lparr>st_limiter := limiter_record_failure client now (st_limiter s),
                      st_metrics := record_http_auth_failure (or_unknown (ar_route rq)) (st_metrics s)\<rparr>, w1))))"

section \<open>Prices and failures\<close>

definition values_of :: "('k, 'v) btree \<Rightarrow> 'v list" where
  "values_of m = map snd m"

definition get_prices :: "app_state \<Rightarrow> (api_error, cached_price list) outcome" where
  "get_prices s =
     (let cached = pc_prices (st_price_cache s)
      in if cached = [] then Err (api_error_new SERVICE_UNAVAILABLE ''no_prices'') else Ok (values_of cached))"

record failures_query =
  fq_operation :: "string option"
  fq_limit :: "nat option"

record failures_response =
  fr_failures :: "failed_submission list"
  fr_total_count :: nat

definition failed_submissions :: "failures_query \<Rightarrow> app_state \<Rightarrow> failures_response" where
  "failed_submissions query s =
     (let newest_first = rev (rb_items (st_failures s));
          filtered = (case fq_operation query of
             Some op \<Rightarrow> filter (\<lambda>f. starts_with (fs_operation f) op) newest_first
           | None \<Rightarrow> newest_first);
          limit = min (case fq_limit query of None \<Rightarrow> 100 | Some n \<Rightarrow> n) 256
      in \<lparr>fr_failures = take limit filtered, fr_total_count = length filtered\<rparr>)"

section \<open>Abandoned keys\<close>

definition clear_blacklisted_key :: "string \<Rightarrow> app_state \<Rightarrow> (api_error, string \<times> bool) outcome \<times> app_state" where
  "clear_blacklisted_key key s =
     (if st_blacklist s key = None then (Err (api_error_new NOT_FOUND ''key_not_blacklisted''), s)
      else (Ok (key, True),
            s\<lparr>st_blacklist := (st_blacklist s)(key := None),
              st_freeze_failures := (st_freeze_failures s)(key := None),
              st_execution_failures := (st_execution_failures s)(key := None)\<rparr>))"

section \<open>The keeper's balance\<close>

definition KEEPER_BALANCE_RETRY_ATTEMPTS :: nat where "KEEPER_BALANCE_RETRY_ATTEMPTS = 3"
definition KEEPER_BALANCE_RETRY_BASE_DELAY_MS :: u64 where "KEEPER_BALANCE_RETRY_BASE_DELAY_MS = 100"

text \<open>The world together with a piece of state, and the balance check on the shared state.\<close>

definition lift_env :: "'w env \<Rightarrow> ('s \<times> 'w) env" where
  "lift_env env =
     \<lparr>env_system = (\<lambda>(s, w). case env_system env w of (t, w') \<Rightarrow> (t, (s, w'))),
      env_instant = (\<lambda>(s, w). case env_instant env w of (t, w') \<Rightarrow> (t, (s, w'))),
      env_random = (\<lambda>(s, w). case env_random env w of (x, w') \<Rightarrow> (x, (s, w'))),
      env_sleep = (\<lambda>ms (s, w). (s, env_sleep env ms w)),
      env_http = (\<lambda>rq (s, w). case env_http env rq w of (r, w') \<Rightarrow> (r, (s, w')))\<rparr>"

definition balance_probe :: "'w system \<Rightarrow> (app_state \<times> 'w, rpc_error, i64) action" where
  "balance_probe S =
     (\<lambda>(s, w). case check_keeper_balance (sy_env S) (sy_codec S) (keeper_config (sy_config S))
                     (st_balance_below_min s) w of
        ((flag, r), w') \<Rightarrow> (r, (s\<lparr>st_balance_below_min := flag\<rparr>, w')))"

definition retried_balance :: "'w system \<Rightarrow> (app_state \<times> 'w, rpc_error, i64) action" where
  "retried_balance S =
     retry_with_backoff (lift_env (sy_env S)) rpc_retryable (balance_probe S)
       KEEPER_BALANCE_RETRY_ATTEMPTS KEEPER_BALANCE_RETRY_BASE_DELAY_MS MAX_BACKOFF_DELAY_MS"

record keeper_balance_response =
  bl_account_id :: string
  bl_balance_stroops :: i64
  bl_balance_xlm :: f64
  bl_min_balance_xlm :: f64
  bl_is_funded :: bool

definition keeper_balance :: "'w system \<Rightarrow> (app_state \<times> 'w, api_error, keeper_balance_response) action" where
  "keeper_balance S sw =
     (case retried_balance S sw of
        (Ok stroops, sw') \<Rightarrow>
          (let response = build_balance_response (keeper_config (sy_config S)) stroops
           in (Ok \<lparr>bl_account_id = br_account_id response, bl_balance_stroops = br_balance_stroops response,
                   bl_balance_xlm = br_balance_xlm response, bl_min_balance_xlm = br_min_balance_xlm response,
                   bl_is_funded = (\<not> br_below_minimum response)\<rparr>, sw'))
      | (Err (BalanceBelowMinimum stroops xlm min_xlm), sw') \<Rightarrow>
          (Ok \<lparr>bl_account_id = cf_keeper_account_id (sy_config S), bl_balance_stroops = stroops,
               bl_balance_xlm = xlm, bl_min_balance_xlm = min_xlm, bl_is_funded = False\<rparr>, sw')
      | (Err _, sw') \<Rightarrow> (Err (api_error_new SERVICE_UNAVAILABLE ''keeper_balance_check_failed''), sw')
      | (Panic, sw') \<Rightarrow> (Panic, sw'))"

section \<open>Readiness\<close>

definition READY_BALANCE_RETRY_ATTEMPTS :: nat where "READY_BALANCE_RETRY_ATTEMPTS = 3"
definition READY_BALANCE_RETRY_BASE_DELAY_MS :: u64 where "READY_BALANCE_RETRY_BASE_DELAY_MS = 100"
definition READY_CACHE_TTL :: nat where "READY_CACHE_TTL = 3 * 10 ^ 9"

text \<open>\<^verbatim>\<open>retry_ready_probe\<close>: \<open>tried\<close> counts up to the limit, \<open>n\<close> attempts are left.\<close>

fun ready_probe_loop ::
  "'w env \<Rightarrow> ('w, 'e, 'a) action \<Rightarrow> ('e \<Rightarrow> bool) \<Rightarrow> nat \<Rightarrow> nat \<Rightarrow> ('w, 'e, 'a) action" where
  "ready_probe_loop env probe is_terminal tried 0 w = (Panic, w)"
| "ready_probe_loop env probe is_terminal tried (Suc n) w =
     (case probe w of
        (Ok v, w1) \<Rightarrow> (Ok v, w1)
      | (Panic, w1) \<Rightarrow> (Panic, w1)
      | (Err e, w1) \<Rightarrow>
          if is_terminal e then (Err e, w1)
          else if n = 0 then (Err e, w1)
          else ready_probe_loop env probe is_terminal (tried + 1) n
                 (env_sleep env (READY_BALANCE_RETRY_BASE_DELAY_MS * 2 ^ (tried - 1)) w1))"

definition retry_ready_probe ::
  "'w env \<Rightarrow> ('w, 'e, 'a) action \<Rightarrow> ('e \<Rightarrow> bool) \<Rightarrow> ('w, 'e, 'a) action" where
  "retry_ready_probe env probe is_terminal = ready_probe_loop env probe is_terminal 1 READY_BALANCE_RETRY_ATTEMPTS"

text \<open>The body of the reply is not read.\<close>

definition probe_rpc_reachability :: "'w system \<Rightarrow> ('w, api_error, unit) action" where
  "probe_rpc_reachability S w =
     (case env_http (sy_env S) \<lparr>rq_url = cf_stellar_rpc_url (sy_config S), rq_query = [], rq_bearer = None,
              rq_body = None\<rparr> w of
        (Ok (status, _), w1) \<Rightarrow>
          (if 200 \<le> status \<and> status < 300 then Ok ()
           else Err (api_error_new SERVICE_UNAVAILABLE ''rpc_unhealthy''), w1)
      | (Err _, w1) \<Rightarrow> (Err (api_error_new SERVICE_UNAVAILABLE ''rpc_unreachable''), w1)
      | (Panic, w1) \<Rightarrow> (Panic, w1))"

fun is_balance_below_minimum :: "rpc_error \<Rightarrow> bool" where
  "is_balance_below_minimum (BalanceBelowMinimum _ _ _) = True"
| "is_balance_below_minimum _ = False"

definition perform_external_ready_checks :: "'w system \<Rightarrow> (app_state \<times> 'w, api_error, unit) action" where
  "perform_external_ready_checks S =
     bind_action (lift_snd (retry_ready_probe (sy_env S) (probe_rpc_reachability S) (\<lambda>_. False))) (\<lambda>_.
     bind_action
       (map_err_action (\<lambda>e. api_error_new SERVICE_UNAVAILABLE
            (if is_balance_below_minimum e then ''keeper_balance_low'' else ''keeper_balance_check_failed''))
          (retry_ready_probe (lift_env (sy_env S)) (balance_probe S) is_balance_below_minimum))
       (\<lambda>_. return_action (Ok ())))"

text \<open>A loop is stale when it has not finished a cycle within three of its intervals.\<close>

definition loop_stale :: "system_time option \<Rightarrow> nat \<Rightarrow> system_time \<Rightarrow> bool" where
  "loop_stale finished interval_ms now =
     (case finished of None \<Rightarrow> True | Some t \<Rightarrow> interval_ms * 3 < now - t)"

text \<open>The clock is read only for a loop that has finished a cycle.\<close>

definition check_loop :: "'w system \<Rightarrow> system_time option \<Rightarrow> nat \<Rightarrow> string \<Rightarrow> ('w, api_error, unit) action" where
  "check_loop S finished interval_ms message w =
     (case (case finished of None \<Rightarrow> (0, w) | Some _ \<Rightarrow> env_system (sy_env S) w) of (now, w1) \<Rightarrow>
        (if loop_stale finished interval_ms now then Err (api_error_new SERVICE_UNAVAILABLE message) else Ok (), w1))"

definition cached_ready :: "ready_cache \<Rightarrow> instant \<Rightarrow> (api_error, unit) outcome option" where
  "cached_ready cache now =
     (case rc_last_checked cache of
        None \<Rightarrow> None
      | Some lst \<Rightarrow>
          if now - lst < READY_CACHE_TTL
          then Some (case rc_last_error cache of
                 Some (status, msg) \<Rightarrow> Err (api_error_new status msg)
               | None \<Rightarrow> Ok ())
          else None)"

fun ready_error :: "(api_error, unit) outcome \<Rightarrow> (u16 \<times> string) option" where
  "ready_error (Err e) = Some (ae_status e, ae_message e)"
| "ready_error _ = None"

definition external_ready :: "'w system \<Rightarrow> (app_state \<times> 'w, api_error, unit) action" where
  "external_ready S =
     (\<lambda>(s, w). case (case rc_last_checked (st_ready_cache s) of
                       None \<Rightarrow> (0, w) | Some _ \<Rightarrow> env_instant (sy_env S) w) of (now, w1) \<Rightarrow>
        (case cached_ready (st_ready_cache s) now of
           Some r \<Rightarrow> (r, (s, w1))
         | None \<Rightarrow>
             (case perform_external_ready_checks S (s, w1) of
                (Panic, sw) \<Rightarrow> (Panic, sw)
              | (r, (s2, w2)) \<Rightarrow>
                  (case env_instant (sy_env S) w2 of (checked, w3) \<Rightarrow>
                     (r, (s2\<lparr>st_ready_cache := \<lparr>rc_last_checked = Some checked, rc_last_error = ready_error r\<rparr>\<rparr>,
                          w3))))))"

text \<open>
  The checks are dropped after their limit, in whatever state they had reached; the verdict is
  stored like any other.
\<close>

definition READY_CHECK_TIMEOUT_SECS :: u64 where "READY_CHECK_TIMEOUT_SECS = 15"

definition timed_out_external_ready :: "'w system \<Rightarrow> (app_state \<times> 'w, api_error, unit) action" where
  "timed_out_external_ready S =
     (\<lambda>(dropped, w). case env_instant (sy_env S) w of (checked, w1) \<Rightarrow>
        let e = api_error_new SERVICE_UNAVAILABLE ''ready_check_timeout''
        in (Err e, (dropped\<lparr>st_ready_cache :=
              \<lparr>rc_last_checked = Some checked, rc_last_error = Some (ae_status e, ae_message e)\<rparr>\<rparr>, w1)))"

definition ready :: "'w system \<Rightarrow> (app_state \<times> 'w, api_error, unit) action" where
  "ready S =
     (\<lambda>(s, w).
        if pc_prices (st_price_cache s) = []
        then (Err (api_error_new SERVICE_UNAVAILABLE ''no_prices_cached''), (s, w))
        else bind_action (lift_snd (check_loop S (cy_last_price_cycle_at (st_cycle_status s))
                 (cf_price_loop_interval_ms (sy_config S)) ''price_loop_stale'')) (\<lambda>_.
             bind_action (lift_snd (check_loop S (cy_last_keeper_cycle_at (st_cycle_status s))
                 (cf_keeper_loop_interval_ms (sy_config S)) ''keeper_loop_stale'')) (\<lambda>_.
               external_ready S)) (s, w))"

section \<open>Status\<close>

definition secs_ago :: "system_time \<Rightarrow> system_time option \<Rightarrow> u64 option" where
  "secs_ago now t = (case t of None \<Rightarrow> None | Some t \<Rightarrow> if t \<le> now then Some ((now - t) div 1000) else None)"

record oracle_status_response =
  os_last_cycle_time :: "u64 option"
  os_keeper_balance :: "f64 option"
  os_prices :: "cached_price list"
  os_recent_errors :: "failed_submission list"
  os_price_cycle_count :: u64
  os_keeper_cycle_count :: u64
  os_token_fetch_failures :: u64
  os_submit_failures :: u64
  os_last_price_cycle_secs_ago :: "u64 option"
  os_last_keeper_cycle_secs_ago :: "u64 option"

definition elapsed_secs :: "'w env \<Rightarrow> system_time option \<Rightarrow> 'w \<Rightarrow> u64 option \<times> 'w" where
  "elapsed_secs env t w =
     (case t of None \<Rightarrow> (None, w) | Some _ \<Rightarrow> (case env_system env w of (now, w1) \<Rightarrow> (secs_ago now t, w1)))"

definition oracle_status :: "'w system \<Rightarrow> (app_state \<times> 'w, api_error, oracle_status_response) action" where
  "oracle_status S =
     (\<lambda>(s, w).
        let cycle = st_cycle_status s; c = mt_counters (st_metrics s) in
        case elapsed_secs (sy_env S) (cy_last_price_cycle_at cycle) w of (price_ago, w1) \<Rightarrow>
        case elapsed_secs (sy_env S) (cy_last_keeper_cycle_at cycle) w1 of (keeper_ago, w2) \<Rightarrow>
        case retried_balance S (s, w2) of
          (Panic, sw) \<Rightarrow> (Panic, sw)
        | (r, sw) \<Rightarrow>
            (Ok \<lparr>os_last_cycle_time = map_option (\<lambda>t. t div 1000) (cy_last_price_cycle_at cycle),
                 os_keeper_balance = map_option (\<lambda>stroops. f64_div (f64_of_int stroops) (f64_of_int XLM_IN_STROOPS))
                   (ok_option r),
                 os_prices = values_of (pc_prices (st_price_cache s)),
                 os_recent_errors = take 20 (rev (rb_items (st_failures s))),
                 os_price_cycle_count = ct_price_cycle_count c, os_keeper_cycle_count = ct_keeper_cycle_count c,
                 os_token_fetch_failures = ct_token_fetch_failures c, os_submit_failures = ct_submit_failures c,
                 os_last_price_cycle_secs_ago = price_ago, os_last_keeper_cycle_secs_ago = keeper_ago\<rparr>, sw))"

record keeper_status_response =
  kx_pending_orders :: nat
  kx_pending_deposits :: nat
  kx_pending_withdrawals :: nat
  kx_last_cycle_at :: "u64 option"
  kx_last_cycle_latency_ms :: "u64 option"
  kx_last_executions :: "keeper_execution list"
  kx_blacklisted_keys :: "string \<rightharpoonup> u32"

text \<open>The blacklist is listed in the hash map's order: the response carries the map.\<close>

definition keeper_status_report :: "(nat \<Rightarrow> app_state) \<Rightarrow> app_state \<Rightarrow> keeper_status_response" where
  "keeper_status_report obs s =
     (case keeper_status_snapshot obs of (ks, cycle) \<Rightarrow>
        \<lparr>kx_pending_orders = ks_pending_orders ks, kx_pending_deposits = ks_pending_deposits ks,
         kx_pending_withdrawals = ks_pending_withdrawals ks,
         kx_last_cycle_at = map_option (\<lambda>t. t div 1000) (cy_last_keeper_cycle_at cycle),
         kx_last_cycle_latency_ms = cy_last_keeper_cycle_latency_ms cycle,
         kx_last_executions = take 50 (rev (ks_last_executions ks)),
         kx_blacklisted_keys = st_blacklist s\<rparr>)"

section \<open>The metrics page\<close>

definition price_age_lines :: "u64 \<Rightarrow> (string, cached_price) btree \<Rightarrow> string" where
  "price_age_lines now prices =
     concat (map (\<lambda>(symbol, price). metric_line (labelled ''oracle_price_age_seconds'' [(''symbol'', symbol)])
       (nat_digits (now - cp_timestamp price))) prices)"

text \<open>The sizes of the two hash tables of keys are \<open>in_flight\<close> and \<open>blacklisted\<close>.\<close>

definition metrics_page :: "(f64 \<Rightarrow> string) \<Rightarrow> nat \<Rightarrow> nat \<Rightarrow> system_time \<Rightarrow> app_state \<Rightarrow> string" where
  "metrics_page fmt in_flight blacklisted t0 s =
     (let cache = st_price_cache s; ks = st_keeper_status s;
          pending = (\<lambda>kind n. metric_line (labelled ''oracle_pending_keys'' [(''kind'', kind)]) (nat_digits n))
      in to_prometheus fmt (st_metrics s)
       @ gauge_text ''oracle_keeper_balance_below_min'' ''1 if keeper XLM balance is below minimum threshold''
           (if st_balance_below_min s then ''1'' else ''0'')
       @ metric_head ''oracle_price_age_seconds'' ''Seconds since each token's price was last cached'' ''gauge''
       @ price_age_lines (t0 div 1000) (pc_prices cache)
       @ gauge_text ''oracle_last_set_prices_timestamp_seconds''
           ''Unix timestamp of the last successful set_prices submission''
           (nat_digits (case pc_last_updated cache of None \<Rightarrow> 0 | Some t \<Rightarrow> t div 1000))
       @ metric_head ''oracle_pending_keys'' ''Number of pending keys by kind'' ''gauge''
       @ pending ''orders'' (ks_pending_orders ks) @ pending ''deposits'' (ks_pending_deposits ks)
       @ pending ''withdrawals'' (ks_pending_withdrawals ks)
       @ gauge_text ''oracle_in_flight_keys'' ''Keys currently being submitted on-chain'' (nat_digits in_flight)
       @ gauge_text ''oracle_blacklisted_keys'' ''Keys permanently abandoned after repeated failures''
           (nat_digits blacklisted))"

end
