(* ===== verification/Oracle_Reachable.thy ===== *)
theory Oracle_Reachable
  imports Oracle_Cycle_Props Oracle_Price_Inv Oracle_Api
begin

text \<open>
  The two loops and the admin API over one shared state: what the keeper cycle leaves of the
  price cache, the steps of the running service as an inductive relation, and the invariant of
  every reachable state.
\<close>

section \<open>The keeper cycle keeps the cached prices\<close>

definition cache_of :: "'w keeper_run \<Rightarrow> price_cache" where
  "cache_of r = st_price_cache (kr_app r)"

lemma cache_updates [simp]:
  "st_price_cache (release_key k s) = st_price_cache s"
  "st_price_cache (clear_execution_failures k s) = st_price_cache s"
  "st_price_cache (clear_freeze_failures k s) = st_price_cache s"
  "st_price_cache (blacklist_key k n s) = st_price_cache s"
  by (simp_all add: release_key_def clear_execution_failures_def clear_freeze_failures_def blacklist_key_def)

lemma cache_of_error [simp]: "cache_of (on_world (record_error S op e h) r) = cache_of r"
proof -
  obtain f where "fst (record_error S op e h (kr_app r, kr_world r)) = (kr_app r)\<lparr>st_failures := ring_push f (st_failures (kr_app r))\<rparr>"
    using record_error_frame [of S op e h "kr_app r" "kr_world r"] by auto
  then show ?thesis by (simp add: cache_of_def on_world_app)
qed

lemma cache_of_execution [simp]: "cache_of (on_world (record_execution S op k h b msg) r) = cache_of r"
proof -
  obtain e where "fst (record_execution S op k h b msg (kr_app r, kr_world r))
      = (kr_app r)\<lparr>st_keeper_status := push_execution e (st_keeper_status (kr_app r))\<rparr>"
    using record_execution_frame [of S op k h b msg "kr_app r" "kr_world r"] by auto
  then show ?thesis by (simp add: cache_of_def on_world_app)
qed

lemma cache_of_simps [simp]:
  "cache_of (count_error r) = cache_of r"
  "cache_of (on_summary g r) = cache_of r"
  "cache_of (record_failed_work S op k m sh h r) = cache_of r"
  "cache_of (work_undecided S op k e r) = cache_of r"
  by (simp_all add: record_failed_work_def work_undecided_def) (simp_all add: cache_of_def)

lemma cache_of_on_app: "st_price_cache (f (kr_app r)) = st_price_cache (kr_app r) \<Longrightarrow> cache_of (on_app f r) = cache_of r"
  by (simp add: cache_of_def)

lemma cache_of_handler [simp]: "run_handler S c m k r = (x, r') \<Longrightarrow> cache_of r' = cache_of r"
  using run_handler_frame' [of S c m k r x r'] by (simp add: cache_of_def)

lemma cache_of_claim: "claim_key S k r = (b, r') \<Longrightarrow> cache_of r' = cache_of r"
  by (auto simp: cache_of_def claim_key_def split: option.splits prod.splits if_splits)

lemma cache_of_abandon: "abandon_if_broken S c fm k r = (Ok u, r') \<Longrightarrow> cache_of r' = cache_of r"
  by (auto simp: abandon_if_broken_def Let_def cache_of_on_app split: if_splits outcome.splits prod.splits)

lemma cache_of_freeze: "freeze_order S k r = (Ok u, r') \<Longrightarrow> cache_of r' = cache_of r"
  by (auto simp: freeze_order_def Let_def cache_of_on_app split: if_splits outcome.splits prod.splits)

lemma cache_of_work_failed: "work_failed S c op fm k e r = (Ok u, r') \<Longrightarrow> cache_of r' = cache_of r"
  by (auto simp: work_failed_def Let_def bind_action_def cache_of_on_app split: if_splits outcome.splits prod.splits
      dest!: cache_of_abandon)

lemma cache_of_order_failed: "order_failed S k e r = (Ok u, r') \<Longrightarrow> cache_of r' = cache_of r"
  by (auto simp: order_failed_def Let_def bind_action_def return_action_def cache_of_on_app
      split: if_splits outcome.splits prod.splits dest!: cache_of_abandon cache_of_freeze)

lemma cache_of_item:
  assumes "guarded S k (attempt S c op k suc failed) r = (Ok u, r')"
    and "\<And>tx r1. cache_of (suc tx r1) = cache_of r1"
    and "\<And>e r1 r2 u. failed e r1 = (Ok u, r2) \<Longrightarrow> cache_of r2 = cache_of r1"
  shows "cache_of r' = cache_of r"
  using assms(1)
  by (auto simp: guarded_def attempt_def assms(2) cache_of_on_app split: if_splits prod.splits bool.splits outcome.splits
      dest!: cache_of_claim assms(3))

lemma cache_of_process:
  "process_order S k r = (Ok u, r') \<Longrightarrow> cache_of r' = cache_of r"
  "process_deposit S stale k r = (Ok u, r') \<Longrightarrow> cache_of r' = cache_of r"
  "process_withdrawal S stale k r = (Ok u, r') \<Longrightarrow> cache_of r' = cache_of r"
  unfolding process_order_def process_deposit_def process_withdrawal_def
  by (erule cache_of_item, simp add: cache_of_on_app, erule cache_of_order_failed)
    (cases stale, simp, simp, erule cache_of_item, simp add: cache_of_on_app, erule cache_of_work_failed)+

lemma cache_of_pending:
  assumes "process_pending S stale os ds ws r = (Ok u, r')"
  shows "cache_of r' = cache_of r"
proof -
  have each: "cache_of r2 = cache_of r1" if "for_each f xs r1 = (Ok u, r2)"
    and f: "\<And>x s s'. f x s = (Ok (), s') \<Longrightarrow> cache_of s' = cache_of s" for f xs r1 r2 u
    by (rule for_each_inv [where f = f and I = "\<lambda>r. cache_of r = cache_of r1", OF _ that(1)]) (simp_all add: f)
  from assms obtain r1 r2 where
    o1: "(if stale then return_action (Ok ()) else for_each (process_order S) os) r = (Ok (), r1)"
    and d: "for_each (process_deposit S stale) ds r1 = (Ok (), r2)"
    and w: "for_each (process_withdrawal S stale) ws r2 = (Ok u, r')"
    by (auto simp: process_pending_def bind_action_def split: prod.splits outcome.splits)
  have "cache_of r1 = cache_of r"
    using o1 each [of "process_order S" os r "()" r1, OF _ cache_of_process(1)]
    by (auto simp: return_action_def split: if_splits)
  with each [OF d cache_of_process(2)] each [OF w cache_of_process(3)] show ?thesis by simp
qed

lemma prices_publish:
  "publish_prices S fresh (s, w) = (x, (s', w')) \<Longrightarrow> pc_prices (st_price_cache s') = pc_prices (st_price_cache s)"
  unfolding publish_prices_def Let_def
  by (auto simp: bind_action_def return_action_def lift_snd_simp update_submitted_prices_def
      split: outcome.splits prod.splits if_splits)

abbreviation prices_of :: "app_state \<Rightarrow> (string, cached_price) btree" where
  "prices_of s \<equiv> pc_prices (st_price_cache s)"

lemma prices_work:
  assumes x: "execute_work S fresh low os ds ws (s, w) = (x, (s', w'))" and np: "x \<noteq> Panic"
  shows "prices_of s' = prices_of s"
proof (cases x)
  case (Ok m)
  let ?r = "\<lambda>s w. \<lparr>kr_app = s, kr_summary = summary_skipped (fresh = []) low, kr_seq = None, kr_world = w\<rparr>"
  from x Ok obtain s1 w1 r' where
    p: "(if fresh = [] then return_action (Ok ()) else publish_prices S fresh) (s, w) = (Ok (), (s1, w1))"
    and q: "process_pending S (fresh = []) os ds ws (?r s1 w1) = (Ok (), r')" and s': "s' = kr_app r'"
    by (auto simp: execute_work_def bind_action_def outcome_ops split: prod.splits outcome.splits)
  have "prices_of s1 = prices_of s"
    using p prices_publish [of S fresh s w "Ok ()" s1 w1] by (auto simp: return_action_def split: if_splits)
  then show ?thesis using cache_of_pending [OF q] s' by (simp add: cache_of_def)
next
  case (Err e)
  show ?thesis using prices_publish [OF conjunct1 [OF execute_work_err [OF x [unfolded Err]]]] .
next
  case Panic
  then show ?thesis using np by simp
qed

lemma prices_keeper_cycle:
  assumes x: "execute_keeper_cycle S (s, w) = (x, (s', w'))" and np: "x \<noteq> Panic"
  shows "prices_of s' = prices_of s"
  using x np
proof (rule execute_keeper_cycle_cases)
  fix low s1 w1 now w2 os s2 w3 ds s3 w4 ws s4 w5 fresh s5
  assume gate: "balance_gate S (sweep_expired_in_flight_keys S (s, w)) = (Ok low, (s1, w1))"
    and po: "pending_or_none S ''get_order_count'' ''get_order_keys'' (s1, w2) = (Ok os, (s2, w3))"
    and pd: "pending_or_none S ''get_deposit_count'' ''get_deposit_keys'' (s2, w3) = (Ok ds, (s3, w4))"
    and pw: "pending_or_none S ''get_withdrawal_count'' ''get_withdrawal_keys'' (s3, w4) = (Ok ws, (s4, w5))"
    and s5: "s5 = set_pending (length os) (length ds) (length ws) s4"
    and tail: "if os = [] \<and> ds = [] \<and> ws = [] \<or> low
         then x = Ok (summary_skipped (fresh = []) low) \<and> s' = s5 \<and> w' = w5
         else execute_work S fresh low os ds ws (s5, w5) = (x, (s', w'))"
  obtain s0 w0 where sweep: "sweep_expired_in_flight_keys S (s, w) = (s0, w0)" by (metis prod.exhaust)
  then have "st_price_cache s0 = st_price_cache s"
    by (auto simp: sweep_expired_in_flight_keys_def split: prod.splits)
  then have s1: "prices_of s1 = prices_of s"
    using balance_gate_frame [of S s0 w0 "Ok low" s1 w1] gate sweep by auto
  have read: "prices_of t' = prices_of t" if "pending_or_none S c k (t, v) = (y, (t', v'))" for c k t v y t' v'
    using pending_or_none_frame [OF that] by auto
  have "prices_of s5 = prices_of s"
    using s1 read [OF po] read [OF pd] read [OF pw] s5 by (simp add: set_pending_def)
  moreover have "execute_work S fresh low os ds ws (s5, w5) = (x, (s', w')) \<Longrightarrow> prices_of s' = prices_of s5"
    by (rule prices_work [OF _ np])
  ultimately show ?thesis using tail by (auto split: if_splits)
qed

lemma run_keeper_cycle_system:
  assumes x: "run_keeper_cycle S (s, w) = (x, (s', w'))" and np: "x \<noteq> Panic" and inv: "system_inv S s"
  shows "system_inv S s'"
proof -
  obtain started w1 where i: "env_instant (sy_env S) w = (started, w1)" by (metis prod.exhaust)
  obtain y s1 w2 where c: "execute_keeper_cycle S (start_keeper_cycle s, w1) = (y, (s1, w2))"
    by (metis prod.exhaust)
  have y: "y \<noteq> Panic" "(s', w') = finish_keeper_cycle S started y (s1, w2)"
    using x np i c by (auto simp: run_keeper_cycle_def split: outcome.splits)
  have "st_price_cache s' = st_price_cache s1"
    using y(2) by (auto simp: finish_keeper_cycle_def Let_def stamp_keeper_cycle_def close_generation_def
        record_error_def split: prod.splits outcome.splits)
  moreover have "prices_of s1 = prices_of s"
    using prices_keeper_cycle [OF c y(1)] by (simp add: start_keeper_cycle_def)
  ultimately have "prices_of s' = prices_of s" by simp
  then show ?thesis using run_keeper_cycle_inv [OF x np] inv by (simp add: system_inv_def cache_valid_def)
qed

section \<open>The other steps of the service\<close>

lemma clear_blacklisted_key_inv:
  assumes "clear_blacklisted_key k s = (r, s')" and "system_inv S s"
  shows "system_inv S s'"
  using assms
  by (auto simp: clear_blacklisted_key_def system_inv_def keeper_inv_def cache_valid_def logs_bounded_def counts_ok_def
      split: if_splits)

lemma admin_auth_frame:
  "admin_auth S rq (s, w) = (r, (s', w')) \<Longrightarrow> s' = s\<lparr>st_limiter := st_limiter s', st_metrics := st_metrics s'\<rparr>"
  by (auto simp: admin_auth_def Let_def split: option.splits prod.splits if_splits)

lemma system_inv_other_fields [simp]:
  "system_inv S (s\<lparr>st_limiter := l\<rparr>) = system_inv S s"
  "system_inv S (s\<lparr>st_metrics := m\<rparr>) = system_inv S s"
  "system_inv S (s\<lparr>st_balance_below_min := b\<rparr>) = system_inv S s"
  "system_inv S (s\<lparr>st_ready_cache := c\<rparr>) = system_inv S s"
  by (simp_all add: system_inv_def cache_valid_def keeper_inv_def logs_bounded_def counts_ok_def)

lemma system_inv_new: "system_inv S app_state_new"
  using logs_bounded_new counts_ok_new
  by (simp add: system_inv_def keeper_inv_def cache_valid_def) (simp add: app_state_new_def)

section \<open>Reachable states\<close>

text \<open>
  One step of the running service: a cycle of either loop that does not panic, a request of the
  admin API, or time passing. A cycle is one step here; the two loops write different fields of
  the state, and the fields both write are logs.
\<close>

inductive service_step :: "'w system \<Rightarrow> formats \<Rightarrow> app_state \<times> 'w \<Rightarrow> app_state \<times> 'w \<Rightarrow> bool" for S F where
  keeper: "run_keeper_cycle S sw = (x, sw') \<Longrightarrow> x \<noteq> Panic \<Longrightarrow> service_step S F sw sw'"
| prices: "run_price_cycle S F sw = (y, sw') \<Longrightarrow> y \<noteq> Panic \<Longrightarrow> service_step S F sw sw'"
| login: "admin_auth S rq sw = (z, sw') \<Longrightarrow> service_step S F sw sw'"
| clear: "clear_blacklisted_key k s = (r, s') \<Longrightarrow> service_step S F (s, w) (s', w)"
| idle: "service_step S F (s, w) (s, w')"

inductive reachable :: "'w system \<Rightarrow> formats \<Rightarrow> app_state \<times> 'w \<Rightarrow> bool" for S F where
  start: "reachable S F (app_state_new, w)"
| step: "reachable S F sw \<Longrightarrow> service_step S F sw sw' \<Longrightarrow> reachable S F sw'"

inductive_cases service_stepE: "service_step S F sw sw'"
inductive_simps reachable_iff: "reachable S F sw"

lemma service_step_inv:
  assumes "service_step S F sw sw'" and "system_inv S (fst sw)"
  shows "system_inv S (fst sw')"
  using assms(1)
proof (cases rule: service_step.cases)
  case (keeper x)
  then show ?thesis using run_keeper_cycle_system [of S "fst sw" "snd sw" x "fst sw'" "snd sw'"] assms(2) by simp
next
  case (prices y)
  then show ?thesis using run_price_cycle_inv [of S F "fst sw" "snd sw" y "fst sw'" "snd sw'"] assms(2) by simp
next
  case (login rq z)
  then have "fst sw' = (fst sw)\<lparr>st_limiter := st_limiter (fst sw'), st_metrics := st_metrics (fst sw')\<rparr>"
    using admin_auth_frame [of S rq "fst sw" "snd sw" z "fst sw'" "snd sw'"] by simp
  moreover have "system_inv S ((fst sw)\<lparr>st_limiter := l, st_metrics := m\<rparr>)" for l m using assms(2) by simp
  ultimately show ?thesis by metis
next
  case (clear k s r s' w)
  then show ?thesis using clear_blacklisted_key_inv assms(2) by simp
next
  case (idle s w w')
  then show ?thesis using assms(2) by simp
qed

lemma reachable_inv: "reachable S F sw \<Longrightarrow> system_inv S (fst sw)"
  by (induction rule: reachable.induct) (simp_all add: system_inv_new service_step_inv)

text \<open>
  C3: Whatever the loops and the admin API do, and in whatever order, the logs stay within
  their bounds, no key's failure count passes its limit without the key being abandoned, and
  every cached price is a signed aggregate of positive prices of configured sources.
\<close>

theorem reachable_invariant:
  assumes "reachable S F sw"
  shows "system_inv S (fst sw)"
  using assms by (rule reachable_inv)

definition admin_system :: "script system" where
  "admin_system = sample_system\<lparr>sy_config := sample_config\<lparr>cf_admin_api_token := Some ''t''\<rparr>\<rparr>"

definition anonymous :: auth_request where
  "anonymous = \<lparr>ar_client = None, ar_authorization = None, ar_route = None\<rparr>"

lemma anonymous_login:
  "admin_auth admin_system anonymous (app_state_new, w) =
     (Err (api_error_new UNAUTHORIZED ''unauthorized''),
      (app_state_new\<lparr>st_limiter := [(''unknown'', 1, 0)],
         st_metrics := record_http_auth_failure ''unknown'' (st_metrics app_state_new)\<rparr>, w))"
proof -
  have "st_limiter app_state_new = []" by (simp add: app_state_new_def)
  then show ?thesis
    by (simp add: admin_auth_def admin_system_def sample_system_def sample_config_def script_env_def anonymous_def
        bearer_matches_def or_unknown_def limiter_blocked_def limiter_record_failure_def limiter_set_def
        MAX_TRACKED_ADMIN_CLIENTS_def ADMIN_AUTH_WINDOW_def Let_def)
qed

theorem reachable_invariant_witness:
  "system_inv admin_system (fst (app_state_new\<lparr>st_limiter := [(''unknown'', 1, 0)],
     st_metrics := record_http_auth_failure ''unknown'' (st_metrics app_state_new)\<rparr>, ([], 0, 0) :: script))"
  by (rule reachable_invariant [where F = "\<lparr>fo_bps = \<lambda>_. [], fo_debug = \<lambda>_. []\<rparr>"])
    (rule reachable.step [OF reachable.start], rule service_step.login, rule anonymous_login)

end
