(* ===== verification/Oracle_Price_Props.thy ===== *)
theory Oracle_Price_Props
  imports Oracle_Reachable
begin

text \<open>
  Properties of the price cycle from the sources to the publication, with a sample system whose
  only token has a fixed price.
\<close>

section \<open>A token with a fixed price\<close>

definition fixed_token :: token_config where
  "fixed_token = token_config_default\<lparr>tc_symbol := ''TUSDC'', tc_sources := [''fixed''],
     tc_fixed_price := Some ''1000'', tc_min_sources := 1\<rparr>"

definition fixed_system :: "script system" where
  "fixed_system = sample_system\<lparr>sy_config := sample_config\<lparr>cf_tokens := [fixed_token]\<rparr>\<rparr>"

definition plain :: formats where
  "plain = \<lparr>fo_bps = \<lambda>_. [], fo_debug = \<lambda>_. []\<rparr>"

definition no_batch :: batch where
  "no_batch = \<lparr>ba_pyth = Map.empty, ba_pyth_failed = False, ba_binance = None\<rparr>"

lemma fixed_token_fields:
  "tc_sources fixed_token = [''fixed'']" "fixed_price fixed_token = Ok 1000" "tc_min_sources fixed_token = 1"
  "tc_max_deviation_bps fixed_token = 100" "tc_stale_after_seconds fixed_token = 60"
  by (simp add: fixed_token_def, code_simp, simp_all add: fixed_token_def token_config_default_def)

lemma fixed_source:
  "fetch_source_price fixed_system plain fixed_token batch ''fixed'' w = (Ok (observed_now 1700000000 1000), w)"
  by (simp add: fetch_source_price_def fixed_system_def sample_system_def current_timestamp_secs_def script_env_def
      return_action_def fixed_token_fields)

definition fixed_cluster :: cluster_result where
  "fixed_cluster = \<lparr>cr_prices = [1000], cr_sources = [''fixed'']\<rparr>"

definition fixed_filtered :: outlier_filter_result where
  "fixed_filtered = \<lparr>ofr_prices = [1000], ofr_sources = [''fixed''], ofr_rejected = []\<rparr>"

definition fixed_aggregate :: aggregated_price where
  "fixed_aggregate = the_ok (aggregate_prices [1000] [''fixed''] [1700000000] 1 100)"

lemma fixed_cluster:
  "find_largest_consistent_cluster [1000] [''fixed''] (cluster_tolerance_bps 100)
    = (Ok (Some fixed_cluster) :: (agg_error, _) outcome)"
  unfolding fixed_cluster_def by code_simp

lemma fixed_filtered: "filter_outliers [1000] [''fixed''] 100 = (Ok fixed_filtered :: (agg_error, _) outcome)"
  unfolding fixed_filtered_def by code_simp

lemma fixed_median: "compute_median_allow_single [1000] = (Ok (Some 1000) :: (agg_error, _) outcome)"
  by code_simp

lemma fixed_band:
  "\<exists>props. compute_confidence_interval_with_spread [1000] 100 = (Ok (Some props) :: (agg_error, _) outcome)"
proof -
  have "is_ok (compute_confidence_interval_with_spread [1000] 100 :: (agg_error, _) outcome)
      \<and> compute_confidence_interval_with_spread [1000] 100 \<noteq> (Ok None :: (agg_error, _) outcome)"
    by code_simp
  then show ?thesis by (cases "compute_confidence_interval_with_spread [1000] 100 :: (agg_error, _) outcome") auto
qed

lemma fixed_aggregate:
  "aggregate_prices [1000] [''fixed''] [1700000000] 1 100 = Ok fixed_aggregate"
  "ap_rejected_sources fixed_aggregate = []" "ap_min_observation_time fixed_aggregate = 1700000000"
proof -
  obtain props where props: "compute_confidence_interval_with_spread [1000] 100
      = (Ok (Some props) :: (agg_error, _) outcome)" using fixed_band by blast
  have fields: "cr_prices fixed_cluster = [1000]" "cr_sources fixed_cluster = [''fixed'']"
    "ofr_prices fixed_filtered = [1000]" "ofr_sources fixed_filtered = [''fixed'']" "ofr_rejected fixed_filtered = []"
    by (simp_all add: fixed_cluster_def fixed_filtered_def)
  have "\<exists>a. aggregate_prices [1000] [''fixed''] [1700000000] 1 100 = Ok a \<and> ap_rejected_sources a = []
      \<and> ap_min_observation_time a = 1700000000"
    by (simp add: aggregate_prices_def finish_aggregate_def fixed_cluster fixed_filtered fields fixed_median props
        cluster_rejected_def observed_at_def min_time_def map_filter_simps outcome_ops)
  then show "aggregate_prices [1000] [''fixed''] [1700000000] 1 100 = Ok fixed_aggregate"
    and "ap_rejected_sources fixed_aggregate = []" and "ap_min_observation_time fixed_aggregate = 1700000000"
    by (auto simp: fixed_aggregate_def the_ok_def)
qed

lemma fixed_collect:
  "collect_sources fixed_system plain fixed_token l batch [''fixed''] sw = (Ok [(''fixed'', observed_now 1700000000 1000)], sw)"
proof -
  obtain s w where sw: "sw = (s, w)" by (cases sw)
  have "fetch_source_with_retry fixed_system plain fixed_token batch ''fixed'' w = (Ok (observed_now 1700000000 1000), w)"
    by (simp add: fetch_source_with_retry_def retry_with_backoff_def SOURCE_RETRY_ATTEMPTS_def numeral_3_eq_3 fixed_source)
  then show ?thesis by (simp add: sw lift_snd_simp)
qed

definition fixed_cached :: cached_price where
  "fixed_cached = the_ok (signed_cached_price fixed_system fixed_token 100 fixed_aggregate)"

lemma fixed_signed: "signed_cached_price fixed_system fixed_token 100 fixed_aggregate = Ok fixed_cached"
  unfolding fixed_cached_def
  by (simp add: signed_cached_price_def fixed_system_def sample_system_def the_ok_def Let_def)

lemma fixed_build:
  "build_cached_price fixed_system plain 100 batch fixed_token sw = (Ok fixed_cached, sw)"
proof -
  have a: "aggregate_collected fixed_token [(''fixed'', observed_now 1700000000 1000)] = Ok fixed_aggregate"
    using fixed_aggregate(1) by (simp add: aggregate_collected_def fixed_token_fields observed_now_def)
  show ?thesis
    unfolding build_cached_price_def bind_action_def fixed_token_fields fixed_collect
    by (simp add: bind_action_def return_action_def a fixed_signed record_rejections_def fixed_aggregate(2))
qed

section \<open>The band of a cached price\<close>

lemma collect_sources_length:
  "collect_sources S F token ledger_seq batch sources sw = (Ok prices, sw') \<Longrightarrow> length prices \<le> length sources"
proof (induction sources arbitrary: sw prices sw')
  case (Cons source sources)
  obtain x sw1 where x: "lift_snd (fetch_source_with_retry S F token batch source) sw = (x, sw1)"
    by (metis prod.exhaust)
  obtain rest sw2 where rest: "collect_sources S F token ledger_seq batch sources sw1 = (rest, sw2)"
    by (metis prod.exhaust)
  show ?case
  proof (cases x)
    case (Ok r)
    then obtain prices' where "rest = Ok prices'" and "prices = (source, r) # prices'"
      using Cons.prems x rest by (auto simp: outcome_ops)
    then show ?thesis using Cons.IH rest by auto
  next
    case (Err e)
    then have "collect_sources S F token ledger_seq batch sources (source_failed S F token ledger_seq source e sw1)
        = (Ok prices, sw')" using Cons.prems x by simp
    from Cons.IH [OF this] show ?thesis by simp
  next
    case Panic
    then show ?thesis using Cons.prems x by simp
  qed
qed simp

text \<open>
  C9: From the sources to the cache. Let the prices that the sources of a token delivered in this
  run be small enough to be added up (their number times each is at most \<open>i128::MAX\<close>), the
  tolerance of the token at least one basis point, as the configuration demands, and its sources
  no more than \<open>2 ^ 50\<close>. Then a cached price that is built has the band
  \<open>0 \<le> min \<le> median \<le> max\<close> around a positive median, and carries the ledger of the cycle and
  the keeper's signature over exactly these fields.
\<close>

theorem built_price_band:
  assumes "binance_batch S w0 = (Ok tickers, w1)"
    and "build_cached_price S F ledger_seq \<lparr>ba_pyth = feeds, ba_pyth_failed = failed, ba_binance = tickers\<rparr> token sw
      = (Ok p, sw')"
    and "collect_sources S F token ledger_seq \<lparr>ba_pyth = feeds, ba_pyth_failed = failed, ba_binance = tickers\<rparr>
      (tc_sources token) sw = (Ok prices, sw1)"
    and "\<forall>(source, r) \<in> set prices. int (length prices) * po_price r \<le> i128_max"
    and "1 \<le> tc_max_deviation_bps token" and "length (tc_sources token) \<le> 2 ^ 50"
  shows "0 \<le> cp_min p \<and> cp_min p \<le> cp_median p \<and> cp_median p \<le> cp_max p \<and> 0 < cp_median p
    \<and> cp_ledger_seq p = ledger_seq \<and> price_signed S p"
proof -
  from assms(2,3) obtain a where a: "aggregate_collected token prices = Ok a"
    and p: "signed_cached_price S token ledger_seq a = Ok p"
    by (auto simp: build_cached_price_def bind_action_def return_action_def split: outcome.splits prod.splits)
  have "collected_ok token prices"
    by (rule collect_sources_ok [OF binance_batch_positive [OF assms(1)] subset_refl assms(3)])
  moreover have "length prices \<le> length (tc_sources token)" by (rule collect_sources_length [OF assms(3)])
  ultimately have "fits (length prices) (map (po_price \<circ> snd) prices)"
    using assms(4,6) by (fastforce simp: fits_def list_all_iff collected_ok_def positive_price_def)
  then have "0 \<le> ap_min a \<and> ap_min a \<le> ap_median a \<and> ap_median a \<le> ap_max a \<and> 0 < ap_median a"
    using aggregate_band [of "map (po_price \<circ> snd) prices" "tc_max_deviation_bps token" "map fst prices"] a assms(5)
    by (auto simp: aggregate_collected_def outcome_ops)
  then show ?thesis using signed_cached_price_fields [OF p] signed_cached_price_signed [OF p] by simp
qed

text \<open>A token with two sources: the batched ticker of an exchange, and a fixed price.\<close>

definition two_token :: token_config where
  "two_token = fixed_token\<lparr>tc_sources := [''binance'', ''fixed''], tc_binance_symbol := Some ''TUSDCUSD'',
     tc_min_sources := 2\<rparr>"

definition two_ticker :: string where
  "two_ticker = ''0.00000000000000000000000000101''"

definition two_system :: "script system" where
  "two_system = fixed_system\<lparr>sy_config := sample_config\<lparr>cf_tokens := [two_token]\<rparr>,
     sy_http_json := sample_json\<lparr>js_ticker := \<lambda>body. Ok (TickerSingle \<lparr>te_symbol = ''TUSDCUSD'', te_price = body\<rparr>)\<rparr>\<rparr>"

definition two_batch :: batch where
  "two_batch = \<lparr>ba_pyth = Map.empty, ba_pyth_failed = False, ba_binance = Some [''TUSDCUSD'' \<mapsto> 1010]\<rparr>"

lemma two_tickers:
  "binance_batch two_system ([reply two_ticker], 0, 0) = (Ok (Some [''TUSDCUSD'' \<mapsto> 1010]), ([], 1, 0))"
proof -
  have "parse_price_to_precision two_ticker = Ok 1010" unfolding two_ticker_def by code_simp
  then show ?thesis
    by (simp add: binance_batch_def binance_symbols_def two_system_def two_token_def map_filter_simps
        fetch_spot_prices_with_url_def http_get_def fixed_system_def sample_system_def script_env_def reply_def
        parse_ticker_http_result_def parse_ticker_http_response_def parse_ticker_response_body_def outcome_ops)
qed

lemma two_token_fields:
  "tc_sources two_token = [''binance'', ''fixed'']" "tc_binance_symbol two_token = Some ''TUSDCUSD''"
  "fixed_price two_token = Ok 1000" "tc_min_sources two_token = 2" "tc_max_deviation_bps two_token = 100"
  by (simp_all add: two_token_def fixed_token_fields) (simp add: fixed_token_def, code_simp)

abbreviation two_prices :: "(string \<times> price_with_observation_time) list" where
  "two_prices \<equiv> [(''binance'', observed_now 1700000000 1010), (''fixed'', observed_now 1700000000 1000)]"

lemma two_collect:
  "collect_sources two_system plain two_token l two_batch [''binance'', ''fixed''] sw = (Ok two_prices, sw)"
proof -
  have now: "current_timestamp_secs (sy_env two_system) w = (1700000000, w)" for w
    by (simp add: two_system_def fixed_system_def sample_system_def current_timestamp_secs_def script_env_def)
  have "fetch_source_price two_system plain two_token two_batch ''binance'' w = (Ok (observed_now 1700000000 1010), w)"
    and "fetch_source_price two_system plain two_token two_batch ''fixed'' w = (Ok (observed_now 1700000000 1000), w)" for w
    by (simp_all add: fetch_source_price_def now fetch_binance_def two_token_fields two_batch_def return_action_def)
  then have "fetch_source_with_retry two_system plain two_token two_batch ''binance'' w = (Ok (observed_now 1700000000 1010), w)"
    and "fetch_source_with_retry two_system plain two_token two_batch ''fixed'' w = (Ok (observed_now 1700000000 1000), w)" for w
    by (simp_all add: fetch_source_with_retry_def retry_with_backoff_def SOURCE_RETRY_ATTEMPTS_def numeral_3_eq_3)
  then show ?thesis by (cases sw) (simp add: lift_snd_simp)
qed

lemma two_steps:
  "find_largest_consistent_cluster [1010, 1000] [''binance'', ''fixed''] (cluster_tolerance_bps 100)
    = (Ok (Some \<lparr>cr_prices = [1000, 1010], cr_sources = [''fixed'', ''binance'']\<rparr>) :: (agg_error, _) outcome)"
  "filter_outliers [1000, 1010] [''fixed'', ''binance''] 100
    = (Ok \<lparr>ofr_prices = [1000, 1010], ofr_sources = [''fixed'', ''binance''], ofr_rejected = []\<rparr> :: (agg_error, _) outcome)"
  "compute_median_allow_single [1000, 1010] = (Ok (Some 1005) :: (agg_error, _) outcome)"
  by code_simp+

lemma two_interval:
  "\<exists>props. compute_confidence_interval_with_spread [1000, 1010] 100 = (Ok (Some props) :: (agg_error, _) outcome)"
proof -
  have "case compute_confidence_interval_with_spread [1000, 1010] 100 :: (agg_error, _) outcome of
      Ok (Some _) \<Rightarrow> True | _ \<Rightarrow> False" by code_simp
  then show ?thesis by (auto split: outcome.splits option.splits)
qed

lemma two_aggregate:
  "\<exists>a. aggregate_prices [1010, 1000] [''binance'', ''fixed''] [1700000000, 1700000000] 2 100 = Ok a"
proof -
  obtain props where "compute_confidence_interval_with_spread [1000, 1010] 100
      = (Ok (Some props) :: (agg_error, _) outcome)" using two_interval by blast
  then show ?thesis
    by (simp add: aggregate_prices_def finish_aggregate_def two_steps cluster_rejected_def observed_at_def min_time_def
        map_filter_simps outcome_ops)
qed

lemma two_build:
  "\<exists>p sw'. build_cached_price two_system plain 100 two_batch two_token sw = (Ok p, sw')"
proof -
  obtain a where "aggregate_prices [1010, 1000] [''binance'', ''fixed''] [1700000000, 1700000000] 2 100 = Ok a"
    using two_aggregate by blast
  then have a: "aggregate_collected two_token two_prices = Ok a"
    by (simp add: aggregate_collected_def two_token_fields observed_now_def)
  obtain p where p: "signed_cached_price two_system two_token 100 a = Ok p"
    by (simp add: signed_cached_price_def two_system_def fixed_system_def sample_system_def Let_def)
  have "build_cached_price two_system plain 100 two_batch two_token sw
      = (Ok p, record_rejections two_system two_token (ap_rejected_sources a) sw)"
    unfolding build_cached_price_def bind_action_def two_token_fields two_collect
    by (simp add: bind_action_def return_action_def a p)
  then show ?thesis by blast
qed

theorem built_price_band_witness:
  "\<exists>p sw'. build_cached_price two_system plain 100 two_batch two_token (app_state_new, ([], 0, 0)) = (Ok p, sw')
    \<and> 0 \<le> cp_min p \<and> cp_min p \<le> cp_median p \<and> cp_median p \<le> cp_max p \<and> 0 < cp_median p"
proof -
  obtain p sw' where b: "build_cached_price two_system plain 100 two_batch two_token (app_state_new, ([], 0, 0)) = (Ok p, sw')"
    using two_build by blast
  have c: "collect_sources two_system plain two_token 100 two_batch (tc_sources two_token) (app_state_new, ([], 0, 0))
      = (Ok two_prices, (app_state_new, ([], 0, 0)))"
    unfolding two_token_fields(1) by (rule two_collect)
  have "\<forall>(source, r) \<in> set two_prices. int (length two_prices) * po_price r \<le> i128_max"
    by (simp add: observed_now_def i128_max_def)
  from built_price_band [OF two_tickers b [unfolded two_batch_def] c [unfolded two_batch_def] this]
  have "0 \<le> cp_min p \<and> cp_min p \<le> cp_median p \<and> cp_median p \<le> cp_max p \<and> 0 < cp_median p"
    by (simp add: two_token_fields)
  then show ?thesis using b by blast
qed

lemma fixed_no_batch: "binance_batch fixed_system w = (Ok None, w)"
  by (simp add: binance_batch_def binance_symbols_def fixed_system_def fixed_token_def token_config_default_def
      map_filter_simps)

section \<open>A whole cycle of the sample\<close>

definition fixed_world :: script where
  "fixed_world = ([reply ''l''], 0, 0)"

definition fixed_after :: "app_state \<Rightarrow> app_state" where
  "fixed_after s = s\<lparr>st_price_cache := \<lparr>pc_prices = [(lookup_key fixed_token, fixed_cached)],
     pc_last_updated = Some 1700000000000, pc_last_submitted_medians = None, pc_last_full_submission = None\<rparr>\<rparr>"

lemma fixed_ledger: "fetch_ledger fixed_system fixed_world = (Ok 100, ([], 1, 0))"
  by (simp add: fetch_ledger_def fixed_system_def sample_system_def fixed_world_def retry_with_backoff_def
      LEDGER_SEQUENCE_RETRY_ATTEMPTS_def numeral_eq_Suc get_latest_ledger_sequence_def sample_codec_def
      bind_action_def return_action_def parse_latest_ledger_response_def rpc_result_def outcome_ops)

lemma fixed_cycle:
  assumes "st_price_cache s = st_price_cache app_state_new"
  shows "execute_price_cycle fixed_system plain (s, fixed_world) = (Ok (1, 0, 0), (fixed_after s, ([], 1, 0)))"
proof -
  have tokens: "cf_tokens (sy_config fixed_system) = [fixed_token]" by (simp add: fixed_system_def)
  have feeds: "pyth_feed_ids [fixed_token] = []"
    by (simp add: pyth_feed_ids_def fixed_token_fields map_filter_simps)
  have env: "sy_env fixed_system = script_env" by (simp add: fixed_system_def sample_system_def)
  have time: "current_timestamp_secs script_env w = (1700000000, w)" for w
    by (simp add: current_timestamp_secs_def script_env_def)
  have clock: "env_system script_env w = (1700000000000, w)" for w by (simp add: script_env_def)
  have empty: "st_price_cache s = \<lparr>pc_prices = [], pc_last_updated = None,
      pc_last_submitted_medians = None, pc_last_full_submission = None\<rparr>" using assms by (simp add: app_state_new_def)
  show ?thesis
    by (simp add: execute_price_cycle_def env time tokens fixed_ledger feeds fetch_pyth_prices_def bind_action_def
        return_action_def pyth_batch_def price_tokens_def lift_snd_simp fixed_no_batch fixed_build empty
        stale_cached_def update_cache_def clock fixed_after_def bt_insert_all_def)
qed

definition fixed_finished :: "app_state \<times> script" where
  "fixed_finished = finish_cycle fixed_system 0 (1, 0, 0) (fixed_after (start_price_cycle app_state_new), ([], 1, 0))"

lemma fixed_run: "run_price_cycle fixed_system plain (app_state_new, fixed_world) = (Ok (), fixed_finished)"
proof -
  have i: "env_instant (sy_env fixed_system) w = (0, w)" for w
    by (simp add: fixed_system_def sample_system_def script_env_def)
  have "st_price_cache (start_price_cycle app_state_new) = st_price_cache app_state_new" by (simp add: start_price_cycle_def)
  from fixed_cycle [OF this] show ?thesis by (simp add: run_price_cycle_def i bind_action_def fixed_finished_def)
qed

lemma fixed_reachable: "reachable fixed_system plain fixed_finished"
  by (rule reachable.step [OF reachable.start]) (rule service_step.prices [OF fixed_run], simp)

lemma fixed_finished_prices: "pc_prices (st_price_cache (fst fixed_finished)) = [(lookup_key fixed_token, fixed_cached)]"
  by (simp add: fixed_finished_def finish_cycle_def fixed_after_def on_metrics_def split: prod.splits)

section \<open>What a cycle reports\<close>

lemma keys_bt_insert_all: "fst ` set m \<subseteq> fst ` set (bt_insert_all xs m)"
  unfolding bt_insert_all_def
proof (induction xs arbitrary: m)
  case (Cons x xs)
  obtain k v where "x = (k, v)" by (cases x)
  then show ?case using Cons [of "bt_insert k v m"] fst_bt_insert [of k v m] by auto
qed simp

text \<open>
  As long as a cycle prices any token at all, no cached price is ever evicted: a price that
  went stale because its own sources fail stays in the cache next to the fresh ones.
\<close>

theorem price_cycle_never_evicts:
  assumes "execute_price_cycle S F (s, w) = (Ok (oks, failed, stale), (s', w'))" and "0 < oks"
  shows "fst ` set (pc_prices (st_price_cache s)) \<subseteq> fst ` set (pc_prices (st_price_cache s'))"
  using assms(1)
proof (rule execute_price_cycle_cases)
  fix now ledger_seq tickers feeds b w1 w2 results sw1 new_prices counts sw2
  assume t: "binance_batch S w1 = (Ok tickers, w2)"
    and b: "build_all S F ledger_seq \<lparr>ba_pyth = feeds, ba_pyth_failed = b, ba_binance = tickers\<rparr>
             (cf_tokens (sy_config S)) (s, w2) = (Ok results, sw1)"
    and st: "settle_results S ledger_seq results
             ([], 0, 0, stale_cached (cf_tokens (sy_config S)) now (pc_prices (st_price_cache s))) sw1
           = ((new_prices, counts), sw2)"
    and x: "Ok (oks, failed, stale) = Ok counts" and s': "(s', w') = update_cache S new_prices sw2"
  have r: "\<forall>(token, r) \<in> set results. r \<noteq> Panic"
    using build_all_results [OF binance_batch_positive [OF t] b subset_refl] by auto
  have "new_prices \<noteq> []" using settle_counts [OF _ r] st x assms(2) by fastforce
  moreover have c: "st_price_cache (fst sw2) = st_price_cache s"
  proof -
    have "st_price_cache (fst (snd (build_all S F ledger_seq batch tokens (s, w2)))) = st_price_cache s" for batch tokens
      by (rule loggable_build_all [OF loggable_cache]) simp
    then have "st_price_cache (fst sw1) = st_price_cache s" using b by (metis snd_conv)
    then have "st_price_cache (fst (snd (settle_results S ledger_seq results acc sw1))) = st_price_cache s" for acc
      by (rule loggable_settle [OF loggable_cache])
    then show ?thesis using st by (metis snd_conv)
  qed
  ultimately have "pc_prices (st_price_cache s') = bt_insert_all new_prices (pc_prices (st_price_cache s))"
    using s' by (cases sw2) (auto simp: update_cache_def split: prod.splits)
  then show ?thesis by (simp only: keys_bt_insert_all)
qed (use assms(2) in auto)

theorem price_cycle_never_evicts_witness:
  "fst ` set (pc_prices (st_price_cache app_state_new))
    \<subseteq> fst ` set (pc_prices (st_price_cache (fixed_after app_state_new)))"
  by (rule price_cycle_never_evicts [OF fixed_cycle [OF refl]]) simp

text \<open>
  C18: What a price cycle reports, by what became of its read of the latest ledger. When that read
  failed, the cycle reports one failure, whatever the number of tokens, and leaves the cache as it
  was. Otherwise the counts of priced and failed tokens add up to the configured tokens, the
  cache is cleared when none was priced, and when one was no cached price is lost.
\<close>

theorem price_cycle_accounts_for_tokens:
  assumes "execute_price_cycle S F (s, w) = (Ok (oks, failed, stale), (s', w'))"
  shows "case fst (fetch_ledger S (snd (current_timestamp_secs (sy_env S) w))) of
      Err e \<Rightarrow> (oks, failed, stale) = (0, 1, 0) \<and> st_price_cache s' = st_price_cache s
    | Ok ledger_seq \<Rightarrow> oks + failed = length (cf_tokens (sy_config S)) \<and>
        (if oks = 0 then pc_prices (st_price_cache s') = [] \<and> pc_last_updated (st_price_cache s') = None
         else fst ` set (pc_prices (st_price_cache s)) \<subseteq> fst ` set (pc_prices (st_price_cache s')))
    | Panic \<Rightarrow> False"
  using assms
proof (rule execute_price_cycle_cases)
  show "Ok (oks, failed, stale) \<noteq> Panic" by simp
next
  fix message w2
  assume "Ok (oks, failed, stale) = Ok (0, 1, 0)"
    and "(s', w') = record_cycle_error S ''get_latest_ledger'' message (s, w2)"
    and "\<exists>e. fst (fetch_ledger S (snd (current_timestamp_secs (sy_env S) w))) = Err e"
  moreover have "st_price_cache (fst (record_cycle_error S op e (s, w2))) = st_price_cache s" for op e
    unfolding record_cycle_error_def by (rule loggable_error [OF loggable_cache]) simp
  ultimately show ?thesis by (auto dest: arg_cong [where f = fst])
next
  fix now ledger_seq tickers feeds b w1 w2 results sw1 new_prices counts sw2
  assume t: "binance_batch S w1 = (Ok tickers, w2)"
    and b: "build_all S F ledger_seq \<lparr>ba_pyth = feeds, ba_pyth_failed = b, ba_binance = tickers\<rparr>
             (cf_tokens (sy_config S)) (s, w2) = (Ok results, sw1)"
    and st: "settle_results S ledger_seq results
             ([], 0, 0, stale_cached (cf_tokens (sy_config S)) now (pc_prices (st_price_cache s))) sw1
           = ((new_prices, counts), sw2)"
    and x: "Ok (oks, failed, stale) = Ok counts" and s': "(s', w') = update_cache S new_prices sw2"
    and l: "fst (fetch_ledger S (snd (current_timestamp_secs (sy_env S) w))) = Ok ledger_seq"
  have r: "\<forall>(token, r) \<in> set results. r \<noteq> Panic" and len: "length results = length (cf_tokens (sy_config S))"
    using build_all_results [OF binance_batch_positive [OF t] b subset_refl]
    by (auto dest: arg_cong [where f = length])
  have c: "(oks, failed, stale) = counts" using x by simp
  have "oks + failed = length (cf_tokens (sy_config S))" and empty: "new_prices = [] \<longleftrightarrow> oks = 0"
    using settle_counts [OF st [folded c] r] len by simp_all
  moreover have "pc_prices (st_price_cache s') = [] \<and> pc_last_updated (st_price_cache s') = None" if "oks = 0"
    using s' empty that by (cases sw2) (simp add: update_cache_def)
  moreover note kept = price_cycle_never_evicts [OF assms]
  ultimately show ?thesis using l by simp
qed

theorem price_cycle_accounts_for_tokens_witness:
  "case fst (fetch_ledger fixed_system (snd (current_timestamp_secs (sy_env fixed_system) fixed_world))) of
      Err e \<Rightarrow> False
    | Ok ledger_seq \<Rightarrow> 1 + 0 = length (cf_tokens (sy_config fixed_system))
    | Panic \<Rightarrow> False"
  using price_cycle_accounts_for_tokens [OF fixed_cycle [OF refl]] by (simp split: outcome.splits)

section \<open>What is published\<close>

lemma fixed_published:
  "bt_get (fresh_prices (cf_tokens (sy_config fixed_system)) 1700000010
      (pc_prices (st_price_cache (fst fixed_finished)))) (lookup_key fixed_token) = Some fixed_cached"
proof -
  have t: "cp_timestamp fixed_cached = 1700000000"
    using signed_cached_price_fields(5) [OF fixed_signed] fixed_aggregate(3) by simp
  show ?thesis
    unfolding fixed_finished_prices
    by (simp add: fresh_prices_def fixed_system_def is_stale_def t fixed_token_fields bt_collect_def bt_insert_all_def
        bt_get_def)
qed

lemma fresh_entry:
  assumes e: "entries_valid S m" and "distinct (map lookup_key (cf_tokens (sy_config S)))"
    and "bt_get (fresh_prices (cf_tokens (sy_config S)) now m) k = Some p"
  shows "price_signed S p \<and> (\<exists>token \<in> set (cf_tokens (sy_config S)). lookup_key token = k \<and> aggregated_for token p
    \<and> cp_timestamp p \<le> now \<and> now - cp_timestamp p < tc_stale_after_seconds token)"
proof -
  have "bt_get m k = Some p" and P: "case find (\<lambda>t. lookup_key t = k) (cf_tokens (sy_config S)) of
      None \<Rightarrow> False | Some t \<Rightarrow> \<not> is_stale p (tc_stale_after_seconds t) now"
    using assms(3) e unfolding fresh_prices_def by (auto simp: bt_get_filter entries_valid_def)
  then have valid: "price_valid S k p" using entries_valid_get [OF e] by blast
  then obtain made where made: "made \<in> set (cf_tokens (sy_config S))" "lookup_key made = k" "aggregated_for made p"
    by (auto simp: price_valid_def price_aggregated_def)
  obtain token where t: "find (\<lambda>t. lookup_key t = k) (cf_tokens (sy_config S)) = Some token"
    and fresh: "\<not> is_stale p (tc_stale_after_seconds token) now" using P by (auto split: option.splits)
  have "token \<in> set (cf_tokens (sy_config S))" "lookup_key token = k" using t by (auto simp: find_Some_iff)
  then have "token = made" using made assms(2) by (auto simp: distinct_map dest: inj_onD)
  then show ?thesis using valid made fresh by (auto simp: price_valid_def is_stale_def not_le split: if_splits)
qed

text \<open>
  In every reachable state, each price a submission would publish is that of the configured
  token it is kept for, observed within the freshness window of that token, aggregated from
  positive prices of its sources and signed with the key of this keeper over the published fields.
\<close>

theorem published_price_fresh_and_signed:
  assumes "reachable S F (s, w)" and "distinct (map lookup_key (cf_tokens (sy_config S)))"
    and "bt_get (fresh_prices (cf_tokens (sy_config S)) now (pc_prices (st_price_cache s))) k = Some p"
  shows "price_signed S p \<and> (\<exists>token \<in> set (cf_tokens (sy_config S)). lookup_key token = k \<and> aggregated_for token p
    \<and> cp_timestamp p \<le> now \<and> now - cp_timestamp p < tc_stale_after_seconds token)"
  using reachable_inv [OF assms(1)]
  by (intro fresh_entry [OF _ assms(2,3)]) (simp add: system_inv_def cache_valid_def)

theorem published_price_fresh_and_signed_witness:
  "price_signed fixed_system fixed_cached \<and> (\<exists>token \<in> set (cf_tokens (sy_config fixed_system)).
    lookup_key token = lookup_key fixed_token \<and> aggregated_for token fixed_cached
    \<and> cp_timestamp fixed_cached \<le> 1700000010
    \<and> 1700000010 - cp_timestamp fixed_cached < tc_stale_after_seconds token)"
proof (rule published_price_fresh_and_signed)
  show "reachable fixed_system plain (fst fixed_finished, snd fixed_finished)" using fixed_reachable by simp
  show "distinct (map lookup_key (cf_tokens (sy_config fixed_system)))" by (simp add: fixed_system_def)
  show "bt_get (fresh_prices (cf_tokens (sy_config fixed_system)) 1700000010
      (pc_prices (st_price_cache (fst fixed_finished)))) (lookup_key fixed_token) = Some fixed_cached"
    by (rule fixed_published)
qed

end
