(* ===== verification/Oracle_Api_Props.thy ===== *)
theory Oracle_Api_Props
  imports Oracle_Reachable
begin

text \<open>
  Properties of the admin guard, the readiness probe and the metrics.
\<close>

section \<open>The admin guard\<close>

lemma strip_prefix_Some: "strip_prefix h p = Some t \<longleftrightarrow> h = p @ t"
  by (auto simp: strip_prefix_def prefix_def)

lemma bearer_matches_iff: "bearer_matches token rq \<longleftrightarrow> ar_authorization rq = Some (''Bearer '' @ token)"
proof (cases "ar_authorization rq")
  case (Some h)
  have "bearer_matches token rq \<longleftrightarrow> strip_prefix h ''Bearer '' = Some token"
    by (simp add: bearer_matches_def Some constant_time_eq_iff split: option.splits)
  then show ?thesis unfolding strip_prefix_Some Some by simp
qed (simp add: bearer_matches_def)

text \<open>
  A login is accepted exactly when the client is not blocked and its header is the configured
  token after \<open>Bearer\<close>: the byte-wise comparison accepts nothing else.
\<close>

theorem admin_auth_accepts_only_token:
  assumes "cf_admin_api_token (sy_config S) = Some token"
  shows "fst (admin_auth S rq (s, w)) = Ok () \<longleftrightarrow>
    ar_authorization rq = Some (''Bearer '' @ token)
    \<and> \<not> limiter_blocked (st_limiter s) (or_unknown (ar_client rq)) (fst (env_instant (sy_env S) w))"
  by (cases "env_instant (sy_env S) w") (auto simp: admin_auth_def assms bearer_matches_iff Let_def)

theorem admin_auth_accepts_only_token_witness:
  "fst (admin_auth admin_system anonymous (app_state_new, ([], 0, 0))) = Ok () \<longleftrightarrow>
    ar_authorization anonymous = Some (''Bearer '' @ ''t'')
    \<and> \<not> limiter_blocked (st_limiter app_state_new) (or_unknown (ar_client anonymous))
          (fst (env_instant (sy_env admin_system) ([], 0, 0)))"
  by (rule admin_auth_accepts_only_token) (simp add: admin_system_def)

text \<open>
  A series of logins through the guard, of any clients and with any headers, each in the world of
  its moment: whatever else happens between them happens to that world.
\<close>

fun logins :: "'w system \<Rightarrow> (auth_request \<times> 'w) list \<Rightarrow> app_state \<Rightarrow> app_state" where
  "logins S [] s = s"
| "logins S ((rq, w) # rest) s = logins S rest (fst (snd (admin_auth S rq (s, w))))"

definition logins_of :: "string \<Rightarrow> (auth_request \<times> 'w) list \<Rightarrow> nat" where
  "logins_of client attempts = length (filter (\<lambda>(rq, _). or_unknown (ar_client rq) = client) attempts)"

lemma map_of_filter_kept: "map_of m c = Some v \<Longrightarrow> P (c, v) \<Longrightarrow> map_of (filter P m) c = Some v"
  by (induction m) (auto split: if_splits)

lemma failure_counts:
  assumes "map_of m client = Some (n, start)" and "now - start < ADMIN_AUTH_WINDOW"
  shows "map_of (limiter_record_failure c now m) client = Some (if c = client then n + 1 else n, start)"
  using assms map_of_filter_kept [of m client "(n, start)" "\<lambda>(_, _, s). now - s < ADMIN_AUTH_WINDOW"]
  by (auto simp: limiter_record_failure_def Let_def limiter_set_get)

lemma first_failure:
  assumes "\<forall>(c, n, t) \<in> set m. c = client \<longrightarrow> ADMIN_AUTH_WINDOW \<le> start - t"
  shows "map_of (limiter_record_failure client start m) client = Some (1, start)"
proof -
  let ?m = "if MAX_TRACKED_ADMIN_CLIENTS \<le> length m then filter (\<lambda>(_, _, t). start - t < ADMIN_AUTH_WINDOW) m else m"
  have "ADMIN_AUTH_WINDOW \<le> start - t" if "map_of ?m client = Some (n, t)" for n t
    using assms map_of_SomeD [OF that] by (auto split: if_splits)
  then show ?thesis
    unfolding limiter_record_failure_def Let_def limiter_set_get
    by (cases "map_of ?m client") (auto simp: ADMIN_AUTH_WINDOW_def)
qed

text \<open>While its window lasts, a login counts for its own client only, and only when it is wrong.\<close>

lemma login_counts:
  assumes "cf_admin_api_token (sy_config S) = Some token" and "map_of (st_limiter s) client = Some (n, start)"
    and "fst (env_instant (sy_env S) w) - start < ADMIN_AUTH_WINDOW"
    and "or_unknown (ar_client rq) = client \<Longrightarrow> ar_authorization rq \<noteq> Some (''Bearer '' @ token)"
  shows "\<exists>n'. map_of (st_limiter (fst (snd (admin_auth S rq (s, w))))) client = Some (n', start)
    \<and> min 5 (if or_unknown (ar_client rq) = client then n + 1 else n) \<le> n'"
proof -
  obtain now w1 where i: "env_instant (sy_env S) w = (now, w1)" by (rule prod.exhaust)
  let ?c = "or_unknown (ar_client rq)"
  have failure: "map_of (limiter_record_failure ?c now (st_limiter s)) client = Some (if ?c = client then n + 1 else n, start)"
    by (rule failure_counts [OF assms(2)]) (use assms(3) i in simp)
  have success: "?c \<noteq> client \<Longrightarrow> map_of (limiter_record_success ?c (st_limiter s)) client = Some (n, start)"
    using map_of_filter_kept [OF assms(2), of "\<lambda>(c, _). c \<noteq> ?c"] by (simp add: limiter_record_success_def)
  have blocked: "?c = client \<Longrightarrow> limiter_blocked (st_limiter s) ?c now \<Longrightarrow> 5 \<le> n"
    using assms(2) by (simp add: limiter_blocked_def MAX_ADMIN_AUTH_FAILURES_def)
  show ?thesis
    using assms(1,2,4) failure success blocked by (auto simp: admin_auth_def i Let_def bearer_matches_iff)
qed

lemma logins_count:
  assumes token: "cf_admin_api_token (sy_config S) = Some token"
  shows "map_of (st_limiter s) client = Some (n, start)
    \<Longrightarrow> \<forall>(rq, w) \<in> set attempts. fst (env_instant (sy_env S) w) - start < ADMIN_AUTH_WINDOW
      \<and> (or_unknown (ar_client rq) = client \<longrightarrow> ar_authorization rq \<noteq> Some (''Bearer '' @ token))
    \<Longrightarrow> \<exists>n'. map_of (st_limiter (logins S attempts s)) client = Some (n', start)
      \<and> min 5 (n + logins_of client attempts) \<le> n'"
proof (induction attempts arbitrary: s n)
  case (Cons a attempts)
  obtain rq w where a: "a = (rq, w)" by (cases a)
  obtain n1 where n1: "map_of (st_limiter (fst (snd (admin_auth S rq (s, w))))) client = Some (n1, start)"
    "min 5 (if or_unknown (ar_client rq) = client then n + 1 else n) \<le> n1"
    using login_counts [OF token Cons.prems(1), of w rq] Cons.prems(2) a by auto
  obtain n2 where n2: "map_of (st_limiter (logins S attempts (fst (snd (admin_auth S rq (s, w)))))) client = Some (n2, start)"
    "min 5 (n1 + logins_of client attempts) \<le> n2"
    using Cons.IH [OF n1(1)] Cons.prems(2) by auto
  have "logins_of client (a # attempts) = (if or_unknown (ar_client rq) = client then 1 else 0) + logins_of client attempts"
    by (simp add: logins_of_def a)
  then have "min 5 (n + logins_of client (a # attempts)) \<le> n2" using n1(2) n2(2) by (auto split: if_splits)
  then show ?case using n2(1) a by simp
qed (simp add: logins_of_def)

text \<open>
  C32: Five wrong logins block a client. Run any series of logins through the guard, that starts
  with a wrong one of the client, with no earlier entry of it whose minute is not over. If all of
  them fall within the minute of that first one, at least five are of the client and none of
  these has the token, then for the rest of that minute the guard answers the client with 429, even
  with the right token; whatever the other clients do in between, failing or not, and however full
  the table of clients is. The minute is fixed by the first failure and does not move.
\<close>

theorem five_bad_logins_block:
  assumes "cf_admin_api_token (sy_config S) = Some token"
    and "client = or_unknown (ar_client first)" and "ar_authorization first \<noteq> Some (''Bearer '' @ token)"
    and "start = fst (env_instant (sy_env S) w0)"
    and "\<forall>(c, n, t) \<in> set (st_limiter s). c = client \<longrightarrow> ADMIN_AUTH_WINDOW \<le> start - t"
    and "\<forall>(rq, w) \<in> set later. fst (env_instant (sy_env S) w) - start < ADMIN_AUTH_WINDOW
      \<and> (or_unknown (ar_client rq) = client \<longrightarrow> ar_authorization rq \<noteq> Some (''Bearer '' @ token))"
    and "5 \<le> logins_of client ((first, w0) # later)"
    and "or_unknown (ar_client rq) = client" and "fst (env_instant (sy_env S) w) - start < ADMIN_AUTH_WINDOW"
  shows "fst (admin_auth S rq (logins S ((first, w0) # later) s, w))
    = Err (api_error_new TOO_MANY_REQUESTS ''too many failed admin auth attempts; try again later'')"
proof -
  let ?s1 = "fst (snd (admin_auth S first (s, w0)))"
  have "\<not> limiter_blocked (st_limiter s) client start"
    using assms(5) by (auto simp: limiter_blocked_def split: option.splits dest!: map_of_SomeD)
  then have "st_limiter ?s1 = limiter_record_failure client start (st_limiter s)"
    using assms(1-4) by (cases "env_instant (sy_env S) w0") (simp add: admin_auth_def Let_def bearer_matches_iff)
  then have s1: "map_of (st_limiter ?s1) client = Some (1, start)" using first_failure [OF assms(5)] by simp
  have "1 + logins_of client later = logins_of client ((first, w0) # later)"
    using assms(2) by (simp add: logins_of_def)
  then obtain n where n: "map_of (st_limiter (logins S ((first, w0) # later) s)) client = Some (n, start)" "5 \<le> n"
    using logins_count [OF assms(1) s1 assms(6)] assms(7) by auto
  have "limiter_blocked (st_limiter (logins S ((first, w0) # later) s)) client (fst (env_instant (sy_env S) w))"
    using n assms(9) by (simp add: limiter_blocked_def MAX_ADMIN_AUTH_FAILURES_def)
  then show ?thesis using assms(8)
    by (cases "env_instant (sy_env S) w") (simp add: admin_auth_def assms(1) Let_def)
qed

text \<open>Five anonymous logins, with a correct one of another client in between.\<close>

theorem five_bad_logins_block_witness:
  "fst (admin_auth admin_system (anonymous\<lparr>ar_authorization := Some ''Bearer t''\<rparr>)
      (logins admin_system [(anonymous, ([], 0, 0)), (anonymous, ([], 1, 0)),
         (anonymous\<lparr>ar_client := Some ''x'', ar_authorization := Some ''Bearer t''\<rparr>, ([], 2, 0)),
         (anonymous, ([], 3, 0)), (anonymous, ([], 4, 0)), (anonymous, ([], 5, 0))] app_state_new, ([], 6, 0)))
    = Err (api_error_new TOO_MANY_REQUESTS ''too many failed admin auth attempts; try again later'')"
  by (rule five_bad_logins_block [where token = "''t''" and start = 0 and client = "''unknown''"])
    (simp_all add: admin_system_def sample_system_def script_env_def anonymous_def or_unknown_def app_state_new_def
      logins_of_def ADMIN_AUTH_WINDOW_def)

section \<open>Readiness\<close>

lemma external_ready_Ok:
  assumes "external_ready S (s, w) = (Ok (), (s', w'))"
  shows "rc_last_checked (st_ready_cache s') \<noteq> None \<and> rc_last_error (st_ready_cache s') = None"
  using assms
  by (auto simp: external_ready_def cached_ready_def split: prod.splits option.splits outcome.splits if_splits)

text \<open>
  C33: A service that reports ready has prices, both of its loops finished a cycle within three of
  their intervals, by the two reads of the clock this very request makes, one after the other,
  and its last check of the node and of the keeper's balance succeeded.
\<close>

theorem ready_means_running:
  assumes "ready S (s, w) = (Ok (), (s', w'))"
  shows "pc_prices (st_price_cache s) \<noteq> []
    \<and> (\<exists>t. cy_last_price_cycle_at (st_cycle_status s) = Some t
         \<and> fst (env_system (sy_env S) w) - t \<le> cf_price_loop_interval_ms (sy_config S) * 3)
    \<and> (\<exists>t. cy_last_keeper_cycle_at (st_cycle_status s) = Some t
         \<and> fst (env_system (sy_env S) (snd (env_system (sy_env S) w))) - t \<le> cf_keeper_loop_interval_ms (sy_config S) * 3)
    \<and> rc_last_checked (st_ready_cache s') \<noteq> None \<and> rc_last_error (st_ready_cache s') = None"
proof -
  let ?st = "st_cycle_status s" and ?cf = "sy_config S"
  obtain r1 w1 where c1: "check_loop S (cy_last_price_cycle_at ?st) (cf_price_loop_interval_ms ?cf) ''price_loop_stale'' w
      = (r1, w1)" by (metis prod.exhaust)
  obtain r2 w2 where c2: "check_loop S (cy_last_keeper_cycle_at ?st) (cf_keeper_loop_interval_ms ?cf) ''keeper_loop_stale''
      w1 = (r2, w2)" by (metis prod.exhaust)
  from assms have prices: "pc_prices (st_price_cache s) \<noteq> []" by (auto simp: ready_def)
  then have run: "r1 = Ok ()" "r2 = Ok ()" "external_ready S (s, w2) = (Ok (), (s', w'))"
    using assms c1 c2 by (auto simp: ready_def bind_action_def lift_snd_simp split: outcome.splits)
  have loops: "(\<exists>t. finished = Some t \<and> fst (env_system (sy_env S) u) - t \<le> interval * 3) \<and> u' = snd (env_system (sy_env S) u)"
    if "check_loop S finished interval msg u = (Ok (), u')" for finished interval msg u u'
    using that by (auto simp: check_loop_def loop_stale_def split: prod.splits option.splits if_splits)
  show ?thesis using prices loops [OF c1 [unfolded run]] loops [OF c2 [unfolded run]] external_ready_Ok [OF run(3)]
    by blast
qed

definition ready_state :: app_state where
  "ready_state = app_state_new\<lparr>st_price_cache := (st_price_cache app_state_new)\<lparr>pc_prices := [(''xlm'', sample_price)]\<rparr>,
     st_cycle_status := (st_cycle_status app_state_new)\<lparr>cy_last_price_cycle_at := Some 1699999998000,
       cy_last_keeper_cycle_at := Some 1699999997500\<rparr>,
     st_ready_cache := \<lparr>rc_last_checked = Some 0, rc_last_error = None\<rparr>\<rparr>"

lemma ready_sample: "ready sample_system (ready_state, ([], 0, 0)) = (Ok (), (ready_state, ([], 0, 0)))"
  by (simp add: ready_def ready_state_def bind_action_def lift_snd_simp check_loop_def loop_stale_def external_ready_def
      cached_ready_def READY_CACHE_TTL_def sample_system_def script_env_def sample_config_def)

theorem ready_means_running_witness:
  "pc_prices (st_price_cache ready_state) \<noteq> []
    \<and> (\<exists>t. cy_last_price_cycle_at (st_cycle_status ready_state) = Some t
         \<and> fst (env_system (sy_env sample_system) ([], 0, 0)) - t \<le> cf_price_loop_interval_ms (sy_config sample_system) * 3)
    \<and> (\<exists>t. cy_last_keeper_cycle_at (st_cycle_status ready_state) = Some t
         \<and> fst (env_system (sy_env sample_system) (snd (env_system (sy_env sample_system) ([], 0, 0)))) - t \<le> cf_keeper_loop_interval_ms (sy_config sample_system) * 3)
    \<and> rc_last_checked (st_ready_cache ready_state) \<noteq> None \<and> rc_last_error (st_ready_cache ready_state) = None"
  by (rule ready_means_running [OF ready_sample])

text \<open>
  Within three seconds of an external check its verdict is served from the cache: asking
  again gives the same answer, sends nothing and leaves the state alone.
\<close>

theorem ready_verdict_cached:
  assumes "external_ready S (s, w) = (r, (s1, w1))" and "r \<noteq> Panic"
    and "rc_last_checked (st_ready_cache s1) = Some t"
    and "fst (env_instant (sy_env S) w1) - t < READY_CACHE_TTL"
  shows "external_ready S (s1, w1) = (r, (s1, snd (env_instant (sy_env S) w1)))"
proof -
  have "(case rc_last_error (st_ready_cache s1) of Some (status, msg) \<Rightarrow> Err (api_error_new status msg) | None \<Rightarrow> Ok ()) = r"
  proof (cases "cached_ready (st_ready_cache s)
      (fst (case rc_last_checked (st_ready_cache s) of None \<Rightarrow> (0, w) | Some _ \<Rightarrow> env_instant (sy_env S) w))")
    case (Some r')
    then have "r = r' \<and> s1 = s" using assms(1) by (auto simp: external_ready_def split: prod.splits)
    then show ?thesis using Some by (auto simp: cached_ready_def split: option.splits if_splits)
  next
    case None
    then have "rc_last_error (st_ready_cache s1) = ready_error r"
      using assms(1,2) by (auto simp: external_ready_def split: prod.splits outcome.splits)
    then show ?thesis using assms(2) by (cases r) (simp_all add: api_error_new_def)
  qed
  then show ?thesis using assms(3,4)
    by (cases "env_instant (sy_env S) w1") (auto simp: external_ready_def cached_ready_def)
qed

theorem ready_verdict_cached_witness:
  "external_ready sample_system (ready_state, ([], 0, 0)) = (Ok (), (ready_state, ([], 0, 0)))"
proof -
  have i: "env_instant (sy_env sample_system) w = (0, w)" for w by (simp add: sample_system_def script_env_def)
  have c: "rc_last_checked (st_ready_cache ready_state) = Some 0" by (simp add: ready_state_def)
  have "external_ready sample_system (ready_state, ([], 0, 0)) = (Ok (), (ready_state, ([], 0, 0)))"
    by (simp add: external_ready_def cached_ready_def i c) (simp add: ready_state_def READY_CACHE_TTL_def)
  from ready_verdict_cached [OF this _ c] show ?thesis by (simp add: i READY_CACHE_TTL_def)
qed

section \<open>Metrics\<close>

text \<open>How a Prometheus scraper reads a label value up to its closing quote.\<close>

fun read_label :: "string \<Rightarrow> (string \<times> string) option" where
  "read_label [] = None"
| "read_label (c # cs) =
     (if c = char_of (34 :: nat) then Some ([], cs)
      else if c = char_of (10 :: nat) then None
      else if c = backslash
      then (case cs of
              [] \<Rightarrow> None
            | d # ds \<Rightarrow> map_option (\<lambda>(v, rest). ((if d = CHR ''n'' then char_of (10 :: nat) else d) # v, rest)) (read_label ds))
      else map_option (\<lambda>(v, rest). (c # v, rest)) (read_label cs))"

lemma escape_Cons: "escape_label_value (c # cs) = escape_label_value [c] @ escape_label_value cs"
  by (simp add: escape_label_value_def replace_char_def)

lemma escape_Nil: "escape_label_value [] = []"
  by (simp add: escape_label_value_def replace_char_def)

lemma label_chars:
  "CHR ''n'' \<noteq> char_of (34 :: nat)" "CHR ''n'' \<noteq> char_of (10 :: nat)" "CHR ''n'' \<noteq> backslash"
  "char_of (34 :: nat) \<noteq> (char_of (10 :: nat) :: char)" "backslash \<noteq> char_of (34 :: nat)" "backslash \<noteq> char_of (10 :: nat)"
  by code_simp+

lemma escape_char:
  "escape_label_value [c] =
     (if c = char_of (34 :: nat) then [backslash, c] else if c = char_of (10 :: nat) then [backslash, CHR ''n'']
      else if c = backslash then [backslash, backslash] else [c])"
  using label_chars by (auto simp: escape_label_value_def replace_char_def quote_def)

text \<open>
  Whatever a label value contains, quotes, backslashes and newlines included, a scraper reads
  exactly that value back and stops at the closing quote: a value cannot break out of its label.
\<close>

theorem label_roundtrip: "read_label (escape_label_value v @ quote @ rest) = Some (v, rest)"
proof (induction v)
  case Nil
  then show ?case by (simp add: escape_Nil quote_def)
next
  case (Cons c cs)
  show ?case unfolding escape_Cons [of c cs] append_assoc
    using Cons label_chars label_chars [THEN not_sym] by (auto simp: escape_char)
qed

section \<open>The latency histogram\<close>

type_synonym http_request = "string \<times> string \<times> u16 \<times> u64"

definition record_requests :: "http_request list \<Rightarrow> metrics \<Rightarrow> metrics" where
  "record_requests = fold (\<lambda>(route, meth, status, ms). record_http_request route meth status ms)"

definition latency_secs :: "u64 \<Rightarrow> f64" where
  "latency_secs ms = f64_div (f64_of_int (int ms)) (Fin 1000)"

text \<open>The buckets of a route by counting its requests: those within each bound, then all of them.\<close>

definition bucket_tests :: "(f64 \<Rightarrow> bool) list" where
  "bucket_tests = map (\<lambda>bound x. f64_le x bound) duration_bounds @ [\<lambda>_. True]"

definition requests_where :: "string \<Rightarrow> http_request list \<Rightarrow> (f64 \<Rightarrow> bool) \<Rightarrow> nat" where
  "requests_where route requests P = length (filter (\<lambda>(r, _, _, ms). r = route \<and> P (latency_secs ms)) requests)"

lemma bump_buckets_counts:
  "bump_buckets (latency_secs ms) (map (requests_where route requests) bucket_tests)
    = map (requests_where route (requests @ [(route, meth, status, ms)])) bucket_tests"
proof -
  have "map2 (\<lambda>hit n. if hit then n + 1 else n) (map (\<lambda>t. t x) ts) (map h ts)
      = map (\<lambda>t. if t x then h t + 1 else h t :: nat) ts" for x and ts :: "(f64 \<Rightarrow> bool) list" and h
    by (induction ts) auto
  moreover have "map (\<lambda>bound. f64_le x bound) duration_bounds @ [True] = map (\<lambda>t. t x) bucket_tests" for x
    by (simp add: bucket_tests_def)
  ultimately show ?thesis by (simp only: bump_buckets_def) (simp add: requests_where_def)
qed

lemma record_requests_buckets:
  "bt_wf (ct_http_buckets (mt_counters (record_requests requests metrics_new)))
    \<and> bt_get (ct_http_buckets (mt_counters (record_requests requests metrics_new))) route
        = (if route \<in> fst ` set requests then Some (map (requests_where route requests) bucket_tests) else None)"
proof (induction requests rule: rev_induct)
  case (snoc rq requests)
  obtain r meth status ms where rq: "rq = (r, meth, status, ms)" by (cases rq)
  have b: "ct_http_buckets (mt_counters (record_requests (requests @ [rq]) metrics_new))
      = bt_update r (replicate 7 0) (bump_buckets (latency_secs ms))
          (ct_http_buckets (mt_counters (record_requests requests metrics_new)))"
    by (simp add: record_requests_def rq record_http_request_def Let_def latency_secs_def)
  have zero: "replicate 7 0 = map (requests_where r requests) bucket_tests" if "r \<notin> fst ` set requests"
  proof -
    have "requests_where r requests P = 0" for P using that by (force simp: requests_where_def filter_empty_conv)
    moreover have "length bucket_tests = 7" by (simp add: bucket_tests_def duration_bounds_def)
    ultimately show ?thesis by (intro nth_equalityI) simp_all
  qed
  have other: "requests_where route (requests @ [rq]) = requests_where route requests" if "route \<noteq> r"
    using that by (auto simp: requests_where_def rq)
  show ?case
  proof (cases "route = r")
    case True
    then show ?thesis using snoc zero bump_buckets_counts [of ms r requests meth status]
      unfolding b by (auto simp: rq bt_wf_update bt_get_update)
  next
    case False
    then show ?thesis using snoc other unfolding b by (auto simp: rq bt_wf_update bt_get_update)
  qed
qed (simp add: record_requests_def metrics_new_def counters_default_def)

lemma duration_bounds_sorted: "sorted_wrt (\<lambda>a b. \<forall>x. f64_le x a \<longrightarrow> f64_le x b) duration_bounds"
proof -
  have le: "f64_le x (Fin b)" if "f64_le x (Fin a)" and "a \<le> b" for x a b using that by (cases x) auto
  have q: "rn (1 / 4) = 1 / 4" by code_simp
  have "rn (1 / 10) \<le> rn (1 / 4)" by (rule rn_mono) simp
  moreover have "rn (1 / 100) \<le> rn (5 / 100)" by (rule rn_mono) simp
  moreover have "rn (5 / 100) \<le> rn (1 / 10)" by (rule rn_mono) simp
  ultimately have "sorted [rn (1 / 100), rn (5 / 100), rn (1 / 10), 1 / 4, 1 / 2, 1]"
    unfolding q by (simp only: sorted2 sorted1) simp
  then have "sorted_wrt (\<lambda>a b. \<forall>x. f64_le x (Fin a) \<longrightarrow> f64_le x (Fin b))
      [rn (1 / 100), rn (5 / 100), rn (1 / 10), 1 / 4, 1 / 2, 1]"
    by (rule sorted_wrt_mono_rel [rotated]) (use le in blast)
  then have "sorted_wrt (\<lambda>a b. \<forall>x. f64_le x a \<longrightarrow> f64_le x b)
      (map Fin [rn (1 / 100), rn (5 / 100), rn (1 / 10), 1 / 4, 1 / 2, 1])"
    unfolding sorted_wrt_map .
  then show ?thesis by (simp only: duration_bounds_def list.map)
qed

text \<open>
  The buckets of the latency histogram of a route hold, at any time, the number of its
  requests within each bound, the last bucket all of them, and they are cumulative.
\<close>

theorem latency_histogram_counts:
  "bt_get (ct_http_buckets (mt_counters (record_requests requests metrics_new))) route
      = (if route \<in> fst ` set requests then Some (map (requests_where route requests) bucket_tests) else None)
    \<and> sorted (map (requests_where route requests) bucket_tests)"
proof -
  have mono: "requests_where route requests P \<le> requests_where route requests Q" if "\<And>x. P x \<Longrightarrow> Q x" for P Q
    unfolding requests_where_def by (induction requests) (auto simp: that)
  have "sorted_wrt (\<lambda>P Q. \<forall>x. P x \<longrightarrow> Q x) bucket_tests"
    using duration_bounds_sorted by (simp add: bucket_tests_def sorted_wrt_append sorted_wrt_map)
  then have "sorted (map (requests_where route requests) bucket_tests)"
    unfolding sorted_wrt_map by (rule sorted_wrt_mono_rel [rotated]) (auto intro: mono)
  then show ?thesis using record_requests_buckets by blast
qed

end
