(* ===== verification/Oracle_Config.thy ===== *)
theory Oracle_Config
  imports Oracle_Chain "HOL-Library.Monad_Syntax"
begin

text \<open>
  The token list and its validation, in the shared library (\<^verbatim>\<open>shared/config/src/lib.rs\<close>) and in the
  oracle (\<^verbatim>\<open>config.rs\<close>). JSON decoding, socket addresses, hex and contract strkeys are parameters.
\<close>

section \<open>Checks\<close>

text \<open>A check succeeds or fails with its error; a sequence of checks stops at the first failure.\<close>

definition check :: "bool \<Rightarrow> 'e \<Rightarrow> ('e, unit) outcome" where
  "check b e = (if b then Ok () else Err e)"

definition check_then :: "('e, unit) outcome \<Rightarrow> ('e, 'a) outcome \<Rightarrow> ('e, 'a) outcome" where
  "check_then c m = bind_outcome c (\<lambda>_. m)"

fun check_all :: "('a \<Rightarrow> ('e, unit) outcome) \<Rightarrow> 'a list \<Rightarrow> ('e, unit) outcome" where
  "check_all f [] = Ok ()"
| "check_all f (x # xs) = check_then (f x) (check_all f xs)"

named_theorems check_iff \<open>when a check succeeds\<close>

lemma check_Ok [check_iff]: "check b e = Ok u \<longleftrightarrow> b"
  by (simp add: check_def)

lemma check_then_Ok [check_iff]: "check_then c m = Ok v \<longleftrightarrow> c = Ok () \<and> m = Ok v"
  by (cases c) (simp_all add: check_then_def)

lemma check_all_Ok [check_iff]: "check_all f xs = Ok u \<longleftrightarrow> (\<forall>x \<in> set xs. f x = Ok ())"
  by (induction xs) (simp_all add: check_iff)

lemma unit_Ok [check_iff]: "Ok () = Ok u"
  by simp

section \<open>Token lists\<close>

datatype config_error =
    MalformedJson string
  | EmptyTokenList
  | InvalidToken string string
  | IoError string

fun config_error_message :: "config_error \<Rightarrow> string" where
  "config_error_message (MalformedJson msg) = ''PRICE_FEED_CONFIG is not valid JSON: '' @ msg"
| "config_error_message EmptyTokenList = ''PRICE_FEED_CONFIG must contain at least one token''"
| "config_error_message (InvalidToken symbol reason) =
     ''invalid token config for '' @ apostrophe @ symbol @ apostrophe @ '': '' @ reason"
| "config_error_message (IoError msg) = ''failed to read token config file: '' @ msg"

text \<open>The libraries, and the contents of the bundled \<^verbatim>\<open>config/tokens.json\<close>.\<close>

record config_lib =
  cl_tokens :: "string \<Rightarrow> (string, token_config list) outcome"
  cl_bundled :: string
  cl_contract :: "string \<Rightarrow> bool"
  cl_hex_decode :: "string \<Rightarrow> (string, string) outcome"
  cl_socket_addr :: "string \<Rightarrow> (string, string) outcome"
  cl_float :: "f64 \<Rightarrow> string"

text \<open>The values claimed by the tokens before: one hash set each.\<close>

record seen =
  se_symbols :: "string set"
  se_addresses :: "string set"
  se_feeds :: "string set"
  se_binance :: "string set"
  se_coinbase :: "string set"

definition nothing_seen :: seen where
  "nothing_seen = \<lparr>se_symbols = {}, se_addresses = {}, se_feeds = {}, se_binance = {}, se_coinbase = {}\<rparr>"

text \<open>The values a token claims: an empty one claims nothing.\<close>

definition claim_of :: "string option \<Rightarrow> string set" where
  "claim_of x = (case x of None \<Rightarrow> {} | Some v \<Rightarrow> if v = '''' then {} else {v})"

definition address_claim :: "token_config \<Rightarrow> string set" where
  "address_claim token =
     (if tc_stellar_address token = '''' then {} else {to_lowercase (tc_stellar_address token)})"

definition see_token :: "token_config \<Rightarrow> seen \<Rightarrow> seen" where
  "see_token token sn =
     \<lparr>se_symbols = insert (to_lowercase (tc_symbol token)) (se_symbols sn),
      se_addresses = address_claim token \<union> se_addresses sn,
      se_feeds = claim_of (tc_pyth_feed_id token) \<union> se_feeds sn,
      se_binance = claim_of (tc_binance_symbol token) \<union> se_binance sn,
      se_coinbase = claim_of (tc_coinbase_symbol token) \<union> se_coinbase sn\<rparr>"

definition quoted :: "string \<Rightarrow> string" where
  "quoted s = apostrophe @ s @ apostrophe"

definition check_claim :: "token_config \<Rightarrow> string \<Rightarrow> string option \<Rightarrow> string set \<Rightarrow> (config_error, unit) outcome" where
  "check_claim token what value claimed =
     check (claim_of value \<inter> claimed = {})
       (InvalidToken (tc_symbol token) (''duplicate '' @ what @ '' '' @ quoted (the value) @ '' across tokens''))"

definition is_symbol_char :: "char \<Rightarrow> bool" where
  "is_symbol_char c \<longleftrightarrow> is_alnum c \<or> c = CHR ''_'' \<or> c = CHR ''-''"

definition check_source_symbol :: "token_config \<Rightarrow> string \<Rightarrow> string option \<Rightarrow> (config_error, unit) outcome" where
  "check_source_symbol token what value =
     (case value of
        None \<Rightarrow> Ok ()
      | Some s \<Rightarrow> check (s \<noteq> '''' \<and> list_all is_symbol_char s)
          (InvalidToken (tc_symbol token) (''invalid '' @ what @ '' '' @ quoted s
             @ '': must contain only alphanumeric characters, dashes, or underscores'')))"

definition check_source :: "token_config \<Rightarrow> string \<Rightarrow> (config_error, unit) outcome" where
  "check_source token source =
     (if source = ''binance'' then check_source_symbol token ''binance_symbol'' (tc_binance_symbol token)
      else if source = ''coinbase'' then check_source_symbol token ''coinbase_symbol'' (tc_coinbase_symbol token)
      else check (source = ''pyth'' \<or> source = ''fixed'')
             (InvalidToken (tc_symbol token) (''unsupported source '' @ quoted source)))"

definition between_message :: "string \<Rightarrow> u32 \<Rightarrow> string \<Rightarrow> string" where
  "between_message what n least = what @ '' ('' @ nat_digits n @ '') must be between '' @ least @ '' and 10000''"

definition check_ranges :: "token_config \<Rightarrow> (config_error, unit) outcome" where
  "check_ranges token =
     (let bad = InvalidToken (tc_symbol token) in
      check_then (check (tc_max_deviation_bps token \<noteq> 0 \<and> tc_max_deviation_bps token \<le> 10000)
        (bad (between_message ''max_deviation_bps'' (tc_max_deviation_bps token) ''1'')))
     (check_then (check (tc_stale_after_seconds token \<noteq> 0) (bad ''stale_after_seconds must be greater than 0''))
     (check_then (check (tc_submit_threshold_bps token \<le> 10000)
        (bad (between_message ''submit_threshold_bps'' (tc_submit_threshold_bps token) ''0'')))
     (check_then (check (tc_min_sources token \<noteq> 0) (bad ''min_sources must be at least 1''))
        (check (tc_pyth_max_confidence_bps token \<le> 10000)
          (bad (between_message ''pyth_max_confidence_bps'' (tc_pyth_max_confidence_bps token) ''0'')))))))"

definition check_token :: "seen \<Rightarrow> token_config \<Rightarrow> (config_error, unit) outcome" where
  "check_token sn token =
     (let bad = InvalidToken (tc_symbol token) in
      check_then (check (tc_symbol token \<noteq> '''') (InvalidToken ''(empty)'' ''symbol must not be empty''))
     (check_then (check (to_lowercase (tc_symbol token) \<notin> se_symbols sn)
        (bad ''duplicate symbol (case-insensitive)''))
     (check_then (check (address_claim token \<inter> se_addresses sn = {})
        (bad ''duplicate stellar_address (case-insensitive)''))
     (check_then (check_claim token ''pyth_feed_id'' (tc_pyth_feed_id token) (se_feeds sn))
     (check_then (check_claim token ''binance_symbol'' (tc_binance_symbol token) (se_binance sn))
     (check_then (check_claim token ''coinbase_symbol'' (tc_coinbase_symbol token) (se_coinbase sn))
     (check_then (check (distinct (tc_sources token)) (bad ''sources list contains duplicate entries''))
     (check_then (check_all (check_source token) (tc_sources token))
        (check_ranges token)))))))))"

fun check_tokens :: "seen \<Rightarrow> token_config list \<Rightarrow> (config_error, unit) outcome" where
  "check_tokens sn [] = Ok ()"
| "check_tokens sn (token # tokens) =
     check_then (check_token sn token) (check_tokens (see_token token sn) tokens)"

definition parse_token_configs :: "config_lib \<Rightarrow> string \<Rightarrow> (config_error, token_config list) outcome" where
  "parse_token_configs cl raw =
     bind_outcome (map_err MalformedJson (cl_tokens cl raw)) (\<lambda>tokens.
       check_then (check (tokens \<noteq> []) EmptyTokenList)
      (check_then (check_tokens nothing_seen tokens) (Ok tokens)))"

section \<open>What the oracle asks of a token\<close>

text \<open>
  The arm for \<^verbatim>\<open>"fixed"\<close> is left open in the source and followed by a second one; the first
  one, which parses the price, is the one that applies.
\<close>

definition check_feed_source :: "token_config \<Rightarrow> string \<Rightarrow> (config_error, unit) outcome" where
  "check_feed_source token source =
     (let bad = InvalidToken (tc_symbol token) in
      check_then (check (source \<noteq> '''') (bad ''source names must not be empty strings''))
      (if source = ''binance''
       then check (tc_binance_symbol token \<noteq> None) (bad ''binance_symbol is required for binance source'')
       else if source = ''coinbase''
       then check (tc_coinbase_symbol token \<noteq> None) (bad ''coinbase_symbol is required for coinbase source'')
       else if source = ''pyth''
       then check (claim_of (tc_pyth_feed_id token) \<noteq> {}) (bad ''pyth_feed_id is required for pyth source'')
       else if source = ''fixed''
       then map_err (\<lambda>e. bad (fixed_error_message e)) (bind_outcome (fixed_price token) (\<lambda>_. Ok ()))
       else Err (bad (''unsupported source '' @ quoted source))))"

definition check_feed :: "config_lib \<Rightarrow> token_config \<Rightarrow> (config_error, unit) outcome" where
  "check_feed cl token =
     (let bad = InvalidToken (tc_symbol token) in
      check_then (check (tc_stellar_address token \<noteq> '''') (bad ''stellar_address must not be empty''))
     (check_then (check (cl_contract cl (tc_stellar_address token))
        (bad (''stellar_address '' @ quoted (tc_stellar_address token) @ '' is not a valid contract strkey (C''
           @ ellipsis @ '')'')))
     (check_then (check (tc_sources token \<noteq> []) (bad ''sources list must not be empty''))
     (check_then (check_all (check_feed_source token) (tc_sources token))
     (check_then (check (tc_min_sources token \<noteq> 0) (bad ''min_sources must be greater than zero''))
        (check (tc_min_sources token \<le> length (tc_sources token))
          (bad (''min_sources ('' @ nat_digits (tc_min_sources token)
             @ '') exceeds number of configured sources ('' @ nat_digits (length (tc_sources token)) @ '')''))))))))"

definition parse_price_feed_config :: "config_lib \<Rightarrow> string \<Rightarrow> (config_error, token_config list) outcome" where
  "parse_price_feed_config cl raw =
     bind_outcome (parse_token_configs cl raw) (\<lambda>tokens.
       check_then (check_all (check_feed cl) tokens) (Ok tokens))"

definition load_price_feed_config :: "config_lib \<Rightarrow> string option \<Rightarrow> (config_error, token_config list) outcome" where
  "load_price_feed_config cl raw =
     parse_price_feed_config cl (case raw of None \<Rightarrow> cl_bundled cl | Some s \<Rightarrow> s)"

end
