(* ===== verification/Oracle_Env.thy ===== *)
theory Oracle_Env
  imports Oracle_Config
begin

text \<open>
  The environment (\<^verbatim>\<open>Config::from_lookup\<close> in \<^verbatim>\<open>config.rs\<close>): every variable is read, parsed and
  validated; an error is recorded and a default goes on in its place, and only at the end the
  errors, if any, are returned together.
\<close>

section \<open>Errors\<close>

datatype env_error =
    MissingVar string
  | InvalidVar string string
  | TokenConfigError config_error

fun env_error_message :: "env_error \<Rightarrow> string" where
  "env_error_message (MissingVar var) = ''required env var '' @ quoted var @ '' is not set''"
| "env_error_message (InvalidVar var reason) = ''invalid env var '' @ quoted var @ '': '' @ reason"
| "env_error_message (TokenConfigError error) = ''invalid PRICE_FEED_CONFIG: '' @ config_error_message error"

definition env_errors_message :: "env_error list \<Rightarrow> string" where
  "env_errors_message es =
     concat (map (\<lambda>(i, e). (if 0 < i then [char_of (10 :: nat)] else '''') @ env_error_message e)
       (zip [0..<length es] es))"

section \<open>Numbers\<close>

text \<open>\<^verbatim>\<open>str::parse::<uN>()\<close>: digit by digit, and the first problem is the one reported.\<close>

definition INVALID_DIGIT :: string where "INVALID_DIGIT = ''invalid digit found in string''"
definition NUMBER_TOO_LARGE :: string where "NUMBER_TOO_LARGE = ''number too large to fit in target type''"

fun parse_digits :: "nat \<Rightarrow> nat \<Rightarrow> string \<Rightarrow> (string, nat) outcome" where
  "parse_digits most acc [] = Ok acc"
| "parse_digits most acc (c # cs) =
     (if \<not> is_digit c then Err INVALID_DIGIT
      else if most < acc * 10 then Err NUMBER_TOO_LARGE
      else if most < acc * 10 + digit_val c then Err NUMBER_TOO_LARGE
      else parse_digits most (acc * 10 + digit_val c) cs)"

definition parse_uint :: "nat \<Rightarrow> string \<Rightarrow> (string, nat) outcome" where
  "parse_uint most s =
     (if s = '''' then Err ''cannot parse integer from empty string''
      else if s = ''+'' \<or> s = ''-'' then Err INVALID_DIGIT
      else parse_digits most 0 (if hd s = CHR ''+'' then tl s else s))"

text \<open>
  \<^verbatim>\<open>str::parse::<f64>()\<close>: a sign, then infinity, NaN or a decimal with an optional exponent, rounded
  to the nearest double. Both zeros are the one of \<^typ>\<open>f64\<close>.
\<close>

definition f64_decimal :: "string \<Rightarrow> string \<Rightarrow> int \<Rightarrow> rat" where
  "f64_decimal whole part ex =
     (let e = ex - int (length part); n = of_nat (digits_val (whole @ part))
      in if 0 \<le> e then n * 10 ^ nat e else n / 10 ^ nat (- e))"

definition parse_exponent :: "string \<Rightarrow> int option" where
  "parse_exponent s =
     (case s of
        [] \<Rightarrow> Some 0
      | c # rest \<Rightarrow> if c = CHR ''e'' \<or> c = CHR ''E'' then parse_int rest else None)"

definition parse_f64_number :: "string \<Rightarrow> rat option" where
  "parse_f64_number s =
     (let whole = takeWhile is_digit s; rest = dropWhile is_digit s;
          dot = (rest \<noteq> [] \<and> hd rest = CHR ''.'');
          part = (if dot then takeWhile is_digit (tl rest) else []);
          after = (if dot then dropWhile is_digit (tl rest) else rest)
      in if whole = [] \<and> part = [] then None
         else map_option (f64_decimal whole part) (parse_exponent after))"

definition parse_f64 :: "string \<Rightarrow> (string, f64) outcome" where
  "parse_f64 s =
     (if s = '''' then Err ''cannot parse float from empty string''
      else (let (neg, t) = split_sign s; word = to_lowercase t in
        if word = ''inf'' \<or> word = ''infinity'' then Ok (if neg then NegInf else PosInf)
        else if word = ''nan'' then Ok NaN
        else (case parse_f64_number t of
                None \<Rightarrow> Err ''invalid float literal''
              | Some v \<Rightarrow> Ok (round64 (if neg then - v else v)))))"

section \<open>Reading a variable\<close>

type_synonym lookup = "string \<Rightarrow> string option"

text \<open>Blank values count as absent.\<close>

definition nonblank :: "string option \<Rightarrow> string option" where
  "nonblank x = (case x of None \<Rightarrow> None | Some v \<Rightarrow> if trim v = '''' then None else Some v)"

definition value_or :: "string \<Rightarrow> string option \<Rightarrow> string" where
  "value_or d x = (case x of None \<Rightarrow> d | Some v \<Rightarrow> v)"

definition required :: "lookup \<Rightarrow> string \<Rightarrow> (env_error, string) outcome" where
  "required lookup var = or_err (MissingVar var) (nonblank (lookup var))"

definition required_any :: "lookup \<Rightarrow> string \<Rightarrow> string \<Rightarrow> (env_error, string) outcome" where
  "required_any lookup primary fallback =
     or_err (MissingVar (''ORACLE_CONTRACT_ID'' @ apostrophe @ '' (or fallback alias '' @ quoted ''ORACLE'' @ '')''))
       (case nonblank (lookup primary) of Some v \<Rightarrow> Some v | None \<Rightarrow> nonblank (lookup fallback))"

definition parse_or_default ::
  "lookup \<Rightarrow> (string \<Rightarrow> (string, 'a) outcome) \<Rightarrow> string \<Rightarrow> string \<Rightarrow> (env_error, 'a) outcome" where
  "parse_or_default lookup parse var d = map_err (InvalidVar var) (parse (value_or d (nonblank (lookup var))))"

definition validate_hex_key :: "config_lib \<Rightarrow> string \<Rightarrow> nat \<Rightarrow> string \<Rightarrow> (env_error, string) outcome" where
  "validate_hex_key cl var expected_len value =
     bind_outcome (map_err (InvalidVar var) (cl_hex_decode cl value)) (\<lambda>bytes.
       if length bytes \<noteq> expected_len
       then Err (InvalidVar var (''expected '' @ nat_digits expected_len @ '' bytes, got '' @ nat_digits (length bytes)))
       else Ok value)"

definition is_base32_char :: "char \<Rightarrow> bool" where
  "is_base32_char c \<longleftrightarrow> is_upper c \<or> (50 \<le> (of_char c :: nat) \<and> (of_char c :: nat) \<le> 55)"

text \<open>The first character that is not base32, with all its bytes.\<close>

definition bad_base32 :: "string \<Rightarrow> string option" where
  "bad_base32 s =
     (case dropWhile is_base32_char s of [] \<Rightarrow> None | c # rest \<Rightarrow> Some (c # takeWhile continuation_byte rest))"

definition validate_strkey :: "string \<Rightarrow> char \<Rightarrow> string \<Rightarrow> (env_error, string) outcome" where
  "validate_strkey var pre value =
     (if length value \<noteq> 56
      then Err (InvalidVar var (''expected 56 characters, got '' @ nat_digits (length value)))
      else if \<not> starts_with value [pre]
      then Err (InvalidVar var (''must start with '' @ quoted [pre]))
      else (case bad_base32 value of
              Some c \<Rightarrow> Err (InvalidVar var (''invalid base32 character '' @ quoted c @ '' (expected A-Z, 2-7)''))
            | None \<Rightarrow> Ok value))"

definition MIN_ADMIN_API_TOKEN_LEN :: nat where "MIN_ADMIN_API_TOKEN_LEN = 32"

definition ADMIN_API_TOKEN_PLACEHOLDER :: string where
  "ADMIN_API_TOKEN_PLACEHOLDER = ''your-admin-api-token-here''"

definition char_count :: "string \<Rightarrow> nat" where
  "char_count s = length (filter (\<lambda>c. \<not> continuation_byte c) s)"

definition validate_admin_api_token :: "string \<Rightarrow> (string, unit) outcome" where
  "validate_admin_api_token token =
     check_then (check (trim token \<noteq> ADMIN_API_TOKEN_PLACEHOLDER)
       ''is still the .env.example placeholder; generate a random token'')
     (check (MIN_ADMIN_API_TOKEN_LEN \<le> char_count (trim token))
       (''must be at least '' @ nat_digits MIN_ADMIN_API_TOKEN_LEN @ '' characters (e.g. `openssl rand -hex 32`)''))"

text \<open>Numbers that must not be zero.\<close>

definition positive_var :: "lookup \<Rightarrow> nat \<Rightarrow> string \<Rightarrow> nat \<Rightarrow> (env_error, nat) outcome" where
  "positive_var lookup most var d =
     bind_outcome (parse_or_default lookup (parse_uint most) var (nat_digits d)) (\<lambda>n.
       if n = 0 then Err (InvalidVar var ''must be greater than 0'') else Ok n)"

definition min_balance_var :: "config_lib \<Rightarrow> lookup \<Rightarrow> (env_error, f64) outcome" where
  "min_balance_var cl lookup =
     bind_outcome (parse_or_default lookup parse_f64 ''MIN_KEEPER_BALANCE_XLM'' ''10'') (\<lambda>v.
       (case v of
          Fin x \<Rightarrow> if x < 0 then Err (InvalidVar ''MIN_KEEPER_BALANCE_XLM''
                       (''must be a finite, non-negative number, got '' @ cl_float cl v)) else Ok v
        | _ \<Rightarrow> Err (InvalidVar ''MIN_KEEPER_BALANCE_XLM''
                       (''must be a finite, non-negative number, got '' @ cl_float cl v))))"

section \<open>Collecting the errors\<close>

text \<open>
  \<^verbatim>\<open>collect_or_default!\<close>. A loading step takes the errors so far; \<^const>\<open>None\<close> is a panic.
\<close>

type_synonym 'a loading = "env_error list \<Rightarrow> ('a \<times> env_error list) option"

definition collect :: "(env_error, 'a) outcome \<Rightarrow> 'a \<Rightarrow> 'a loading" where
  "collect r d es =
     (case r of Ok v \<Rightarrow> Some (v, es) | Err e \<Rightarrow> Some (d, es @ [e]) | Panic \<Rightarrow> None)"

datatype network = Testnet | Mainnet

definition network_name :: "network \<Rightarrow> string" where
  "network_name n = (case n of Testnet \<Rightarrow> ''testnet'' | Mainnet \<Rightarrow> ''mainnet'')"

definition parse_network :: "string \<Rightarrow> (env_error, network) outcome" where
  "parse_network s =
     (if s = ''testnet'' then Ok Testnet
      else if s = ''mainnet'' then Ok Mainnet
      else Err (InvalidVar ''STELLAR_NETWORK'' (''unknown network '' @ quoted s @ ''; expected '' @ quoted ''testnet''
             @ '' or '' @ quoted ''mainnet'')))"

definition TESTNET_PASSPHRASE :: string where "TESTNET_PASSPHRASE = ''Test SDF Network ; September 2015''"
definition MAINNET_PASSPHRASE :: string where
  "MAINNET_PASSPHRASE = ''Public Global Stellar Network ; November 2015''"
definition TESTNET_RPC_URL :: string where "TESTNET_RPC_URL = ''https://soroban-testnet.stellar.org''"
definition DEFAULT_BIND_ADDR :: string where "DEFAULT_BIND_ADDR = ''0.0.0.0:8080''"
definition DEFAULT_TESTNET_HORIZON_URL :: string where
  "DEFAULT_TESTNET_HORIZON_URL = ''https://horizon-testnet.stellar.org''"
definition DEFAULT_MAINNET_HORIZON_URL :: string where
  "DEFAULT_MAINNET_HORIZON_URL = ''https://horizon.stellar.org''"
definition COINBASE_EXCHANGE_RATES_URL :: string where
  "COINBASE_EXCHANGE_RATES_URL = ''https://api.coinbase.com/v2/exchange-rates?currency=''"

record endpoints =
  ep_passphrase :: string
  ep_rpc_url :: string
  ep_horizon_url :: string

definition load_endpoints :: "lookup \<Rightarrow> network \<Rightarrow> endpoints loading" where
  "load_endpoints lookup network es =
     (case network of
        Testnet \<Rightarrow> Some (\<lparr>ep_passphrase = TESTNET_PASSPHRASE,
          ep_rpc_url = value_or TESTNET_RPC_URL (lookup ''STELLAR_RPC_URL''),
          ep_horizon_url = value_or DEFAULT_TESTNET_HORIZON_URL (lookup ''HORIZON_URL'')\<rparr>, es)
      | Mainnet \<Rightarrow> do {
          (rpc, es) \<leftarrow> collect (required lookup ''STELLAR_RPC_URL'') '''' es;
          Some (\<lparr>ep_passphrase = MAINNET_PASSPHRASE, ep_rpc_url = rpc,
            ep_horizon_url = value_or DEFAULT_MAINNET_HORIZON_URL (lookup ''HORIZON_URL'')\<rparr>, es)
        })"

definition load_oracle_id :: "lookup \<Rightarrow> network \<Rightarrow> string loading" where
  "load_oracle_id lookup network =
     collect (case network of
        Mainnet \<Rightarrow> required lookup ''ORACLE_CONTRACT_ID''
      | Testnet \<Rightarrow> required_any lookup ''ORACLE_CONTRACT_ID'' ''ORACLE'') ''''"

text \<open>The six contracts every network requires.\<close>

record contract_ids =
  ci_role_store :: string
  ci_data_store :: string
  ci_order_handler :: string
  ci_deposit_handler :: string
  ci_withdrawal_handler :: string
  ci_reader :: string

definition load_contracts :: "lookup \<Rightarrow> contract_ids loading" where
  "load_contracts lookup es = do {
     (role_store, es) \<leftarrow> collect (required lookup ''ROLE_STORE'') '''' es;
     (data_store, es) \<leftarrow> collect (required lookup ''DATA_STORE'') '''' es;
     (order_handler, es) \<leftarrow> collect (required lookup ''ORDER_HANDLER'') '''' es;
     (deposit_handler, es) \<leftarrow> collect (required lookup ''DEPOSIT_HANDLER'') '''' es;
     (withdrawal_handler, es) \<leftarrow> collect (required lookup ''WITHDRAWAL_HANDLER'') '''' es;
     (reader, es) \<leftarrow> collect (required lookup ''READER'') '''' es;
     Some (\<lparr>ci_role_store = role_store, ci_data_store = data_store, ci_order_handler = order_handler,
       ci_deposit_handler = deposit_handler, ci_withdrawal_handler = withdrawal_handler, ci_reader = reader\<rparr>, es)
   }"

text \<open>A required value that is validated only when it is there.\<close>

definition load_validated ::
  "lookup \<Rightarrow> string \<Rightarrow> (string \<Rightarrow> (env_error, string) outcome) \<Rightarrow> string loading" where
  "load_validated lookup var validate es = do {
     (raw, es) \<leftarrow> collect (required lookup var) '''' es;
     if raw \<noteq> '''' then collect (validate raw) '''' es else Some ('''', es)
   }"

record keeper_keys =
  kk_private_key :: string
  kk_secret_key :: string
  kk_account_id :: string
  kk_index :: u32

definition load_keys :: "config_lib \<Rightarrow> lookup \<Rightarrow> keeper_keys loading" where
  "load_keys cl lookup es = do {
     (private_key, es) \<leftarrow> load_validated lookup ''KEEPER_PRIVATE_KEY''
        (validate_hex_key cl ''KEEPER_PRIVATE_KEY'' 32) es;
     (secret_key, es) \<leftarrow> load_validated lookup ''KEEPER_SECRET_KEY''
        (validate_strkey ''KEEPER_SECRET_KEY'' (CHR ''S'')) es;
     (account_id, es) \<leftarrow> load_validated lookup ''KEEPER_ACCOUNT_ID''
        (validate_strkey ''KEEPER_ACCOUNT_ID'' (CHR ''G'')) es;
     (index, es) \<leftarrow> collect (parse_or_default lookup (parse_uint u32_max) ''KEEPER_INDEX'' ''0'') 0 es;
     Some (\<lparr>kk_private_key = private_key, kk_secret_key = secret_key, kk_account_id = account_id, kk_index = index\<rparr>, es)
   }"

text \<open>A blank admin token switches the admin API off; a weak one is an error.\<close>

definition load_admin_token :: "lookup \<Rightarrow> string option loading" where
  "load_admin_token lookup =
     collect (case nonblank (lookup ''ADMIN_API_TOKEN'') of
        None \<Rightarrow> Ok None
      | Some token \<Rightarrow> map_err (InvalidVar ''ADMIN_API_TOKEN'')
          (bind_outcome (validate_admin_api_token token) (\<lambda>_. Ok (Some token)))) None"

record limits =
  lm_min_balance :: f64
  lm_set_prices_tx_fee :: u32
  lm_keeper_tx_fee :: u32
  lm_price_loop_ms :: nat
  lm_keeper_loop_ms :: nat

definition load_limits :: "config_lib \<Rightarrow> lookup \<Rightarrow> limits loading" where
  "load_limits cl lookup es = do {
     (min_balance, es) \<leftarrow> collect (min_balance_var cl lookup) (Fin 10) es;
     (set_prices_fee, es) \<leftarrow> collect (positive_var lookup u32_max ''SET_PRICES_TX_FEE'' 1000000) 1000000 es;
     (keeper_fee, es) \<leftarrow> collect (positive_var lookup u32_max ''KEEPER_TX_FEE'' 2000000) 2000000 es;
     (price_loop, es) \<leftarrow> collect (positive_var lookup u64_max ''PRICE_LOOP_MS'' 1000) 1000 es;
     (keeper_loop, es) \<leftarrow> collect (positive_var lookup u64_max ''KEEPER_LOOP_MS'' 1500) 1500 es;
     Some (\<lparr>lm_min_balance = min_balance, lm_set_prices_tx_fee = set_prices_fee, lm_keeper_tx_fee = keeper_fee,
       lm_price_loop_ms = price_loop, lm_keeper_loop_ms = keeper_loop\<rparr>, es)
   }"

text \<open>Two roles must not share a contract: the later one is reported, with the one it collides with.\<close>

fun role_errors :: "(string \<times> string) list \<Rightarrow> (string \<rightharpoonup> string) \<Rightarrow> env_error list" where
  "role_errors [] taken = []"
| "role_errors ((var, raw) # roles) taken =
     (let value = trim raw in
      if value = '''' then role_errors roles taken
      else (case taken value of
              Some previous \<Rightarrow>
                InvalidVar var (''is set to the same contract ID as '' @ previous @ '' ('' @ value
                  @ ''); each contract role must point at a distinct contract'') # role_errors roles taken
            | None \<Rightarrow> role_errors roles (taken(value \<mapsto> var))))"

definition contract_roles :: "string \<Rightarrow> contract_ids \<Rightarrow> (string \<times> string) list" where
  "contract_roles oracle_id ids =
     [(''ORACLE_CONTRACT_ID'', oracle_id), (''ROLE_STORE'', ci_role_store ids), (''DATA_STORE'', ci_data_store ids),
      (''ORDER_HANDLER'', ci_order_handler ids), (''DEPOSIT_HANDLER'', ci_deposit_handler ids),
      (''WITHDRAWAL_HANDLER'', ci_withdrawal_handler ids), (''READER'', ci_reader ids)]"

section \<open>The configuration\<close>

text \<open>What \<^verbatim>\<open>main\<close> gets: the bind address, the role store, and the rest.\<close>

record loaded =
  ld_bind_addr :: string
  ld_role_store :: string
  ld_config :: config

definition build_config ::
  "network \<Rightarrow> endpoints \<Rightarrow> string \<Rightarrow> token_config list \<Rightarrow> contract_ids \<Rightarrow> keeper_keys \<Rightarrow> string option
    \<Rightarrow> string option \<Rightarrow> limits \<Rightarrow> config" where
  "build_config network ep oracle_id tokens ids keys admin_token pyth_key lm =
     \<lparr>cf_network = network_name network, cf_network_passphrase = ep_passphrase ep, cf_stellar_rpc_url = ep_rpc_url ep,
      cf_horizon_url = ep_horizon_url ep, cf_oracle_contract_id = oracle_id,
      cf_data_store_contract_id = ci_data_store ids, cf_order_handler_contract_id = ci_order_handler ids,
      cf_deposit_handler_contract_id = ci_deposit_handler ids,
      cf_withdrawal_handler_contract_id = ci_withdrawal_handler ids, cf_reader_contract_id = ci_reader ids,
      cf_keeper_private_key = kk_private_key keys, cf_keeper_secret_key = kk_secret_key keys,
      cf_keeper_account_id = kk_account_id keys, cf_keeper_index = kk_index keys, cf_admin_api_token = admin_token,
      cf_pyth_api_key = pyth_key, cf_min_keeper_balance_xlm = lm_min_balance lm,
      cf_set_prices_tx_fee = lm_set_prices_tx_fee lm, cf_keeper_tx_fee = lm_keeper_tx_fee lm,
      cf_price_loop_interval_ms = lm_price_loop_ms lm, cf_keeper_loop_interval_ms = lm_keeper_loop_ms lm,
      cf_tokens = tokens, cf_coinbase_base_url = COINBASE_EXCHANGE_RATES_URL,
      cf_binance_base_url = BINANCE_TICKER_PRICE_URL\<rparr>"

definition load_all :: "config_lib \<Rightarrow> lookup \<Rightarrow> loaded loading" where
  "load_all cl lookup es = do {
     (network, es) \<leftarrow> collect (parse_network (value_or ''testnet'' (lookup ''STELLAR_NETWORK''))) Testnet es;
     (bind_addr, es) \<leftarrow> collect (parse_or_default lookup (cl_socket_addr cl) ''BIND_ADDR'' DEFAULT_BIND_ADDR)
        DEFAULT_BIND_ADDR es;
     (ep, es) \<leftarrow> load_endpoints lookup network es;
     (oracle_id, es) \<leftarrow> load_oracle_id lookup network es;
     (tokens, es) \<leftarrow> collect (map_err TokenConfigError (load_price_feed_config cl (lookup ''PRICE_FEED_CONFIG''))) [] es;
     (ids, es) \<leftarrow> load_contracts lookup es;
     (keys, es) \<leftarrow> load_keys cl lookup es;
     (admin_token, es) \<leftarrow> load_admin_token lookup es;
     (lm, es) \<leftarrow> load_limits cl lookup es;
     Some (\<lparr>ld_bind_addr = bind_addr, ld_role_store = ci_role_store ids,
         ld_config = build_config network ep oracle_id tokens ids keys admin_token
           (nonblank (lookup ''PYTH_API_KEY'')) lm\<rparr>,
       es @ role_errors (contract_roles oracle_id ids) Map.empty)
   }"

definition from_lookup :: "config_lib \<Rightarrow> lookup \<Rightarrow> (env_error list, loaded) outcome" where
  "from_lookup cl lookup =
     (case load_all cl lookup [] of
        None \<Rightarrow> Panic
      | Some (ld, es) \<Rightarrow> if es \<noteq> [] then Err es else Ok ld)"

end
