(* ===== verification/Oracle_Config_Props.thy ===== *)
theory Oracle_Config_Props
  imports Oracle_Env Oracle_Price_Props
begin

text \<open>
  What a configuration that loads is worth: the token list is usable as a whole, every value is in
  its range, and what is wrong with a rejected environment is reported completely.
\<close>

section \<open>Usable token lists\<close>

text \<open>No two elements of a list share a value.\<close>

fun apart :: "('a \<Rightarrow> 'b set) \<Rightarrow> 'a list \<Rightarrow> bool" where
  "apart f [] \<longleftrightarrow> True"
| "apart f (x # xs) \<longleftrightarrow> (\<forall>y \<in> set xs. f x \<inter> f y = {}) \<and> apart f xs"

lemma apart_seen:
  "f x \<inter> S = {} \<and> apart f xs \<and> (\<forall>y \<in> set xs. f y \<inter> (f x \<union> S) = {})
    \<longleftrightarrow> apart f (x # xs) \<and> (\<forall>y \<in> set (x # xs). f y \<inter> S = {})"
  by auto

lemma apart_singletons: "apart (\<lambda>x. {g x}) xs \<longleftrightarrow> distinct (map g xs)"
  by (induction xs) (auto simp: image_iff)

definition usable_source :: "token_config \<Rightarrow> string \<Rightarrow> bool" where
  "usable_source token source \<longleftrightarrow>
     (if source = ''binance'' then (case tc_binance_symbol token of None \<Rightarrow> False
        | Some s \<Rightarrow> s \<noteq> '''' \<and> list_all is_symbol_char s)
      else if source = ''coinbase'' then (case tc_coinbase_symbol token of None \<Rightarrow> False
        | Some s \<Rightarrow> s \<noteq> '''' \<and> list_all is_symbol_char s)
      else if source = ''pyth'' then claim_of (tc_pyth_feed_id token) \<noteq> {}
      else source = ''fixed'' \<and> is_ok (fixed_price token))"

definition usable_ranges :: "token_config \<Rightarrow> bool" where
  "usable_ranges token \<longleftrightarrow>
     tc_max_deviation_bps token \<noteq> 0 \<and> tc_max_deviation_bps token \<le> 10000 \<and> tc_stale_after_seconds token \<noteq> 0
     \<and> tc_submit_threshold_bps token \<le> 10000 \<and> tc_pyth_max_confidence_bps token \<le> 10000
     \<and> tc_min_sources token \<noteq> 0 \<and> tc_min_sources token \<le> length (tc_sources token)"

definition usable_token :: "config_lib \<Rightarrow> token_config \<Rightarrow> bool" where
  "usable_token cl token \<longleftrightarrow>
     tc_symbol token \<noteq> '''' \<and> tc_stellar_address token \<noteq> '''' \<and> cl_contract cl (tc_stellar_address token)
     \<and> tc_sources token \<noteq> [] \<and> distinct (tc_sources token) \<and> list_all (usable_source token) (tc_sources token)
     \<and> usable_ranges token"

definition usable_feed :: "config_lib \<Rightarrow> token_config list \<Rightarrow> bool" where
  "usable_feed cl tokens \<longleftrightarrow>
     tokens \<noteq> [] \<and> list_all (usable_token cl) tokens
     \<and> distinct (map (\<lambda>t. to_lowercase (tc_symbol t)) tokens) \<and> distinct (map lookup_key tokens)
     \<and> apart (\<lambda>t. claim_of (tc_pyth_feed_id t)) tokens \<and> apart (\<lambda>t. claim_of (tc_binance_symbol t)) tokens
     \<and> apart (\<lambda>t. claim_of (tc_coinbase_symbol t)) tokens"

text \<open>What a token owes to the ones before it, and what it owes alone.\<close>

definition unseen :: "seen \<Rightarrow> token_config \<Rightarrow> bool" where
  "unseen sn token \<longleftrightarrow>
     {to_lowercase (tc_symbol token)} \<inter> se_symbols sn = {} \<and> address_claim token \<inter> se_addresses sn = {}
     \<and> claim_of (tc_pyth_feed_id token) \<inter> se_feeds sn = {} \<and> claim_of (tc_binance_symbol token) \<inter> se_binance sn = {}
     \<and> claim_of (tc_coinbase_symbol token) \<inter> se_coinbase sn = {}"

definition alone :: "token_config \<Rightarrow> bool" where
  "alone token \<longleftrightarrow> check_token nothing_seen token = Ok ()"

lemma check_claim_Ok [check_iff]: "check_claim token what value claimed = Ok u \<longleftrightarrow> claim_of value \<inter> claimed = {}"
  by (simp add: check_claim_def check_iff)

lemma check_token_Ok [check_iff]: "check_token sn token = Ok u \<longleftrightarrow> unseen sn token \<and> alone token"
  unfolding check_token_def alone_def
  by (auto simp: check_iff Let_def unseen_def nothing_seen_def)

definition all_apart :: "token_config list \<Rightarrow> bool" where
  "all_apart tokens \<longleftrightarrow>
     apart (\<lambda>t. {to_lowercase (tc_symbol t)}) tokens \<and> apart address_claim tokens
     \<and> apart (\<lambda>t. claim_of (tc_pyth_feed_id t)) tokens \<and> apart (\<lambda>t. claim_of (tc_binance_symbol t)) tokens
     \<and> apart (\<lambda>t. claim_of (tc_coinbase_symbol t)) tokens"

lemma all_apart_seen:
  "unseen sn x \<and> all_apart xs \<and> (\<forall>y \<in> set xs. unseen (see_token x sn) y)
    \<longleftrightarrow> all_apart (x # xs) \<and> (\<forall>y \<in> set (x # xs). unseen sn y)"
proof -
  let ?s = "\<lambda>t. {to_lowercase (tc_symbol t)}" and ?g = "\<lambda>t. claim_of (tc_pyth_feed_id t)"
    and ?b = "\<lambda>t. claim_of (tc_binance_symbol t)" and ?c = "\<lambda>t. claim_of (tc_coinbase_symbol t)"
  have see: "unseen (see_token x sn) y \<longleftrightarrow>
      ?s y \<inter> (?s x \<union> se_symbols sn) = {} \<and> address_claim y \<inter> (address_claim x \<union> se_addresses sn) = {}
      \<and> ?g y \<inter> (?g x \<union> se_feeds sn) = {} \<and> ?b y \<inter> (?b x \<union> se_binance sn) = {}
      \<and> ?c y \<inter> (?c x \<union> se_coinbase sn) = {}" for y
    by (simp add: unseen_def see_token_def)
  show ?thesis
    unfolding all_apart_def see
    using apart_seen [of ?s x "se_symbols sn" xs] apart_seen [of address_claim x "se_addresses sn" xs]
      apart_seen [of ?g x "se_feeds sn" xs] apart_seen [of ?b x "se_binance sn" xs]
      apart_seen [of ?c x "se_coinbase sn" xs]
    unfolding unseen_def ball_conj_distrib by argo
qed

lemma check_tokens_Ok [check_iff]:
  "check_tokens sn tokens = Ok u \<longleftrightarrow> all_apart tokens \<and> (\<forall>t \<in> set tokens. unseen sn t) \<and> list_all alone tokens"
proof (induction tokens arbitrary: sn)
  case (Cons x xs)
  have "check_tokens sn (x # xs) = Ok u \<longleftrightarrow> (unseen sn x \<and> all_apart xs \<and> (\<forall>y \<in> set xs. unseen (see_token x sn) y))
      \<and> list_all alone (x # xs)"
    using Cons.IH by (auto simp: check_iff)
  then show ?case using all_apart_seen [of sn x xs] by argo
qed (simp add: all_apart_def)

lemma check_sources_usable:
  "check_source token source = Ok () \<and> check_feed_source token source = Ok () \<longleftrightarrow> usable_source token source"
  by (auto simp: check_source_def check_source_symbol_def check_feed_source_def usable_source_def check_iff Let_def
      outcome_ops is_ok_def split: option.splits outcome.splits)

lemma check_token_usable: "alone token \<and> check_feed cl token = Ok () \<longleftrightarrow> usable_token cl token"
proof -
  have "alone token \<longleftrightarrow> tc_symbol token \<noteq> '''' \<and> distinct (tc_sources token)
      \<and> (\<forall>s \<in> set (tc_sources token). check_source token s = Ok ()) \<and> check_ranges token = Ok ()"
    unfolding alone_def check_token_def Let_def check_iff by (simp add: nothing_seen_def)
  moreover have "check_feed cl token = Ok () \<longleftrightarrow> tc_stellar_address token \<noteq> '''' \<and> cl_contract cl (tc_stellar_address token)
      \<and> tc_sources token \<noteq> [] \<and> (\<forall>s \<in> set (tc_sources token). check_feed_source token s = Ok ())
      \<and> tc_min_sources token \<noteq> 0 \<and> tc_min_sources token \<le> length (tc_sources token)"
    unfolding check_feed_def Let_def check_iff by simp
  moreover have "check_ranges token = Ok () \<longleftrightarrow> tc_max_deviation_bps token \<noteq> 0 \<and> tc_max_deviation_bps token \<le> 10000
      \<and> tc_stale_after_seconds token \<noteq> 0 \<and> tc_submit_threshold_bps token \<le> 10000 \<and> tc_min_sources token \<noteq> 0
      \<and> tc_pyth_max_confidence_bps token \<le> 10000"
    unfolding check_ranges_def Let_def check_iff by simp
  ultimately show ?thesis
    unfolding usable_token_def usable_ranges_def list_all_iff check_sources_usable [symmetric] by blast
qed

lemma all_apart_usable:
  assumes "\<forall>t \<in> set tokens. tc_stellar_address t \<noteq> ''''"
  shows "apart address_claim tokens \<longleftrightarrow> distinct (map lookup_key tokens)"
  using assms by (induction tokens) (auto simp: address_claim_def lookup_key_def image_iff)

lemma nothing_unseen [simp]: "unseen nothing_seen token"
  by (simp add: unseen_def nothing_seen_def)

lemma parse_price_feed_config_Ok [check_iff]:
  "parse_price_feed_config cl raw = Ok tokens \<longleftrightarrow> cl_tokens cl raw = Ok tokens \<and> usable_feed cl tokens"
proof -
  have "parse_price_feed_config cl raw = Ok tokens \<longleftrightarrow> cl_tokens cl raw = Ok tokens \<and> tokens \<noteq> [] \<and> all_apart tokens
      \<and> (\<forall>t \<in> set tokens. alone t \<and> check_feed cl t = Ok ())"
    by (auto simp: parse_price_feed_config_def parse_token_configs_def outcome_ops check_iff list_all_iff)
  also have "\<dots> \<longleftrightarrow> cl_tokens cl raw = Ok tokens \<and> usable_feed cl tokens"
    unfolding check_token_usable usable_feed_def all_apart_def list_all_iff apart_singletons
    using all_apart_usable [of tokens] by (auto simp: usable_token_def)
  finally show ?thesis .
qed

section \<open>Loading without an error\<close>

text \<open>A loading that ends without errors had none at any step.\<close>

lemma collect_clean: "collect r d es = Some (v, []) \<longleftrightarrow> es = [] \<and> r = Ok v"
  by (auto simp: collect_def split: outcome.splits)

lemma required_Ok: "required lookup var = Ok v \<longleftrightarrow> nonblank (lookup var) = Some v"
  by (simp add: required_def outcome_ops)

lemma nonblank_Some: "nonblank x = Some v \<longleftrightarrow> x = Some v \<and> trim v \<noteq> ''''"
  by (auto simp: nonblank_def split: option.splits)

lemma trim_Nil [simp]: "trim '''' = ''''"
  by (simp add: trim_def)

named_theorems clean \<open>what a loading without errors has loaded\<close>

lemma load_validated_clean [clean]:
  "load_validated lookup var validate es = Some (v, [])
    \<Longrightarrow> es = [] \<and> (\<exists>raw. nonblank (lookup var) = Some raw \<and> validate raw = Ok v)"
  by (auto simp: load_validated_def Option.bind_eq_Some_conv collect_clean required_Ok nonblank_Some split: if_splits)

lemma load_contracts_clean [clean]:
  "load_contracts lookup es = Some (ids, []) \<longleftrightarrow> es = []
    \<and> nonblank (lookup ''ROLE_STORE'') = Some (ci_role_store ids)
    \<and> nonblank (lookup ''DATA_STORE'') = Some (ci_data_store ids)
    \<and> nonblank (lookup ''ORDER_HANDLER'') = Some (ci_order_handler ids)
    \<and> nonblank (lookup ''DEPOSIT_HANDLER'') = Some (ci_deposit_handler ids)
    \<and> nonblank (lookup ''WITHDRAWAL_HANDLER'') = Some (ci_withdrawal_handler ids)
    \<and> nonblank (lookup ''READER'') = Some (ci_reader ids)"
  by (cases ids) (auto simp: load_contracts_def Option.bind_eq_Some_conv collect_clean required_Ok)

lemma load_endpoints_clean [clean]:
  "load_endpoints lookup network es = Some (ep, []) \<Longrightarrow> es = []
    \<and> ep_passphrase ep = (case network of Testnet \<Rightarrow> TESTNET_PASSPHRASE | Mainnet \<Rightarrow> MAINNET_PASSPHRASE)"
  by (auto simp: load_endpoints_def Option.bind_eq_Some_conv collect_clean split: network.splits)

lemma load_oracle_id_clean [clean]:
  "load_oracle_id lookup network es = Some (v, []) \<Longrightarrow> es = [] \<and> trim v \<noteq> ''''"
  by (auto simp: load_oracle_id_def collect_clean required_Ok required_any_def nonblank_Some outcome_ops
      split: network.splits option.splits)

lemma load_admin_token_clean [clean]:
  "load_admin_token lookup es = Some (v, []) \<Longrightarrow> es = []
    \<and> (\<forall>token. v = Some token \<longrightarrow> validate_admin_api_token token = Ok ())"
  by (auto simp: load_admin_token_def collect_clean outcome_ops split: option.splits)

text \<open>Numbers stay within the width of their type.\<close>

lemma parse_digits_bound: "parse_digits most acc s = Ok n \<Longrightarrow> acc \<le> most \<Longrightarrow> n \<le> most"
  by (induction most acc s rule: parse_digits.induct) (auto split: if_splits)

lemma parse_uint_bound: "parse_uint most s = Ok n \<Longrightarrow> n \<le> most"
  by (auto simp: parse_uint_def intro: parse_digits_bound split: if_splits)

lemma positive_var_Ok: "positive_var lookup most var d = Ok n \<Longrightarrow> 0 < n \<and> n \<le> most"
  by (auto simp: positive_var_def parse_or_default_def outcome_ops dest: parse_uint_bound split: if_splits)

lemma min_balance_var_Ok: "min_balance_var cl lookup = Ok v \<Longrightarrow> \<exists>x \<ge> 0. v = Fin x"
proof -
  assume "min_balance_var cl lookup = Ok v"
  then obtain w where "(case w of Fin x \<Rightarrow> if x < 0 then Err (InvalidVar ''MIN_KEEPER_BALANCE_XLM''
      (''must be a finite, non-negative number, got '' @ cl_float cl w)) else Ok w
    | _ \<Rightarrow> Err (InvalidVar ''MIN_KEEPER_BALANCE_XLM''
      (''must be a finite, non-negative number, got '' @ cl_float cl w))) = Ok v"
    unfolding min_balance_var_def bind_outcome_Ok_iff by blast
  then show ?thesis by (cases w) (auto split: if_splits)
qed

definition valid_limits :: "limits \<Rightarrow> bool" where
  "valid_limits lm \<longleftrightarrow> (case lm_min_balance lm of Fin x \<Rightarrow> 0 \<le> x | _ \<Rightarrow> False)
     \<and> lm_set_prices_tx_fee lm \<in> {0<..u32_max} \<and> lm_keeper_tx_fee lm \<in> {0<..u32_max}
     \<and> lm_price_loop_ms lm \<in> {0<..u64_max} \<and> lm_keeper_loop_ms lm \<in> {0<..u64_max}"

lemma load_limits_clean [clean]: "load_limits cl lookup es = Some (lm, []) \<Longrightarrow> es = [] \<and> valid_limits lm"
  by (auto simp: load_limits_def valid_limits_def Option.bind_eq_Some_conv collect_clean
      dest!: positive_var_Ok min_balance_var_Ok)

definition hex_key :: "config_lib \<Rightarrow> nat \<Rightarrow> string \<Rightarrow> bool" where
  "hex_key cl n key \<longleftrightarrow> (case cl_hex_decode cl key of Ok bytes \<Rightarrow> length bytes = n | _ \<Rightarrow> False)"

definition strkey :: "char \<Rightarrow> string \<Rightarrow> bool" where
  "strkey c key \<longleftrightarrow> length key = 56 \<and> key \<noteq> [] \<and> hd key = c \<and> list_all is_base32_char key"

lemma validate_hex_key_Ok: "validate_hex_key cl var n raw = Ok v \<Longrightarrow> v = raw \<and> hex_key cl n raw"
  by (auto simp: validate_hex_key_def hex_key_def outcome_ops split: if_splits)

lemma bad_base32_None: "bad_base32 s = None \<longleftrightarrow> list_all is_base32_char s"
proof -
  have "bad_base32 s = None \<longleftrightarrow> dropWhile is_base32_char s = []" 
    by (simp add: bad_base32_def del: dropWhile_eq_Nil_conv split: list.splits)
  then show ?thesis by (simp add: dropWhile_eq_Nil_conv list_all_iff)
qed

lemma validate_strkey_Ok: "validate_strkey var c raw = Ok v \<Longrightarrow> v = raw \<and> strkey c raw"
  by (cases raw) (auto simp: validate_strkey_def strkey_def starts_with_def bad_base32_None split: if_splits option.splits)

definition valid_keys :: "config_lib \<Rightarrow> keeper_keys \<Rightarrow> bool" where
  "valid_keys cl keys \<longleftrightarrow> hex_key cl 32 (kk_private_key keys) \<and> strkey (CHR ''S'') (kk_secret_key keys)
     \<and> strkey (CHR ''G'') (kk_account_id keys) \<and> kk_index keys \<le> u32_max"

lemma load_keys_clean [clean]: "load_keys cl lookup es = Some (keys, []) \<Longrightarrow> es = [] \<and> valid_keys cl keys"
  by (auto simp: load_keys_def valid_keys_def Option.bind_eq_Some_conv collect_clean clean parse_or_default_def outcome_ops
      dest!: load_validated_clean validate_hex_key_Ok validate_strkey_Ok dest: parse_uint_bound)

text \<open>The roles are distinct, up to blanks around them.\<close>

lemma role_errors_Nil:
  "role_errors roles taken = [] \<Longrightarrow> \<forall>x \<in> set roles. trim (snd x) \<noteq> ''''
    \<Longrightarrow> distinct (map (trim \<circ> snd) roles) \<and> (\<forall>x \<in> set roles. taken (trim (snd x)) = None)"
  by (induction roles taken rule: role_errors.induct)
    (auto simp: Let_def image_iff split: option.splits if_splits)

section \<open>A loaded configuration\<close>

definition valid_roles :: "loaded \<Rightarrow> bool" where
  "valid_roles ld \<longleftrightarrow> (let c = ld_config ld; roles = map trim [cf_oracle_contract_id c, ld_role_store ld,
        cf_data_store_contract_id c, cf_order_handler_contract_id c, cf_deposit_handler_contract_id c,
        cf_withdrawal_handler_contract_id c, cf_reader_contract_id c]
     in distinct roles \<and> '''' \<notin> set roles)"

definition valid_config :: "config_lib \<Rightarrow> loaded \<Rightarrow> bool" where
  "valid_config cl ld \<longleftrightarrow> (let c = ld_config ld in
     (cf_network c, cf_network_passphrase c)
       \<in> {(''testnet'', TESTNET_PASSPHRASE), (''mainnet'', MAINNET_PASSPHRASE)}
     \<and> usable_feed cl (cf_tokens c) \<and> valid_roles ld
     \<and> valid_keys cl \<lparr>kk_private_key = cf_keeper_private_key c, kk_secret_key = cf_keeper_secret_key c,
          kk_account_id = cf_keeper_account_id c, kk_index = cf_keeper_index c\<rparr>
     \<and> valid_limits \<lparr>lm_min_balance = cf_min_keeper_balance_xlm c, lm_set_prices_tx_fee = cf_set_prices_tx_fee c,
          lm_keeper_tx_fee = cf_keeper_tx_fee c, lm_price_loop_ms = cf_price_loop_interval_ms c,
          lm_keeper_loop_ms = cf_keeper_loop_interval_ms c\<rparr>
     \<and> (case cf_admin_api_token c of None \<Rightarrow> True
          | Some t \<Rightarrow> MIN_ADMIN_API_TOKEN_LEN \<le> char_count (trim t) \<and> trim t \<noteq> ADMIN_API_TOKEN_PLACEHOLDER))"

lemma contract_roles_valid:
  assumes "role_errors (contract_roles oracle_id ids) Map.empty = []" and "trim oracle_id \<noteq> ''''"
    and "load_contracts lookup es = Some (ids, [])"
  shows "distinct (map (trim \<circ> snd) (contract_roles oracle_id ids))
    \<and> '''' \<notin> set (map (trim \<circ> snd) (contract_roles oracle_id ids))"
proof -
  have "\<forall>x \<in> set (contract_roles oracle_id ids). trim (snd x) \<noteq> ''''"
    using assms(2,3) by (simp add: contract_roles_def load_contracts_clean nonblank_Some)
  with role_errors_Nil [OF assms(1) this] show ?thesis by force
qed

lemma load_all_clean:
  assumes "load_all cl lookup es = Some (ld, [])"
  obtains network ep oracle_id tokens ids keys admin_token lm where
    "es = []" "load_endpoints lookup network [] = Some (ep, [])" "load_oracle_id lookup network [] = Some (oracle_id, [])"
    "load_price_feed_config cl (lookup ''PRICE_FEED_CONFIG'') = Ok tokens"
    "load_contracts lookup [] = Some (ids, [])" "load_keys cl lookup [] = Some (keys, [])"
    "load_admin_token lookup [] = Some (admin_token, [])" "load_limits cl lookup [] = Some (lm, [])"
    "role_errors (contract_roles oracle_id ids) Map.empty = []" "ld_role_store ld = ci_role_store ids"
    "ld_config ld = build_config network ep oracle_id tokens ids keys admin_token (nonblank (lookup ''PYTH_API_KEY'')) lm"
proof -
  from assms obtain network es1 bind_addr es2 ep es3 oracle_id es4 tokens es5 ids es6 keys es7 admin_token es8 lm es9 where
    steps: "collect (parse_network (value_or ''testnet'' (lookup ''STELLAR_NETWORK''))) Testnet es = Some (network, es1)"
      "collect (parse_or_default lookup (cl_socket_addr cl) ''BIND_ADDR'' DEFAULT_BIND_ADDR) DEFAULT_BIND_ADDR es1
        = Some (bind_addr, es2)"
      "load_endpoints lookup network es2 = Some (ep, es3)" "load_oracle_id lookup network es3 = Some (oracle_id, es4)"
      "collect (map_err TokenConfigError (load_price_feed_config cl (lookup ''PRICE_FEED_CONFIG''))) [] es4
        = Some (tokens, es5)"
      "load_contracts lookup es5 = Some (ids, es6)" "load_keys cl lookup es6 = Some (keys, es7)"
      "load_admin_token lookup es7 = Some (admin_token, es8)" "load_limits cl lookup es8 = Some (lm, es9)"
    and roles: "es9 = []" "role_errors (contract_roles oracle_id ids) Map.empty = []"
    and ld: "ld_role_store ld = ci_role_store ids" "ld_config ld
      = build_config network ep oracle_id tokens ids keys admin_token (nonblank (lookup ''PYTH_API_KEY'')) lm"
    by (auto simp: load_all_def Option.bind_eq_Some_conv)
  have 8: "es8 = []" using steps(9) roles(1) load_limits_clean by blast
  have 7: "es7 = []" using steps(8) 8 load_admin_token_clean by blast
  have 6: "es6 = []" using steps(7) 7 load_keys_clean by blast
  have 5: "es5 = []" using steps(6) 6 load_contracts_clean by blast
  have 4: "es4 = []" "load_price_feed_config cl (lookup ''PRICE_FEED_CONFIG'') = Ok tokens"
    using steps(5) 5 by (simp_all add: collect_clean outcome_ops)
  have 3: "es3 = []" using steps(4) 4 load_oracle_id_clean by blast
  have 2: "es2 = []" using steps(3) 3 load_endpoints_clean by blast
  have "es1 = []" using steps(2) 2 by (simp add: collect_clean)
  then have "es = []" using steps(1) by (simp add: collect_clean)
  with that show ?thesis using steps 2 3 4 5 6 7 8 roles ld by blast
qed

text \<open>
  C19: Every configuration that the service starts with is valid: a usable token list, seven
  distinct contracts, keys of the right shape, amounts and intervals positive and within the width
  of their type, a finite non-negative balance floor, and an admin token that is neither short nor
  the documented placeholder, whatever the environment.
\<close>

theorem loaded_config_valid:
  assumes "from_lookup cl lookup = Ok ld"
  shows "valid_config cl ld"
proof -
  from assms have "load_all cl lookup [] = Some (ld, [])"
    by (auto simp: from_lookup_def split: option.splits prod.splits if_splits)
  then obtain network ep oracle_id tokens ids keys admin_token lm where
    all: "load_endpoints lookup network [] = Some (ep, [])" "load_oracle_id lookup network [] = Some (oracle_id, [])"
      "load_price_feed_config cl (lookup ''PRICE_FEED_CONFIG'') = Ok tokens"
      "load_contracts lookup [] = Some (ids, [])" "load_keys cl lookup [] = Some (keys, [])"
      "load_admin_token lookup [] = Some (admin_token, [])" "load_limits cl lookup [] = Some (lm, [])"
      "role_errors (contract_roles oracle_id ids) Map.empty = []" "ld_role_store ld = ci_role_store ids"
    and ld: "ld_config ld
      = build_config network ep oracle_id tokens ids keys admin_token (nonblank (lookup ''PYTH_API_KEY'')) lm"
    by (rule load_all_clean)
  have "trim oracle_id \<noteq> ''''" using all(2) load_oracle_id_clean by blast
  from contract_roles_valid [OF all(8) this all(4)] have roles: "valid_roles ld"
    by (simp add: valid_roles_def ld build_config_def all(9) contract_roles_def Let_def)
  have "validate_admin_api_token token = Ok ()" if "admin_token = Some token" for token
    using load_admin_token_clean [OF all(6)] that by blast
  then have "case admin_token of None \<Rightarrow> True
      | Some t \<Rightarrow> MIN_ADMIN_API_TOKEN_LEN \<le> char_count (trim t) \<and> trim t \<noteq> ADMIN_API_TOKEN_PLACEHOLDER"
    by (auto simp: validate_admin_api_token_def check_iff split: option.splits)
  moreover have "usable_feed cl tokens" using all(3) by (simp add: load_price_feed_config_def check_iff)
  moreover have "valid_keys cl keys" "valid_limits lm" using load_keys_clean [OF all(5)] load_limits_clean [OF all(7)] by simp_all
  moreover have "(network_name network, ep_passphrase ep)
      \<in> {(''testnet'', TESTNET_PASSPHRASE), (''mainnet'', MAINNET_PASSPHRASE)}"
    using load_endpoints_clean [OF all(1)] by (cases network) (simp_all add: network_name_def)
  ultimately show ?thesis using roles
    by (simp add: valid_config_def ld build_config_def Let_def valid_keys_def valid_limits_def)
qed

text \<open>A sample environment, with the one fixed-price token.\<close>

definition sample_lib :: config_lib where
  "sample_lib = \<lparr>cl_tokens = \<lambda>_. Ok [fixed_token\<lparr>tc_stellar_address := ''CTOKEN''\<rparr>], cl_bundled = ''[]'',
     cl_contract = \<lambda>s. starts_with s ''C'', cl_hex_decode = \<lambda>s. Ok (take (length s div 2) s),
     cl_socket_addr = Ok, cl_float = \<lambda>_. ''''\<rparr>"

definition sample_env :: lookup where
  "sample_env = map_of [(''ORACLE'', ''CA''), (''ROLE_STORE'', ''CB''), (''DATA_STORE'', ''CC''),
     (''ORDER_HANDLER'', ''CD''), (''DEPOSIT_HANDLER'', ''CE''), (''WITHDRAWAL_HANDLER'', ''CF''), (''READER'', ''CG''),
     (''KEEPER_PRIVATE_KEY'', replicate 64 (CHR ''0'')), (''KEEPER_SECRET_KEY'', CHR ''S'' # replicate 55 (CHR ''A'')),
     (''KEEPER_ACCOUNT_ID'', CHR ''G'' # replicate 55 (CHR ''A'')), (''MIN_KEEPER_BALANCE_XLM'', ''0''),
     (''SET_PRICES_TX_FEE'', ''100''), (''KEEPER_TX_FEE'', ''200''), (''PRICE_LOOP_MS'', ''500''),
     (''KEEPER_LOOP_MS'', ''600'')]"

definition reader :: "string option \<Rightarrow> lookup" where
  "reader x = sample_env(''READER'' := x)"

lemma sample_positive:
  "positive_var (reader x) u32_max ''SET_PRICES_TX_FEE'' 1000000 = Ok 100"
  "positive_var (reader x) u32_max ''KEEPER_TX_FEE'' 2000000 = Ok 200"
  "positive_var (reader x) u64_max ''PRICE_LOOP_MS'' 1000 = Ok 500"
  "positive_var (reader x) u64_max ''KEEPER_LOOP_MS'' 1500 = Ok 600"
  by (simp_all add: positive_var_def parse_or_default_def reader_def sample_env_def nonblank_def value_or_def trim_def is_space_def
      parse_uint_def is_digit_def digit_val_def u32_max_def u64_max_def)

lemma sample_float: "parse_f64 ''0'' = Ok (Fin 0)"
  by (simp add: parse_f64_def split_sign_def to_lowercase_def lower_char_def is_upper_def parse_f64_number_def
      is_digit_def f64_decimal_def digits_val_def digit_val_def parse_exponent_def round64_Fin Let_def)

lemma sample_balance: "min_balance_var sample_lib (reader x) = Ok (Fin 0)"
  by (simp add: min_balance_var_def parse_or_default_def reader_def sample_env_def nonblank_def value_or_def trim_def is_space_def
      sample_float)

lemma sample_keys: "\<exists>keys. \<forall>x es. load_keys sample_lib (reader x) es = Some (keys, es)"
proof -
  let ?s = "CHR ''S'' # replicate 55 (CHR ''A'')" and ?g = "CHR ''G'' # replicate 55 (CHR ''A'')"
    and ?h = "replicate 64 (CHR ''0'')"
  have "\<And>x. nonblank (reader x ''KEEPER_SECRET_KEY'') = Some ?s" "\<And>x. nonblank (reader x ''KEEPER_ACCOUNT_ID'') = Some ?g"
    "\<And>x. nonblank (reader x ''KEEPER_PRIVATE_KEY'') = Some ?h" "\<And>x. nonblank (reader x ''KEEPER_INDEX'') = None"
    by (simp_all add: reader_def sample_env_def nonblank_def trim_def is_space_def numeral_eq_Suc)
  moreover have "bad_base32 ?s = None" "bad_base32 ?g = None"
    by (simp_all add: bad_base32_None list_all_iff is_base32_char_def is_upper_def)
  then have "validate_strkey ''KEEPER_SECRET_KEY'' (CHR ''S'') ?s = Ok ?s"
    "validate_strkey ''KEEPER_ACCOUNT_ID'' (CHR ''G'') ?g = Ok ?g"
    "validate_hex_key sample_lib ''KEEPER_PRIVATE_KEY'' 32 ?h = Ok ?h"
    by (simp_all add: validate_strkey_def validate_hex_key_def sample_lib_def starts_with_def)
  moreover have "parse_uint u32_max ''0'' = Ok 0"
    by (simp add: parse_uint_def is_digit_def digit_val_def u32_max_def)
  ultimately show ?thesis
    by (simp add: load_keys_def load_validated_def required_def collect_def parse_or_default_def value_or_def)
qed

text \<open>Loading depends on the reader alone.\<close>

lemma sample_loads:
  "\<exists>f. \<forall>x ids es. load_contracts (reader x) [] = Some (ids, es)
    \<longrightarrow> load_all sample_lib (reader x) [] = Some (f ids, es @ role_errors (contract_roles ''CA'' ids) Map.empty)
      \<and> ld_role_store (f ids) = ci_role_store ids"
proof -
  obtain keys where keys: "\<And>x es. load_keys sample_lib (reader x) es = Some (keys, es)" using sample_keys by blast
  have tokens: "load_price_feed_config sample_lib None = Ok [fixed_token\<lparr>tc_stellar_address := ''CTOKEN''\<rparr>]"
    by code_simp
  have vars: "reader x ''PRICE_FEED_CONFIG'' = None" "reader x ''STELLAR_NETWORK'' = None" "reader x ''BIND_ADDR'' = None"
    "reader x ''STELLAR_RPC_URL'' = None" "reader x ''HORIZON_URL'' = None" "reader x ''ADMIN_API_TOKEN'' = None"
    "reader x ''PYTH_API_KEY'' = None" "reader x ''ORACLE'' = Some ''CA''" "reader x ''ORACLE_CONTRACT_ID'' = None" for x
    by (simp_all add: reader_def sample_env_def)
  have oid: "load_oracle_id (reader x) Testnet [] = Some (''CA'', [])" for x
    by (simp add: load_oracle_id_def required_any_def vars nonblank_def trim_def is_space_def collect_def)
  have lm: "load_limits sample_lib (reader x) es = Some (\<lparr>lm_min_balance = Fin 0, lm_set_prices_tx_fee = 100,
      lm_keeper_tx_fee = 200, lm_price_loop_ms = 500, lm_keeper_loop_ms = 600\<rparr>, es)" for x es
    by (simp add: load_limits_def sample_positive sample_balance collect_def)
  have other: "parse_network ''testnet'' = Ok Testnet" "load_admin_token (reader x) es = Some (None, es)"
    "load_endpoints (reader x) Testnet [] = Some (\<lparr>ep_passphrase = TESTNET_PASSPHRASE, ep_rpc_url = TESTNET_RPC_URL,
       ep_horizon_url = DEFAULT_TESTNET_HORIZON_URL\<rparr>, [])"
    "parse_or_default (reader x) (cl_socket_addr sample_lib) ''BIND_ADDR'' DEFAULT_BIND_ADDR = Ok DEFAULT_BIND_ADDR" for x es
    by (simp_all add: parse_network_def load_admin_token_def load_endpoints_def vars nonblank_def value_or_def collect_def
        parse_or_default_def sample_lib_def)
  show ?thesis
    by (rule exI [where x = "\<lambda>ids. \<lparr>ld_bind_addr = DEFAULT_BIND_ADDR, ld_role_store = ci_role_store ids,
         ld_config = build_config Testnet \<lparr>ep_passphrase = TESTNET_PASSPHRASE, ep_rpc_url = TESTNET_RPC_URL,
           ep_horizon_url = DEFAULT_TESTNET_HORIZON_URL\<rparr> ''CA'' [fixed_token\<lparr>tc_stellar_address := ''CTOKEN''\<rparr>] ids keys
           None None \<lparr>lm_min_balance = Fin 0, lm_set_prices_tx_fee = 100, lm_keeper_tx_fee = 200,
           lm_price_loop_ms = 500, lm_keeper_loop_ms = 600\<rparr>\<rparr>"])
      (simp add: load_all_def vars value_or_def nonblank_def other oid tokens keys lm collect_def [of "Ok _"])
qed

definition sample_ids :: "string \<Rightarrow> contract_ids" where
  "sample_ids r = \<lparr>ci_role_store = ''CB'', ci_data_store = ''CC'', ci_order_handler = ''CD'',
     ci_deposit_handler = ''CE'', ci_withdrawal_handler = ''CF'', ci_reader = r\<rparr>"

lemma sample_contracts:
  "load_contracts (reader (Some ''CG'')) [] = Some (sample_ids ''CG'', [])"
  "load_contracts (reader None) [] = Some (sample_ids '''', [MissingVar ''READER''])"
  "role_errors (contract_roles ''CA'' (sample_ids ''CG'')) Map.empty = []"
  by code_simp+

lemma sample_results:
  "\<exists>ld. from_lookup sample_lib (reader (Some ''CG'')) = Ok ld" "\<exists>es. from_lookup sample_lib (reader None) = Err es"
  using sample_loads sample_contracts by (fastforce simp: from_lookup_def)+

theorem loaded_config_valid_witness:
  "\<exists>ld. from_lookup sample_lib (reader (Some ''CG'')) = Ok ld \<and> valid_config sample_lib ld"
  using sample_results(1) loaded_config_valid [where cl = sample_lib and lookup = "reader (Some ''CG'')"] by blast

text \<open>
  C20: The token list is accepted exactly when it decodes (the bundled one when the variable is not
  set) and is usable as a whole: not empty; symbols, lookup keys and the identifiers at each market
  unique; every source known and provided with what it needs, none twice; every range kept; and
  between one and all of the sources required.
\<close>

theorem token_list_accepted_iff:
  "load_price_feed_config cl raw = Ok tokens
    \<longleftrightarrow> cl_tokens cl (value_or (cl_bundled cl) raw) = Ok tokens \<and> usable_feed cl tokens"
  by (simp add: load_price_feed_config_def check_iff value_or_def)

section \<open>Sources of an accepted token\<close>

definition setup_error :: "price_source_error \<Rightarrow> bool" where
  "setup_error e \<longleftrightarrow> (case e of
       SourceUnsupported _ \<Rightarrow> True
     | SourceFixed _ \<Rightarrow> True
     | SourceConfig msg \<Rightarrow> msg \<in> {''missing binance_symbol'', ''missing coinbase_symbol'', ''missing pyth_feed_id''}
     | _ \<Rightarrow> False)"

lemma binance_no_setup_error:
  "tc_binance_symbol token = Some s \<Longrightarrow> fst (fetch_binance S token batch now w) = Err e \<Longrightarrow> \<not> setup_error e"
  by (auto simp: fetch_binance_def setup_error_def bind_action_def map_err_action_def return_action_def outcome_ops
      split: option.splits prod.splits outcome.splits price_source_error.splits)

text \<open>
  C21: A source configured for an accepted token never fails for a reason that lies in the
  configuration: no unsupported source, no missing symbol or feed, no unreadable fixed price.
\<close>

theorem accepted_sources_ask:
  assumes "load_price_feed_config cl raw = Ok tokens" and "token \<in> set tokens" and "source \<in> set (tc_sources token)"
    and "fst (fetch_source_price S F token batch source w) = Err e"
  shows "\<not> setup_error e"
proof -
  have "usable_source token source"
    using assms(1-3) by (auto simp: load_price_feed_config_def check_iff usable_feed_def usable_token_def list_all_iff)
  then show ?thesis
    using assms(4)
    by (auto simp: usable_source_def fetch_source_price_def fetch_coinbase_def fetch_pyth_def setup_error_def is_ok_def
        claim_of_def bind_action_def map_err_action_def return_action_def outcome_ops
        dest: binance_no_setup_error
        split: option.splits prod.splits outcome.splits price_source_error.splits if_splits)
qed

definition market_token :: token_config where
  "market_token = fixed_token\<lparr>tc_stellar_address := ''CTOKEN'', tc_sources := [''binance''],
     tc_binance_symbol := Some ''BTCUSDT''\<rparr>"

theorem accepted_sources_ask_witness:
  "fst (fetch_source_price fixed_system plain market_token (no_batch\<lparr>ba_binance := Some Map.empty\<rparr>) ''binance'' ([], 0, 0))
     = Err (SourceConfig (''binance symbol not returned in batch: '' @ ''BTCUSDT''))
   \<and> \<not> setup_error (SourceConfig (''binance symbol not returned in batch: '' @ ''BTCUSDT''))"
proof -
  let ?lib = "sample_lib\<lparr>cl_tokens := \<lambda>_. Ok [market_token]\<rparr>"
  have "load_price_feed_config ?lib None = Ok [market_token]" by code_simp
  moreover have "fst (fetch_source_price fixed_system plain market_token (no_batch\<lparr>ba_binance := Some Map.empty\<rparr>)
      ''binance'' ([], 0, 0)) = Err (SourceConfig (''binance symbol not returned in batch: '' @ ''BTCUSDT''))"
    by (simp add: fetch_source_price_def fixed_system_def sample_system_def current_timestamp_secs_def script_env_def
        fetch_binance_def market_token_def return_action_def)
  ultimately show ?thesis
    using accepted_sources_ask [of ?lib None "[market_token]" market_token "''binance''" fixed_system plain]
    by (simp add: market_token_def)
qed

section \<open>Missing variables\<close>

definition blank :: "lookup \<Rightarrow> string \<Rightarrow> bool" where
  "blank lookup var \<longleftrightarrow> nonblank (lookup var) = None"

definition missing_of :: "env_error list \<Rightarrow> string list" where
  "missing_of es = concat (map (\<lambda>e. case e of MissingVar v \<Rightarrow> [v] | _ \<Rightarrow> []) es)"

definition required_vars :: "string list" where
  "required_vars = [''ROLE_STORE'', ''DATA_STORE'', ''ORDER_HANDLER'', ''DEPOSIT_HANDLER'', ''WITHDRAWAL_HANDLER'',
     ''READER'', ''KEEPER_PRIVATE_KEY'', ''KEEPER_SECRET_KEY'', ''KEEPER_ACCOUNT_ID'']"

definition network_missing :: "lookup \<Rightarrow> string list" where
  "network_missing lookup =
     (if lookup ''STELLAR_NETWORK'' = Some ''mainnet''
      then filter (blank lookup) [''STELLAR_RPC_URL'', ''ORACLE_CONTRACT_ID'']
      else if blank lookup ''ORACLE_CONTRACT_ID'' \<and> blank lookup ''ORACLE''
      then [''ORACLE_CONTRACT_ID'' @ apostrophe @ '' (or fallback alias '' @ quoted ''ORACLE'' @ '')''] else [])"

named_theorems missing \<open>the variables a step reports missing\<close>

lemma missing_of_simps [missing]:
  "missing_of [] = []" "missing_of (es @ ds) = missing_of es @ missing_of ds"
  "missing_of [MissingVar v] = [v]" "missing_of [InvalidVar v reason] = []" "missing_of [TokenConfigError c] = []"
  by (simp_all add: missing_of_def)

lemma collect_required [missing]:
  "collect (required lookup var) d es = Some (v, es')
    \<Longrightarrow> missing_of es' = missing_of es @ filter (blank lookup) [var]"
  by (auto simp: collect_def required_def blank_def missing outcome_ops split: outcome.splits)

text \<open>A check of a value that is there reports nothing missing.\<close>

definition never_missing :: "(env_error, 'a) outcome \<Rightarrow> bool" where
  "never_missing r \<longleftrightarrow> (case r of Err (MissingVar _) \<Rightarrow> False | _ \<Rightarrow> True)"

lemma collect_never_missing: "never_missing r \<Longrightarrow> collect r d es = Some (v, es') \<Longrightarrow> missing_of es' = missing_of es"
  by (auto simp: collect_def never_missing_def missing split: outcome.splits env_error.splits)

lemma never_missing_checks:
  "never_missing (map_err (InvalidVar var) p)" "never_missing (map_err TokenConfigError q)"
  "never_missing (parse_or_default lookup parse var d)" "never_missing (parse_network s)"
  "never_missing (validate_strkey var c raw)" "never_missing (validate_hex_key cl var n raw)"
  "never_missing (positive_var lookup most var d')" "never_missing (min_balance_var cl lookup)"
  by (auto simp: never_missing_def parse_or_default_def parse_network_def validate_strkey_def validate_hex_key_def
      positive_var_def min_balance_var_def outcome_ops
      split: outcome.splits env_error.splits option.splits f64.splits if_splits)

lemma load_contracts_missing:
  "load_contracts lookup es = Some (ids, es')
    \<Longrightarrow> missing_of es' = missing_of es @ filter (blank lookup) [''ROLE_STORE'', ''DATA_STORE'', ''ORDER_HANDLER'',
      ''DEPOSIT_HANDLER'', ''WITHDRAWAL_HANDLER'', ''READER'']"
  by (auto simp: load_contracts_def Option.bind_eq_Some_conv dest!: collect_required split: if_splits)

lemma load_validated_missing:
  assumes "load_validated lookup var validate es = Some (v, es')" and "\<And>raw. never_missing (validate raw)"
  shows "missing_of es' = missing_of es @ filter (blank lookup) [var]"
  using assms
  by (auto simp: load_validated_def Option.bind_eq_Some_conv dest!: collect_required
      dest: collect_never_missing [OF assms(2)] split: if_splits)

lemma load_keys_missing:
  "load_keys cl lookup es = Some (keys, es')
    \<Longrightarrow> missing_of es' = missing_of es @ filter (blank lookup) [''KEEPER_PRIVATE_KEY'', ''KEEPER_SECRET_KEY'', ''KEEPER_ACCOUNT_ID'']"
  by (auto simp: load_keys_def Option.bind_eq_Some_conv split: if_splits
      dest!: load_validated_missing [OF _ never_missing_checks(5)] load_validated_missing [OF _ never_missing_checks(6)]
        collect_never_missing [OF never_missing_checks(3)])

lemma load_limits_missing: "load_limits cl lookup es = Some (lm, es') \<Longrightarrow> missing_of es' = missing_of es"
  by (auto simp: load_limits_def Option.bind_eq_Some_conv
      dest!: collect_never_missing [OF never_missing_checks(7)] collect_never_missing [OF never_missing_checks(8)])

lemma load_admin_token_missing: "load_admin_token lookup es = Some (v, es') \<Longrightarrow> missing_of es' = missing_of es"
  unfolding load_admin_token_def
  by (rule collect_never_missing [rotated], assumption)
    (auto simp: never_missing_def outcome_ops split: option.splits outcome.splits env_error.splits)

lemma missing_of_Cons: "missing_of (InvalidVar v reason # es) = missing_of es"
  by (simp add: missing_of_def)

lemma role_errors_missing: "missing_of (role_errors roles taken) = []"
  by (induction roles taken rule: role_errors.induct)
    (simp_all add: Let_def missing missing_of_Cons del: fun_upd_apply split: option.splits)

lemma load_endpoints_missing:
  "load_endpoints lookup network es = Some (ep, es')
    \<Longrightarrow> missing_of es' = missing_of es @ (if network = Mainnet then filter (blank lookup) [''STELLAR_RPC_URL''] else [])"
  by (cases network) (auto simp: load_endpoints_def Option.bind_eq_Some_conv dest!: collect_required)

lemma load_oracle_id_missing:
  "load_oracle_id lookup network es = Some (v, es') \<Longrightarrow> missing_of es' = missing_of es
    @ (if network = Mainnet then filter (blank lookup) [''ORACLE_CONTRACT_ID'']
       else if blank lookup ''ORACLE_CONTRACT_ID'' \<and> blank lookup ''ORACLE''
       then [''ORACLE_CONTRACT_ID'' @ apostrophe @ '' (or fallback alias '' @ quoted ''ORACLE'' @ '')''] else [])"
proof (cases network)
  case Testnet
  assume "load_oracle_id lookup network es = Some (v, es')"
  then show ?thesis using Testnet
    by (cases "nonblank (lookup ''ORACLE_CONTRACT_ID'')"; cases "nonblank (lookup ''ORACLE'')")
      (auto simp: load_oracle_id_def required_any_def collect_def blank_def missing)
qed (auto simp: load_oracle_id_def dest!: collect_required)

lemma load_network_missing:
  assumes "collect (parse_network (value_or ''testnet'' (lookup ''STELLAR_NETWORK''))) Testnet es = Some (network, es1)"
    and "load_endpoints lookup network es2 = Some (ep, es3)" and "load_oracle_id lookup network es3 = Some (v, es4)"
  shows "missing_of es4 = missing_of es2 @ network_missing lookup"
proof -
  have "network = Mainnet \<longleftrightarrow> lookup ''STELLAR_NETWORK'' = Some ''mainnet''"
    using assms(1) by (auto simp: collect_def parse_network_def value_or_def split: option.splits if_splits)
  then show ?thesis
    using load_endpoints_missing [OF assms(2)] load_oracle_id_missing [OF assms(3)] by (simp add: network_missing_def)
qed

text \<open>
  C22: A rejected environment is reported completely: the errors name, in the order they are read
  and once each, exactly the required variables that are blank or not set, so that one start
  shows all of them.
\<close>

theorem missing_variables_all_reported:
  assumes "from_lookup cl lookup = Err es"
  shows "missing_of es = network_missing lookup @ filter (blank lookup) required_vars"
proof -
  from assms obtain ld where "load_all cl lookup [] = Some (ld, es)"
    by (auto simp: from_lookup_def split: option.splits prod.splits if_splits)
  then obtain network es1 bind_addr es2 ep es3 oracle_id es4 tokens es5 ids es6 keys es7 admin_token es8 lm es9 where
    steps: "collect (parse_network (value_or ''testnet'' (lookup ''STELLAR_NETWORK''))) Testnet [] = Some (network, es1)"
      "collect (parse_or_default lookup (cl_socket_addr cl) ''BIND_ADDR'' DEFAULT_BIND_ADDR) DEFAULT_BIND_ADDR es1
        = Some (bind_addr, es2)"
      "load_endpoints lookup network es2 = Some (ep, es3)" "load_oracle_id lookup network es3 = Some (oracle_id, es4)"
      "collect (map_err TokenConfigError (load_price_feed_config cl (lookup ''PRICE_FEED_CONFIG''))) [] es4
        = Some (tokens, es5)"
      "load_contracts lookup es5 = Some (ids, es6)" "load_keys cl lookup es6 = Some (keys, es7)"
      "load_admin_token lookup es7 = Some (admin_token, es8)" "load_limits cl lookup es8 = Some (lm, es9)"
    and es: "es = es9 @ role_errors (contract_roles oracle_id ids) Map.empty"
    by (auto simp: load_all_def Option.bind_eq_Some_conv)
  have "missing_of es2 = []"
    using collect_never_missing [OF _ steps(1)] collect_never_missing [OF _ steps(2)]
    by (simp add: never_missing_checks missing)
  moreover have "missing_of es5 = missing_of es4"
    using collect_never_missing [OF _ steps(5)] by (simp add: never_missing_checks)
  ultimately show ?thesis
    using load_network_missing [OF steps(1,3,4)] load_contracts_missing [OF steps(6)] load_keys_missing [OF steps(7)]
      load_admin_token_missing [OF steps(8)] load_limits_missing [OF steps(9)]
    by (simp add: es missing role_errors_missing required_vars_def)
qed

theorem missing_variables_all_reported_witness:
  "\<exists>es. from_lookup sample_lib (reader None) = Err es
    \<and> missing_of es = network_missing (reader None) @ filter (blank (reader None)) required_vars
    \<and> ''READER'' \<in> set (missing_of es)"
proof -
  obtain es where es: "from_lookup sample_lib (reader None) = Err es" using sample_results(2) by blast
  have "blank (reader None) ''READER''" by (simp add: blank_def reader_def nonblank_def)
  then show ?thesis using es missing_variables_all_reported [OF es] by (simp add: required_vars_def)
qed

end
