(* ===== verification/Oracle_Http.thy ===== *)
theory Oracle_Http
  imports Oracle_Api
begin

text \<open>
  The routes and the middleware of the HTTP API (\<^verbatim>\<open>api/mod.rs\<close>): which handler answers a request and
  behind which guard, the measuring of requests, the headers, and the mapping of refused methods.
  The framework's own decisions are inputs: the matched path, the parts it extracts of a request,
  which methods a registered one covers, the cross-origin layer and the answer after a panic.
\<close>

section \<open>Requests and responses\<close>

text \<open>What the framework hands over: a query it cannot parse comes with its status and text.\<close>

record request =
  rr_method :: string
  rr_matched :: "string option"
  rr_client :: "string option"
  rr_authorization :: "string option"
  rr_key :: string
  rr_query :: "(u16 \<times> string, failures_query) outcome"

record health_response =
  hr_status :: string
  hr_version :: string

record clear_blacklist_response =
  cb_key :: string
  cb_cleared :: bool

text \<open>A body before it is serialised.\<close>

datatype answer =
    ErrorBody string
  | HealthBody health_response
  | PricesBody "cached_price list"
  | OracleStatusBody oracle_status_response
  | KeeperStatusBody keeper_status_response
  | BalanceBody keeper_balance_response
  | ClearedBody clear_blacklist_response
  | MetricsBody string
  | FailuresBody failures_response
  | EmptyBody

record response =
  rp_status :: u16
  rp_headers :: "string \<rightharpoonup> string"
  rp_body :: answer

definition plain_response :: "u16 \<Rightarrow> answer \<Rightarrow> response" where
  "plain_response status body = \<lparr>rp_status = status, rp_headers = Map.empty, rp_body = body\<rparr>"

definition error_response :: "api_error \<Rightarrow> response" where
  "error_response e = plain_response (ae_status e) (ErrorBody (ae_message e))"

definition METHOD_NOT_ALLOWED :: u16 where "METHOD_NOT_ALLOWED = 405"

text \<open>The framework, and how a float prints.\<close>

record http_lib =
  hl_covers :: "string \<Rightarrow> string \<Rightarrow> bool"
  hl_preflight :: "request \<Rightarrow> response option"
  hl_cross_origin :: "request \<Rightarrow> response \<Rightarrow> response"
  hl_panicked :: response
  hl_version :: string
  hl_float :: "f64 \<Rightarrow> string"

section \<open>Routes\<close>

definition ADMIN_ROUTES :: "string list" where
  "ADMIN_ROUTES = [''/oracle/status'', ''/keeper/status'', ''/keeper/balance'', ''/keeper/blacklist/{key}'',
     ''/metrics'', ''/oracle/failed-submissions'']"

text \<open>The method a route is registered for.\<close>

definition route_method :: "string \<Rightarrow> string option" where
  "route_method path =
     (if path = ''/keeper/blacklist/{key}'' then Some ''DELETE''
      else if path \<in> {''/health'', ''/ready'', ''/prices''} \<union> set ADMIN_ROUTES then Some ''GET''
      else None)"

definition auth_request_of :: "request \<Rightarrow> auth_request" where
  "auth_request_of rq =
     \<lparr>ar_client = rr_client rq, ar_authorization = rr_authorization rq, ar_route = rr_matched rq\<rparr>"

definition health :: "http_lib \<Rightarrow> health_response" where
  "health lib = \<lparr>hr_status = ''ok'', hr_version = hl_version lib\<rparr>"

definition parse_failures_query :: "request \<Rightarrow> (api_error, failures_query) outcome" where
  "parse_failures_query rq = map_err (\<lambda>(status, msg). api_error_new status msg) (rr_query rq)"

text \<open>A handler that reads the state alone.\<close>

definition reading :: "(app_state \<Rightarrow> (api_error, 'a) outcome) \<Rightarrow> (app_state \<times> 'w, api_error, 'a) action" where
  "reading f = (\<lambda>(s, w). (f s, (s, w)))"

definition map_action :: "('a \<Rightarrow> 'b) \<Rightarrow> ('s, 'e, 'a) action \<Rightarrow> ('s, 'e, 'b) action" where
  "map_action f m = bind_action m (\<lambda>x. return_action (Ok (f x)))"

definition metrics_handler :: "http_lib \<Rightarrow> 'w system \<Rightarrow> (app_state \<times> 'w, api_error, string) action" where
  "metrics_handler lib S =
     (\<lambda>(s, w). case env_system (sy_env S) w of (t0, w1) \<Rightarrow>
        (Ok (metrics_page (hl_float lib) (card (dom (st_in_flight s))) (card (dom (st_blacklist s))) t0 s), (s, w1)))"

definition clear_handler :: "request \<Rightarrow> (app_state \<times> 'w, api_error, clear_blacklist_response) action" where
  "clear_handler rq =
     (\<lambda>(s, w). case clear_blacklisted_key (rr_key rq) s of (r, s') \<Rightarrow>
        (bind_outcome r (\<lambda>(key, cleared). Ok \<lparr>cb_key = key, cb_cleared = cleared\<rparr>), (s', w)))"

definition admin_handler :: "http_lib \<Rightarrow> 'w system \<Rightarrow> string \<Rightarrow> request \<Rightarrow> (app_state \<times> 'w, api_error, answer) action" where
  "admin_handler lib S path rq =
     (if path = ''/oracle/status'' then map_action OracleStatusBody (oracle_status S)
      else if path = ''/keeper/status''
      then map_action KeeperStatusBody (reading (\<lambda>s. Ok (keeper_status_report (\<lambda>_. s) s)))
      else if path = ''/keeper/balance'' then map_action BalanceBody (keeper_balance S)
      else if path = ''/keeper/blacklist/{key}'' then map_action ClearedBody (clear_handler rq)
      else if path = ''/metrics'' then map_action MetricsBody (metrics_handler lib S)
      else bind_action (return_action (parse_failures_query rq))
             (\<lambda>query. map_action FailuresBody (reading (\<lambda>s. Ok (failed_submissions query s)))))"

definition public_handler :: "http_lib \<Rightarrow> 'w system \<Rightarrow> string \<Rightarrow> (app_state \<times> 'w, api_error, answer) action" where
  "public_handler lib S path =
     (if path = ''/health'' then return_action (Ok (HealthBody (health lib)))
      else if path = ''/ready'' then map_action (\<lambda>_. HealthBody (health lib)) (ready S)
      else if path = ''/prices'' then map_action PricesBody (reading get_prices)
      else return_action (Err (api_error_new NOT_FOUND ''not_found'')))"

text \<open>The guard comes before the handler and before the query is parsed.\<close>

definition handler :: "http_lib \<Rightarrow> 'w system \<Rightarrow> string \<Rightarrow> request \<Rightarrow> (app_state \<times> 'w, api_error, answer) action" where
  "handler lib S path rq =
     (if path \<in> set ADMIN_ROUTES then bind_action (admin_auth S (auth_request_of rq)) (\<lambda>_. admin_handler lib S path rq)
      else public_handler lib S path)"

text \<open>\<^verbatim>\<open>CatchPanicLayer\<close> and \<^verbatim>\<open>IntoResponse\<close>: what a handler's result becomes.\<close>

definition METRICS_CONTENT_TYPE :: string where
  "METRICS_CONTENT_TYPE = ''text/plain; version=0.0.4; charset=utf-8''"

definition into_response :: "http_lib \<Rightarrow> (api_error, answer) outcome \<Rightarrow> response" where
  "into_response lib r =
     (case r of
        Ok (MetricsBody page) \<Rightarrow>
          (plain_response 200 (MetricsBody page))\<lparr>rp_headers := [''content-type'' \<mapsto> METRICS_CONTENT_TYPE]\<rparr>
      | Ok body \<Rightarrow> plain_response 200 body
      | Err e \<Rightarrow> error_response e
      | Panic \<Rightarrow> hl_panicked lib)"

text \<open>A route answers the methods its own covers, and refuses the others without a body.\<close>

definition run_route :: "http_lib \<Rightarrow> 'w system \<Rightarrow> string \<Rightarrow> request \<Rightarrow> app_state \<times> 'w \<Rightarrow> response \<times> (app_state \<times> 'w)" where
  "run_route lib S path rq sw =
     (case route_method path of
        Some meth \<Rightarrow>
          if hl_covers lib meth (rr_method rq)
          then (case handler lib S path rq sw of (r, sw') \<Rightarrow> (into_response lib r, sw'))
          else (plain_response METHOD_NOT_ALLOWED EmptyBody, sw)
      | None \<Rightarrow> (error_response (api_error_new NOT_FOUND ''not_found''), sw))"

text \<open>The public price feed is open to other origins; a preflight request is answered before the route.\<close>

definition dispatch :: "http_lib \<Rightarrow> 'w system \<Rightarrow> request \<Rightarrow> app_state \<times> 'w \<Rightarrow> response \<times> (app_state \<times> 'w)" where
  "dispatch lib S rq sw =
     (case rr_matched rq of
        None \<Rightarrow> (error_response (api_error_new NOT_FOUND ''not_found''), sw)
      | Some path \<Rightarrow>
          if path = ''/prices''
          then (case hl_preflight lib rq of
                  Some rp \<Rightarrow> (rp, sw)
                | None \<Rightarrow> (case run_route lib S path rq sw of (rp, sw') \<Rightarrow> (hl_cross_origin lib rq rp, sw')))
          else run_route lib S path rq sw)"

section \<open>Middleware\<close>

text \<open>\<^verbatim>\<open>track_metrics\<close>, before and after the handlers ran; a duration is reported in whole milliseconds.\<close>

record open_request =
  or_path :: string
  or_method :: string
  or_start :: instant

definition matched_path :: "request \<Rightarrow> string" where
  "matched_path rq = (case rr_matched rq of None \<Rightarrow> ''/unmatched'' | Some path \<Rightarrow> path)"

definition begin_request :: "'w system \<Rightarrow> request \<Rightarrow> app_state \<times> 'w \<Rightarrow> open_request \<times> (app_state \<times> 'w)" where
  "begin_request S rq =
     (\<lambda>(s, w). case env_instant (sy_env S) w of (start, w1) \<Rightarrow>
        (\<lparr>or_path = matched_path rq, or_method = rr_method rq, or_start = start\<rparr>,
         (s\<lparr>st_metrics := inc_http_in_flight (st_metrics s)\<rparr>, w1)))"

definition finish_request :: "'w system \<Rightarrow> open_request \<Rightarrow> u16 \<Rightarrow> app_state \<times> 'w \<Rightarrow> app_state \<times> 'w" where
  "finish_request S op status =
     (\<lambda>(s, w). case env_instant (sy_env S) w of (now, w1) \<Rightarrow>
        (s\<lparr>st_metrics := record_http_request (or_path op) (or_method op) status ((now - or_start op) div 1000000)
             (dec_http_in_flight (st_metrics s))\<rparr>, w1))"

definition track_metrics ::
  "'w system \<Rightarrow> request \<Rightarrow> (app_state \<times> 'w \<Rightarrow> response \<times> (app_state \<times> 'w)) \<Rightarrow> app_state \<times> 'w
    \<Rightarrow> response \<times> (app_state \<times> 'w)" where
  "track_metrics S rq next sw =
     (case begin_request S rq sw of (op, sw1) \<Rightarrow>
        (case next sw1 of (rp, sw2) \<Rightarrow> (rp, finish_request S op (rp_status rp) sw2)))"

definition set_no_store :: "response \<Rightarrow> response" where
  "set_no_store rp = rp\<lparr>rp_headers := (rp_headers rp)(''cache-control'' \<mapsto> ''no-store'')\<rparr>"

definition map_method_not_allowed :: "response \<Rightarrow> response" where
  "map_method_not_allowed rp =
     (if rp_status rp = METHOD_NOT_ALLOWED then plain_response METHOD_NOT_ALLOWED (ErrorBody ''method_not_allowed'')
      else rp)"

text \<open>The layers from the inside out: the last one added sees the request first.\<close>

definition serve :: "http_lib \<Rightarrow> 'w system \<Rightarrow> request \<Rightarrow> app_state \<times> 'w \<Rightarrow> response \<times> (app_state \<times> 'w)" where
  "serve lib S rq sw =
     (case track_metrics S rq (dispatch lib S rq) sw of
        (rp, sw') \<Rightarrow> (map_method_not_allowed (set_no_store rp), sw'))"

section \<open>Requests side by side\<close>

text \<open>
  The service handles requests concurrently: one may arrive while others wait in their handlers.
  The time limit, or a client that closes its connection, drops a request where it waits. The
  state carries the requests that are open, and how many were dropped.
\<close>

record traffic =
  tr_open :: "open_request list"
  tr_dropped :: nat

inductive http_step ::
  "http_lib \<Rightarrow> 'w system \<Rightarrow> traffic \<times> (app_state \<times> 'w) \<Rightarrow> traffic \<times> (app_state \<times> 'w) \<Rightarrow> bool"
  for lib S where
  arrive: "begin_request S rq sw = (op, sw')
    \<Longrightarrow> http_step lib S (tr, sw) (tr\<lparr>tr_open := op # tr_open tr\<rparr>, sw')"
| work: "dispatch lib S rq sw = (rp, sw') \<Longrightarrow> http_step lib S (tr, sw) (tr, sw')"
| respond: "i < length (tr_open tr) \<Longrightarrow> finish_request S (tr_open tr ! i) status sw = sw'
    \<Longrightarrow> http_step lib S (tr, sw) (tr\<lparr>tr_open := take i (tr_open tr) @ drop (Suc i) (tr_open tr)\<rparr>, sw')"
| dropped: "i < length (tr_open tr) \<Longrightarrow> http_step lib S (tr, sw)
    (tr\<lparr>tr_open := take i (tr_open tr) @ drop (Suc i) (tr_open tr), tr_dropped := tr_dropped tr + 1\<rparr>, sw)"

inductive serving :: "http_lib \<Rightarrow> 'w system \<Rightarrow> traffic \<times> (app_state \<times> 'w) \<Rightarrow> bool" for lib S where
  opened: "serving lib S (\<lparr>tr_open = [], tr_dropped = 0\<rparr>, (app_state_new, w))"
| served: "serving lib S x \<Longrightarrow> http_step lib S x y \<Longrightarrow> serving lib S y"

inductive_cases http_stepE: "http_step lib S x y"
inductive_simps serving_iff: "serving lib S x"

section \<open>Counters as a response\<close>

record metrics_response =
  ms_price_cycle_count :: u64
  ms_price_cycle_latency_ms :: u64
  ms_token_fetch_ok :: u64
  ms_token_fetch_failures :: u64
  ms_keeper_cycle_count :: u64
  ms_keeper_cycle_latency_ms :: u64
  ms_orders_executed :: u64
  ms_deposits_executed :: u64
  ms_withdrawals_executed :: u64
  ms_submit_failures :: u64
  ms_keeper_balance_low_count :: u64
  ms_prices_stale_count :: u64
  ms_last_metrics_update :: u64

definition to_response :: "metrics \<Rightarrow> metrics_response" where
  "to_response m =
     (let c = mt_counters m in
      \<lparr>ms_price_cycle_count = ct_price_cycle_count c, ms_price_cycle_latency_ms = ct_price_cycle_latency_ms c,
       ms_token_fetch_ok = ct_token_fetch_ok c, ms_token_fetch_failures = ct_token_fetch_failures c,
       ms_keeper_cycle_count = ct_keeper_cycle_count c, ms_keeper_cycle_latency_ms = ct_keeper_cycle_latency_ms c,
       ms_orders_executed = ct_orders_executed c, ms_deposits_executed = ct_deposits_executed c,
       ms_withdrawals_executed = ct_withdrawals_executed c, ms_submit_failures = ct_submit_failures c,
       ms_keeper_balance_low_count = ct_keeper_balance_low_count c, ms_prices_stale_count = ct_prices_stale_count c,
       ms_last_metrics_update = ct_last_metrics_update c\<rparr>)"

end
