(* ===== verification/Oracle_Http_Props.thy ===== *)
theory Oracle_Http_Props
  imports Oracle_Http Oracle_Reachable
begin

text \<open>
  Properties of the HTTP API as a whole: what a request can change, what it cannot without the
  admin token, the headers of every response, and the gauge of open requests.
\<close>

section \<open>What a handler keeps\<close>

text \<open>An action on the shared state keeps an observation of it.\<close>

definition keeps :: "(app_state \<Rightarrow> 'o) \<Rightarrow> (app_state \<times> 'w, 'e, 'a) action \<Rightarrow> bool" where
  "keeps f m \<longleftrightarrow> (\<forall>sw. f (fst (snd (m sw))) = f (fst sw))"

named_theorems keeping \<open>actions that keep an observation\<close>

lemma keeps_snd: "keeps f m \<Longrightarrow> f (fst (snd (m sw))) = f (fst sw)"
  unfolding keeps_def by (rule spec)

lemma keepsD: "keeps f m \<Longrightarrow> m (s, w) = (r, (s', w')) \<Longrightarrow> f s' = f s"
  unfolding keeps_def by (metis fst_conv snd_conv)

lemma keeps_after: "keeps f m \<Longrightarrow> m sw = (r, sw') \<Longrightarrow> f (fst sw') = f (fst sw)"
  unfolding keeps_def by (metis snd_conv)

lemma keeps_bind [keeping]:
  assumes "keeps f m" and "\<And>a. keeps f (g a)"
  shows "keeps f (bind_action m g)"
  unfolding keeps_def
proof
  fix sw
  obtain r sw1 where m: "m sw = (r, sw1)" by (cases "m sw")
  then have "f (fst sw1) = f (fst sw)" using assms(1) unfolding keeps_def by (metis snd_conv)
  then show "f (fst (snd (bind_action m g sw))) = f (fst sw)"
    using keeps_snd [OF assms(2)] m by (cases r) (simp_all add: bind_action_def)
qed

lemma keeps_return [keeping]: "keeps f (return_action x)"
  by (simp add: keeps_def return_action_def)

lemma keeps_reading [keeping]: "keeps f (reading g)"
  by (simp add: keeps_def reading_def split_beta)

lemma keeps_map_err [keeping]: "keeps f m \<Longrightarrow> keeps f (map_err_action g m)"
  by (simp add: keeps_def map_err_action_def split_beta)

lemma keeps_lift [keeping]: "keeps f (lift_snd m)"
  by (simp add: keeps_def lift_snd_def split_beta)

lemma keeps_map [keeping]: "keeps f m \<Longrightarrow> keeps f (map_action g m)"
  unfolding map_action_def by (intro keeping)

lemma keeps_probe: "(\<And>s b. f (s\<lparr>st_balance_below_min := b\<rparr>) = f s) \<Longrightarrow> keeps f (balance_probe S)"
  by (simp add: keeps_def balance_probe_def split_beta)

lemma keeps_retry:
  assumes "keeps f m"
  shows "keeps f (retry_with_backoff (lift_env env) retryable m n b mx)"
  unfolding keeps_def
proof
  fix sw
  have "f (fst (snd (retry_loop (lift_env env) retryable m mx k d sw))) = f (fst sw)" for k d
    by (rule retry_loop_invariant [where I = "\<lambda>x. f (fst x) = f (fst sw)"])
      (simp_all add: keeps_snd [OF assms] lift_env_def split_beta)
  then show "f (fst (snd (retry_with_backoff (lift_env env) retryable m n b mx sw))) = f (fst sw)"
    by (simp add: retry_with_backoff_def)
qed

lemma keeps_ready_probe:
  assumes "keeps f m"
  shows "keeps f (retry_ready_probe (lift_env env) m terminal)"
proof -
  have "f (fst (snd (ready_probe_loop (lift_env env) m terminal k n sw))) = f (fst sw)" for k n sw
  proof (induction n arbitrary: k sw)
    case (Suc n)
    obtain r sw1 where m: "m sw = (r, sw1)" by (cases "m sw")
    then have "f (fst sw1) = f (fst sw)" using assms unfolding keeps_def by (metis snd_conv)
    then show ?case using m Suc.IH by (cases r) (simp_all add: lift_env_def split_beta)
  qed simp
  then show ?thesis by (simp add: keeps_def retry_ready_probe_def)
qed

text \<open>Observations that no handler but the lifting of an abandonment touches.\<close>

definition aloof :: "(app_state \<Rightarrow> 'o) \<Rightarrow> bool" where
  "aloof f \<longleftrightarrow> (\<forall>s b. f (s\<lparr>st_balance_below_min := b\<rparr>) = f s) \<and> (\<forall>s c. f (s\<lparr>st_ready_cache := c\<rparr>) = f s)
     \<and> (\<forall>s l. f (s\<lparr>st_limiter := l\<rparr>) = f s)
     \<and> (\<forall>s r. f (s\<lparr>st_metrics := record_http_auth_failure r (st_metrics s)\<rparr>) = f s)"

lemma aloofD:
  "aloof f \<Longrightarrow> f (s\<lparr>st_balance_below_min := b\<rparr>) = f s"
  "aloof f \<Longrightarrow> f (s\<lparr>st_ready_cache := c\<rparr>) = f s"
  "aloof f \<Longrightarrow> f (s\<lparr>st_limiter := l\<rparr>) = f s"
  "aloof f \<Longrightarrow> f (s\<lparr>st_limiter := l, st_metrics := record_http_auth_failure r (st_metrics s)\<rparr>) = f s"
  by (simp_all add: aloof_def) (metis app_state.select_convs app_state.surjective app_state.update_convs)

lemma keeps_auth [keeping]: "aloof f \<Longrightarrow> keeps f (admin_auth S rq)"
  by (auto simp: aloofD keeps_def admin_auth_def Let_def split: option.splits prod.splits)

lemma keeps_balance [keeping]: "aloof f \<Longrightarrow> keeps f (retried_balance S)"
  unfolding retried_balance_def by (intro keeps_retry keeps_probe) (rule aloofD)

lemma keeps_keeper_balance [keeping]: "aloof f \<Longrightarrow> keeps f (keeper_balance S)"
proof -
  assume "aloof f"
  then have "keeps f (retried_balance S)" by (rule keeps_balance)
  from keeps_after [OF this] show ?thesis
    by (auto simp: keeps_def keeper_balance_def Let_def split: prod.splits outcome.splits rpc_error.splits)
qed

lemma keeps_oracle_status [keeping]: "aloof f \<Longrightarrow> keeps f (oracle_status S)"
proof -
  assume "aloof f"
  then have "keeps f (retried_balance S)" by (rule keeps_balance)
  from keeps_after [OF this] show ?thesis
    by (fastforce simp: keeps_def oracle_status_def Let_def split: prod.splits outcome.splits)
qed

lemma keeps_external_checks [keeping]: "aloof f \<Longrightarrow> keeps f (perform_external_ready_checks S)"
  unfolding perform_external_ready_checks_def by (intro keeping keeps_ready_probe keeps_probe) (rule aloofD)

lemma keeps_external_ready [keeping]: "aloof f \<Longrightarrow> keeps f (external_ready S)"
proof -
  assume u: "aloof f"
  then have "keeps f (perform_external_ready_checks S)" by (rule keeps_external_checks)
  from keeps_after [OF this] u show ?thesis
    by (fastforce simp: aloofD keeps_def external_ready_def split: prod.splits outcome.splits option.splits)
qed

lemma keeps_ready [keeping]: "aloof f \<Longrightarrow> keeps f (ready S)"
proof -
  assume "aloof f"
  then have k: "keeps f (bind_action (lift_snd (check_loop S a b c)) (\<lambda>_.
      bind_action (lift_snd (check_loop S a' b' c')) (\<lambda>_. external_ready S)))" for a b c a' b' c'
    by (intro keeping)
  show ?thesis using keeps_snd [OF k] by (simp add: keeps_def ready_def split_beta)
qed

lemma keeps_metrics_handler [keeping]: "keeps f (metrics_handler lib S)"
  by (simp add: keeps_def metrics_handler_def split_beta)

lemma keeps_public [keeping]: "aloof f \<Longrightarrow> keeps f (public_handler lib S path)"
  unfolding public_handler_def by (simp split: if_split add: keeping)

lemma keeps_admin:
  "aloof f \<Longrightarrow> path \<noteq> ''/keeper/blacklist/{key}'' \<Longrightarrow> keeps f (admin_handler lib S path rq)"
  unfolding admin_handler_def by (simp split: if_split add: keeping)

lemma keeps_handler:
  "aloof f \<Longrightarrow> path \<noteq> ''/keeper/blacklist/{key}'' \<Longrightarrow> keeps f (handler lib S path rq)"
  unfolding handler_def by (simp split: if_split add: keeping keeps_admin)

text \<open>Lifting an abandonment changes the abandoned keys and the counts only.\<close>

lemma keeps_clear:
  assumes "\<And>s b e z. f (s\<lparr>st_blacklist := b, st_freeze_failures := z, st_execution_failures := e\<rparr>) = f s"
  shows "keeps f (clear_handler rq)"
  using assms by (simp add: keeps_def clear_handler_def clear_blacklisted_key_def split_beta)

lemma keeps_any_handler:
  assumes "aloof f" and "\<And>s b e z. f (s\<lparr>st_blacklist := b, st_freeze_failures := z, st_execution_failures := e\<rparr>) = f s"
  shows "keeps f (handler lib S path rq)"
proof (cases "path = ''/keeper/blacklist/{key}''")
  case True
  have "keeps f (bind_action (admin_auth S (auth_request_of rq)) (\<lambda>_. map_action ClearedBody (clear_handler rq)))"
    by (intro keeping keeps_clear assms)
  then show ?thesis using True by (simp add: handler_def admin_handler_def ADMIN_ROUTES_def)
qed (rule keeps_handler [OF assms(1)])

lemma dispatch_keeps:
  assumes "\<And>path. rr_matched rq = Some path \<Longrightarrow> keeps f (handler lib S path rq)"
  shows "f (fst (snd (dispatch lib S rq sw))) = f (fst sw)"
proof -
  have "f (fst (snd (run_route lib S path rq sw))) = f (fst sw)" if "rr_matched rq = Some path" for path
    using keeps_snd [OF assms [OF that]] by (auto simp: run_route_def split_beta split: option.splits)
  then show ?thesis by (auto simp: dispatch_def split_beta split: option.splits)
qed

section \<open>What a request can change\<close>

text \<open>Everything that the two loops work with.\<close>

definition work_of ::
  "app_state \<Rightarrow> price_cache \<times> (string \<rightharpoonup> instant) \<times> failed_submission ring_buffer \<times> keeper_status \<times> cycle_status" where
  "work_of s = (st_price_cache s, st_in_flight s, st_failures s, st_keeper_status s, st_cycle_status s)"

definition verdicts_of ::
  "app_state \<Rightarrow> (string \<rightharpoonup> u32) \<times> (string \<rightharpoonup> u32) \<times> (string \<rightharpoonup> u32)" where
  "verdicts_of s = (st_blacklist s, st_execution_failures s, st_freeze_failures s)"

lemma aloof_observations: "aloof work_of" "aloof verdicts_of"
  by (simp_all add: aloof_def work_of_def verdicts_of_def)

lemma serve_keeps:
  assumes "f (fst (snd (dispatch lib S rq (s\<lparr>st_metrics := inc_http_in_flight (st_metrics s)\<rparr>, w1)))) = f s"
    and "w1 = snd (env_instant (sy_env S) w)" and "\<And>s m. f (s\<lparr>st_metrics := m\<rparr>) = f s"
    and "serve lib S rq (s, w) = (rp, (s', w'))"
  shows "f s' = f s"
  using assms by (auto simp: serve_def track_metrics_def begin_request_def finish_request_def split: prod.splits)

definition lifts_abandonment :: "request \<Rightarrow> bool" where
  "lifts_abandonment rq \<longleftrightarrow> rr_matched rq = Some ''/keeper/blacklist/{key}''"

text \<open>
  C25: Whatever is requested, the cached prices, the keys in flight, the logs of the loops and the
  failures are left alone; and no request but one for the route that lifts an abandonment changes
  an abandoned key or a failure count.
\<close>

theorem requests_leave_work_alone:
  assumes "serve lib S rq (s, w) = (rp, (s', w'))"
  shows "work_of s' = work_of s \<and> (lifts_abandonment rq \<or> verdicts_of s' = verdicts_of s)"
proof -
  have m: "work_of (s\<lparr>st_metrics := x\<rparr>) = work_of s" "verdicts_of (s\<lparr>st_metrics := x\<rparr>) = verdicts_of s" for s x
    by (simp_all add: work_of_def verdicts_of_def)
  have "keeps work_of (handler lib S path rq)" for path
    by (rule keeps_any_handler [OF aloof_observations(1)]) (simp add: work_of_def)
  from dispatch_keeps [OF this] have "work_of s' = work_of s"
    by (intro serve_keeps [OF _ refl m(1) assms]) (simp add: m)
  moreover have "verdicts_of s' = verdicts_of s" if "\<not> lifts_abandonment rq"
  proof -
    have "keeps verdicts_of (handler lib S path rq)" if "rr_matched rq = Some path" for path
      using keeps_handler [OF aloof_observations(2)] that \<open>\<not> lifts_abandonment rq\<close> by (auto simp: lifts_abandonment_def)
    from dispatch_keeps [OF this] show ?thesis
      by (intro serve_keeps [OF _ refl m(2) assms]) (simp add: m)
  qed
  ultimately show ?thesis by blast
qed

definition sample_http :: http_lib where
  "sample_http = \<lparr>hl_covers = \<lambda>registered got. registered = got, hl_preflight = \<lambda>_. None,
     hl_cross_origin = \<lambda>_ rp. rp, hl_panicked = plain_response 500 EmptyBody, hl_version = ''0.1.0'', hl_float = \<lambda>_. ''''\<rparr>"

definition lift_request :: request where
  "lift_request = \<lparr>rr_method = ''DELETE'', rr_matched = Some ''/keeper/blacklist/{key}'', rr_client = None,
     rr_authorization = Some ''Bearer x'', rr_key = ''k'', rr_query = Err (400, '''')\<rparr>"

definition health_request :: request where
  "health_request = lift_request\<lparr>rr_method := ''GET'', rr_matched := Some ''/health''\<rparr>"

theorem requests_leave_work_alone_witness:
  "let after = fst (snd (serve sample_http admin_system health_request (app_state_new, ([], 0, 0))))
   in work_of after = work_of app_state_new \<and> verdicts_of after = verdicts_of app_state_new"
proof -
  obtain rp s' w' where "serve sample_http admin_system health_request (app_state_new, ([], 0, 0)) = (rp, (s', w'))"
    by (metis surj_pair)
  from this requests_leave_work_alone [OF this] show ?thesis
    by (simp add: lifts_abandonment_def health_request_def)
qed

section \<open>The admin routes\<close>

definition login_time :: "'w system \<Rightarrow> 'w \<Rightarrow> instant" where
  "login_time S w = fst (env_instant (sy_env S) (snd (env_instant (sy_env S) w)))"

definition authorised :: "'w system \<Rightarrow> request \<Rightarrow> app_state \<Rightarrow> 'w \<Rightarrow> bool" where
  "authorised S rq s w \<longleftrightarrow>
     (case cf_admin_api_token (sy_config S) of
        None \<Rightarrow> False
      | Some token \<Rightarrow> rr_authorization rq = Some (''Bearer '' @ token))
     \<and> \<not> limiter_blocked (st_limiter s) (or_unknown (rr_client rq)) (login_time S w)"

lemma bearer_prefix: "strip_prefix h p = Some t \<longleftrightarrow> h = p @ t"
  by (auto simp: strip_prefix_def prefix_def)

lemma bearer_token:
  "bearer_matches token rq \<longleftrightarrow> ar_authorization rq = Some (''Bearer '' @ token)"
proof (cases "ar_authorization rq")
  case (Some h)
  have "bearer_matches token rq \<longleftrightarrow> strip_prefix h ''Bearer '' = Some token"
    by (simp add: bearer_matches_def Some constant_time_eq_iff split: option.splits)
  then show ?thesis unfolding bearer_prefix Some by simp
qed (simp add: bearer_matches_def)

lemma auth_request_of_fields [simp]:
  "ar_client (auth_request_of rq) = rr_client rq" "ar_authorization (auth_request_of rq) = rr_authorization rq"
  "ar_route (auth_request_of rq) = rr_matched rq"
  by (simp_all add: auth_request_of_def)

lemma unauthorised_login:
  assumes "\<not> authorised S rq s w" and "w1 = snd (env_instant (sy_env S) w)"
  shows "\<exists>e s' w'. admin_auth S (auth_request_of rq) (s\<lparr>st_metrics := x\<rparr>, w1) = (Err e, (s', w'))
    \<and> ae_status e \<in> {SERVICE_UNAVAILABLE, TOO_MANY_REQUESTS, UNAUTHORIZED}
    \<and> (\<exists>l x'. s' = s\<lparr>st_limiter := l, st_metrics := x'\<rparr>)"
proof -
  obtain r s' w' where a: "admin_auth S (auth_request_of rq) (s\<lparr>st_metrics := x\<rparr>, w1) = (r, (s', w'))"
    by (metis surj_pair)
  have "s' = s\<lparr>st_limiter := st_limiter s', st_metrics := st_metrics s'\<rparr>" using admin_auth_frame [OF a] by simp
  then have frame: "\<exists>l x'. s' = s\<lparr>st_limiter := l, st_metrics := x'\<rparr>" by blast
  have "\<exists>e. r = Err e \<and> ae_status e \<in> {SERVICE_UNAVAILABLE, TOO_MANY_REQUESTS, UNAUTHORIZED}"
  proof (cases "cf_admin_api_token (sy_config S)")
    case None
    then show ?thesis using a by (auto simp: admin_auth_def api_error_new_def)
  next
    case (Some token)
    obtain now w2 where t: "env_instant (sy_env S) w1 = (now, w2)" by (cases "env_instant (sy_env S) w1")
    then have "limiter_blocked (st_limiter s) (or_unknown (rr_client rq)) now \<or> \<not> bearer_matches token (auth_request_of rq)"
      using assms by (auto simp: authorised_def Some login_time_def bearer_token)
    then show ?thesis using a 
      by (auto simp: admin_auth_def Some t Let_def api_error_new_def split: if_splits)
  qed
  with a frame show ?thesis by blast
qed

text \<open>
  C24: A request for an admin route that is not authorised (the configured token is missing or not
  presented, or the client is blocked) reaches no handler: it is answered by an error, 401, 429,
  503 or 405, and all it changes are the login limiter and the metrics.
\<close>

theorem unauthorised_request_changes_nothing:
  assumes "rr_matched rq = Some path" and "path \<in> set ADMIN_ROUTES" and "\<not> authorised S rq s w"
    and "serve lib S rq (s, w) = (rp, (s', w'))"
  shows "rp_status rp \<in> {UNAUTHORIZED, TOO_MANY_REQUESTS, SERVICE_UNAVAILABLE, METHOD_NOT_ALLOWED}
    \<and> (\<exists>msg. rp_body rp = ErrorBody msg)
    \<and> s' = s\<lparr>st_limiter := st_limiter s', st_metrics := st_metrics s'\<rparr>"
proof -
  obtain start w1 where t: "env_instant (sy_env S) w = (start, w1)" by (cases "env_instant (sy_env S) w")
  let ?s = "s\<lparr>st_metrics := inc_http_in_flight (st_metrics s)\<rparr>"
  obtain e s2 w2 l x where auth: "admin_auth S (auth_request_of rq) (?s, w1) = (Err e, (s2, w2))"
    and e: "ae_status e \<in> {SERVICE_UNAVAILABLE, TOO_MANY_REQUESTS, UNAUTHORIZED}"
    and s2: "s2 = s\<lparr>st_limiter := l, st_metrics := x\<rparr>"
    using unauthorised_login [OF assms(3), of w1] t by fastforce
  have "path \<noteq> ''/prices''" using assms(2) by (auto simp: ADMIN_ROUTES_def)
  then have "dispatch lib S rq (?s, w1) = run_route lib S path rq (?s, w1)" by (simp add: dispatch_def assms(1))
  moreover have "run_route lib S path rq (?s, w1) \<in>
      {(error_response e, (s2, w2)), (plain_response METHOD_NOT_ALLOWED EmptyBody, (?s, w1))}"
    using assms(2) by (auto simp: run_route_def route_method_def handler_def auth bind_action_def into_response_def)
  ultimately consider "dispatch lib S rq (?s, w1) = (error_response e, (s2, w2))"
    | "dispatch lib S rq (?s, w1) = (plain_response METHOD_NOT_ALLOWED EmptyBody, (?s, w1))" by auto
  then show ?thesis
  proof cases
    case 1
    then show ?thesis using assms(4) e s2
      by (auto simp: serve_def track_metrics_def begin_request_def finish_request_def t error_response_def
          plain_response_def map_method_not_allowed_def set_no_store_def METHOD_NOT_ALLOWED_def SERVICE_UNAVAILABLE_def
          TOO_MANY_REQUESTS_def UNAUTHORIZED_def split: prod.splits)
  next
    case 2
    then show ?thesis using assms(4)
      by (auto simp: serve_def track_metrics_def begin_request_def finish_request_def t
          plain_response_def map_method_not_allowed_def set_no_store_def split: prod.splits)
  qed
qed

theorem unauthorised_request_changes_nothing_witness:
  "let (rp, (s', w')) = serve sample_http admin_system lift_request (app_state_new, ([], 0, 0))
   in (\<exists>msg. rp_body rp = ErrorBody msg)
     \<and> s' = app_state_new\<lparr>st_limiter := st_limiter s', st_metrics := st_metrics s'\<rparr>"
proof -
  obtain rp s' w' where served: "serve sample_http admin_system lift_request (app_state_new, ([], 0, 0)) = (rp, (s', w'))"
    by (metis surj_pair)
  have "\<not> authorised admin_system lift_request app_state_new ([], 0, 0)"
    by (simp add: authorised_def admin_system_def sample_system_def lift_request_def)
  from unauthorised_request_changes_nothing [OF _ _ this served] served show ?thesis
    by (simp add: lift_request_def ADMIN_ROUTES_def)
qed

section \<open>Headers\<close>

text \<open>
  Every response forbids caching but the one to a refused method: the layer that gives a 405 its
  body lies outside the one that sets the header, and builds a new response without it.
\<close>

theorem only_refused_method_cacheable:
  "rp_headers (fst (serve lib S rq sw)) ''cache-control''
     = (if rp_status (fst (serve lib S rq sw)) = METHOD_NOT_ALLOWED then None else Some ''no-store'')"
  by (simp add: serve_def map_method_not_allowed_def set_no_store_def plain_response_def split_beta)

section \<open>The gauge of open requests\<close>

definition gauge :: "app_state \<Rightarrow> u64" where
  "gauge s = ct_http_in_flight (mt_counters (st_metrics s))"

lemma aloof_gauge: "aloof gauge"
  by (simp add: aloof_def gauge_def record_http_auth_failure_def)

lemma dispatch_gauge: "gauge (fst (snd (dispatch lib S rq sw))) = gauge (fst sw)"
  by (rule dispatch_keeps, rule keeps_any_handler [OF aloof_gauge]) (simp add: gauge_def)

lemma begin_gauge: "begin_request S rq sw = (op, sw') \<Longrightarrow> gauge (fst sw') = gauge (fst sw) + 1"
  by (auto simp: begin_request_def gauge_def inc_http_in_flight_def split: prod.splits)

lemma finish_gauge: "gauge (fst (finish_request S op status sw)) = gauge (fst sw) - 1"
  by (auto simp: finish_request_def gauge_def dec_http_in_flight_def record_http_request_def Let_def split: prod.splits)

lemma open_one_less: "i < length xs \<Longrightarrow> length (take i xs @ drop (Suc i) xs) = length xs - 1"
  by simp

text \<open>
  C26: Whatever requests come, are handled, answered or dropped, the gauge of open requests equals the
  requests that are open plus all that were ever dropped: a request that runs into its time limit
  or loses its client is counted as open for good.
\<close>

theorem gauge_counts_dropped_requests:
  assumes "serving lib S (tr, (s, w))"
  shows "ct_http_in_flight (mt_counters (st_metrics s)) = length (tr_open tr) + tr_dropped tr"
proof -
  have "gauge (fst (snd x)) = length (tr_open (fst x)) + tr_dropped (fst x)" if "serving lib S x" for x
    using that
  proof induction
    case (opened w)
    show ?case by (simp add: gauge_def app_state_new_def metrics_new_def counters_default_def)
  next
    case (served x y)
    from served.hyps(2) show ?case
    proof (cases rule: http_step.cases)
      case (arrive rq sw op sw' tr)
      then show ?thesis using served.IH begin_gauge [OF arrive(3)] by simp
    next
      case (work rq sw rp sw' tr)
      then show ?thesis using served.IH dispatch_gauge [of lib S rq sw] by simp
    next
      case (respond i tr status sw sw')
      then show ?thesis using served.IH finish_gauge [of S "tr_open tr ! i" status sw] open_one_less [OF respond(3)] by auto
    next
      case (dropped i tr sw)
      then show ?thesis using served.IH open_one_less [OF dropped(3)] by auto
    qed
  qed
  from this [OF assms] show ?thesis by (simp add: gauge_def)
qed

theorem gauge_counts_dropped_requests_witness:
  "\<exists>s. serving sample_http admin_system (\<lparr>tr_open = [], tr_dropped = 1\<rparr>, (s, ([], 0, 0)))
     \<and> ct_http_in_flight (mt_counters (st_metrics s)) = 1"
proof -
  have clock: "env_instant (sy_env admin_system) ([], 0, 0) = (0, ([], 0, 0))"
    by (simp add: admin_system_def sample_system_def script_env_def)
  obtain op s where b: "begin_request admin_system health_request (app_state_new, ([], 0, 0)) = (op, (s, ([], 0, 0)))"
    by (simp add: begin_request_def clock)
  have "serving sample_http admin_system (\<lparr>tr_open = [op], tr_dropped = 0\<rparr>, (s, ([], 0, 0)))"
    using served [OF opened arrive [OF b]] by simp
  from served [OF this dropped [where i = 0]]
  have one: "serving sample_http admin_system (\<lparr>tr_open = [], tr_dropped = 1\<rparr>, (s, ([], 0, 0)))" by simp
  then show ?thesis using gauge_counts_dropped_requests [OF one] by auto
qed

end
