(* ===== verification/Oracle_Main.thy ===== *)
theory Oracle_Main
  imports Oracle_Env
begin

text \<open>
  The supervision in \<^verbatim>\<open>main.rs\<close>: the service waits for whichever ends first, a loop, the server or a
  time limit, then cancels what is left and waits for it within a limit. Times are milliseconds
  since the wait began. When each task ends is an input, given as a function of the moment the
  shutdown token is cancelled (\<open>None\<close>: never), since a task may react to that.
\<close>

definition DEFAULT_SHUTDOWN_TIMEOUT_SECS :: u64 where "DEFAULT_SHUTDOWN_TIMEOUT_SECS = 30"

definition drain_timeout_ms :: nat where
  "drain_timeout_ms = DEFAULT_SHUTDOWN_TIMEOUT_SECS div 2 * 1000"

datatype background_task = PriceTask | KeeperTask

datatype task_end = Returned | Panicked

datatype server_end = ServerDrained | ServerFailed

record tasks =
  tk_price :: "nat option \<Rightarrow> (nat \<times> task_end) option"
  tk_keeper :: "nat option \<Rightarrow> (nat \<times> task_end) option"
  tk_server :: "nat option \<Rightarrow> (nat \<times> server_end) option"
  tk_signal :: "nat option"

text \<open>The signal cancels the token; a task that ends early does so only afterwards.\<close>

datatype wait_end =
    TaskEnded background_task task_end
  | ServerEnded server_end
  | ServerTimedOut

text \<open>\<^verbatim>\<open>tokio::time::timeout\<close>: the inner result if it is there by the limit.\<close>

definition with_timeout :: "nat \<Rightarrow> (nat \<times> 'a) option \<Rightarrow> nat \<times> 'a option" where
  "with_timeout limit result =
     (case result of
        Some (t, x) \<Rightarrow> if t \<le> limit then (t, Some x) else (limit, None)
      | None \<Rightarrow> (limit, None))"

definition task_branch :: "background_task \<Rightarrow> (nat \<times> task_end) option \<Rightarrow> (nat \<times> wait_end) list" where
  "task_branch task result = (case result of None \<Rightarrow> [] | Some (t, e) \<Rightarrow> [(t, TaskEnded task e)])"

definition server_branch :: "(nat \<times> server_end) option \<Rightarrow> nat \<times> wait_end" where
  "server_branch result =
     (case with_timeout drain_timeout_ms result of
        (t, Some e) \<Rightarrow> (t, ServerEnded e)
      | (t, None) \<Rightarrow> (t, ServerTimedOut))"

text \<open>The branches of the \<^verbatim>\<open>select!\<close>; of those that are ready first, any may be taken.\<close>

definition branches :: "tasks \<Rightarrow> (nat \<times> wait_end) list" where
  "branches R =
     task_branch PriceTask (tk_price R (tk_signal R)) @ task_branch KeeperTask (tk_keeper R (tk_signal R))
     @ [server_branch (tk_server R (tk_signal R))]"

definition selected :: "tasks \<Rightarrow> nat \<times> wait_end \<Rightarrow> bool" where
  "selected R b \<longleftrightarrow> b \<in> set (branches R) \<and> list_all (\<lambda>c. fst b \<le> fst c) (branches R)"

text \<open>The token is cancelled after the wait, unless the signal came before.\<close>

definition cancelled_at :: "tasks \<Rightarrow> nat \<Rightarrow> nat" where
  "cancelled_at R t = (case tk_signal R of None \<Rightarrow> t | Some s \<Rightarrow> min s t)"

definition joined :: "(nat \<times> task_end) option list \<Rightarrow> nat option" where
  "joined rs = (if None \<in> set rs then None else Some (foldr (\<lambda>r t. max (fst (the r)) t) rs 0))"

definition drained_at :: "tasks \<Rightarrow> nat \<Rightarrow> wait_end \<Rightarrow> nat option" where
  "drained_at R t b =
     (let c = Some (cancelled_at R t) in
      case b of
        TaskEnded PriceTask _ \<Rightarrow> joined [tk_keeper R c]
      | TaskEnded KeeperTask _ \<Rightarrow> joined [tk_price R c]
      | _ \<Rightarrow> joined [tk_price R c, tk_keeper R c])"

record ending =
  en_at :: nat
  en_exit_code :: nat
  en_aborted :: bool

definition main_end :: "tasks \<Rightarrow> nat \<times> wait_end \<Rightarrow> ending" where
  "main_end R b =
     (case b of (t, e) \<Rightarrow>
        if e = ServerEnded ServerFailed then \<lparr>en_at = t, en_exit_code = 1, en_aborted = False\<rparr>
        else (case drained_at R t e of
                Some d \<Rightarrow>
                  if d \<le> t + drain_timeout_ms then \<lparr>en_at = max t d, en_exit_code = 0, en_aborted = False\<rparr>
                  else \<lparr>en_at = t + drain_timeout_ms, en_exit_code = 0, en_aborted = True\<rparr>
              | None \<Rightarrow> \<lparr>en_at = t + drain_timeout_ms, en_exit_code = 0, en_aborted = True\<rparr>))"

text \<open>
  \<^verbatim>\<open>shutdown_signal\<close>: the first of the two signals. A handler that cannot be installed never fires.
\<close>

datatype signal_handler = Installed "nat option" | NotInstalled

fun fires_at :: "signal_handler \<Rightarrow> nat option" where
  "fires_at (Installed t) = t"
| "fires_at NotInstalled = None"

definition shutdown_signal :: "signal_handler \<Rightarrow> signal_handler \<Rightarrow> nat option" where
  "shutdown_signal ctrl_c terminate =
     (case (fires_at ctrl_c, fires_at terminate) of
        (Some t, Some u) \<Rightarrow> Some (min t u)
      | (Some t, None) \<Rightarrow> Some t
      | (None, u) \<Rightarrow> u)"

text \<open>\<^verbatim>\<open>init_tracing\<close>: the log filter, and the setting to warn of when it cannot be parsed.\<close>

definition log_filter :: "(string \<Rightarrow> bool) \<Rightarrow> string option \<Rightarrow> string \<times> string option" where
  "log_filter parses rust_log =
     (case rust_log of
        Some raw \<Rightarrow> if parses raw then (raw, None) else (''info'', Some raw)
      | None \<Rightarrow> (''info'', None))"

lemma shutdown_signal_iff:
  "shutdown_signal c d = Some t \<longleftrightarrow>
     (fires_at c = Some t \<or> fires_at d = Some t) \<and> (\<forall>u. fires_at c = Some u \<or> fires_at d = Some u \<longrightarrow> t \<le> u)"
  by (auto simp: shutdown_signal_def min_def split: option.splits)

section \<open>Starting\<close>

text \<open>The process starts with a loaded configuration and a free address, or exits at once.\<close>

datatype start = Started loaded | Exited nat

definition start_service :: "config_lib \<Rightarrow> lookup \<Rightarrow> (string \<Rightarrow> bool) \<Rightarrow> (env_error list, start) outcome" where
  "start_service cl env bind_ok =
     (case from_lookup cl env of
        Err es \<Rightarrow> Ok (Exited 1)
      | Panic \<Rightarrow> Panic
      | Ok ld \<Rightarrow> if bind_ok (ld_bind_addr ld) then Ok (Started ld) else Ok (Exited 1))"

section \<open>How long the service lives\<close>

lemma drain_limit: "drain_timeout_ms = 15000"
  by (simp add: drain_timeout_ms_def DEFAULT_SHUTDOWN_TIMEOUT_SECS_def)

lemma server_branch_time: "fst (server_branch r) \<le> drain_timeout_ms"
  by (auto simp: server_branch_def with_timeout_def split: option.splits prod.splits if_splits)

lemma selected_time: "selected R b \<Longrightarrow> fst b \<le> drain_timeout_ms"
  using server_branch_time [of "tk_server R (tk_signal R)"]
  by (auto simp: selected_def branches_def list_all_iff)

lemma selected_exists: "\<exists>b. selected R b"
proof -
  let ?T = "fst ` set (branches R)"
  have "?T \<noteq> {}" "finite ?T" by (simp_all add: branches_def)
  then have "Min ?T \<in> ?T" "\<forall>t \<in> ?T. Min ?T \<le> t" by simp_all
  then obtain b where "b \<in> set (branches R)" "\<forall>t \<in> ?T. fst b \<le> t" by auto
  then have "selected R b" by (simp add: selected_def list_all_iff)
  then show ?thesis by blast
qed

text \<open>
  C23: The process never outlives thirty seconds: the fifteen seconds meant for draining the server
  run from the moment it starts to serve, so the wait ends within them even when nobody asks the
  service to stop, and the drain of the loops takes at most fifteen more. Undisturbed (no signal,
  no loop or server that ends by itself) the service is shut down after exactly fifteen seconds.
\<close>

theorem service_stops_by_itself:
  "(\<exists>b. selected R b)
   \<and> (selected R b \<longrightarrow> fst b \<le> 15000 \<and> en_at (main_end R b) \<le> 30000)
   \<and> (tk_price R (tk_signal R) = None \<and> tk_keeper R (tk_signal R) = None \<and> tk_server R (tk_signal R) = None
      \<longrightarrow> (selected R b \<longleftrightarrow> b = (15000, ServerTimedOut)))"
proof (intro conjI impI)
  show "\<exists>b. selected R b" by (rule selected_exists)
next
  assume "selected R b"
  then have t: "fst b \<le> 15000" using selected_time drain_limit by simp
  then show "fst b \<le> 15000" .
  show "en_at (main_end R b) \<le> 30000"
    using t by (cases b) (auto simp: main_end_def drain_limit split: option.splits)
next
  assume "tk_price R (tk_signal R) = None \<and> tk_keeper R (tk_signal R) = None \<and> tk_server R (tk_signal R) = None"
  then show "selected R b \<longleftrightarrow> b = (15000, ServerTimedOut)"
    by (auto simp: selected_def branches_def task_branch_def server_branch_def with_timeout_def drain_limit)
qed

definition undisturbed :: tasks where
  "undisturbed = \<lparr>tk_price = \<lambda>c. map_option (\<lambda>t. (t + 10, Returned)) c, tk_keeper = \<lambda>c. map_option (\<lambda>t. (t + 20, Returned)) c,
     tk_server = \<lambda>c. map_option (\<lambda>t. (t + 5, ServerDrained)) c, tk_signal = None\<rparr>"

theorem service_stops_by_itself_witness:
  "selected undisturbed (15000, ServerTimedOut) \<and> en_at (main_end undisturbed (15000, ServerTimedOut)) \<le> 30000"
  using service_stops_by_itself [of undisturbed "(15000, ServerTimedOut)"] by (simp add: undisturbed_def)

end
