(* ===== verification/Oracle_Interleaving.thy ===== *)
theory Oracle_Interleaving
  imports Oracle_Reachable
begin

text \<open>
  The service below the level of whole cycles. Every critical section of the code is one write to
  the shared state; the loops and the requests run concurrently, and a cycle over its budget is
  dropped where it waits. So any sequence of single writes is possible. A whole cycle is such a
  sequence, and what holds after any sequence holds for every interleaving and every dropped cycle.
\<close>

section \<open>Single writes\<close>

text \<open>
  What a write may do is left wide where it depends on an earlier read. The count after which
  \<open>abandon\<close> marks a key was read by an earlier write, and another may have cleared it since; so
  only the lower of the two limits is demanded of it. The prices \<open>refresh\<close> stores were built by
  the cycle before; that they are signed and aggregated for their tokens is demanded here, and
  proved of every price cycle where the cycle is shown to be a sequence of writes.
\<close>

inductive single_write :: "'w system \<Rightarrow> app_state \<Rightarrow> app_state \<Rightarrow> bool" for S where
  log_failure: "single_write S s (s\<lparr>st_failures := ring_push f (st_failures s)\<rparr>)"
| log_execution: "single_write S s (s\<lparr>st_keeper_status := push_execution e (st_keeper_status s)\<rparr>)"
| show_pending: "single_write S s (set_pending a b c s)"
| count_metrics: "single_write S s (s\<lparr>st_metrics := m\<rparr>)"
| stamp_cycle: "single_write S s (s\<lparr>st_cycle_status := y\<rparr>)"
| next_generation: "single_write S s (s\<lparr>st_generation := (st_generation s + 1) mod 2 ^ 64\<rparr>)"
| flag_balance: "single_write S s (s\<lparr>st_balance_below_min := b\<rparr>)"
| rotate_start: "single_write S s (s\<lparr>st_start_index := i\<rparr>)"
| sweep: "g \<subseteq>\<^sub>m st_in_flight s \<Longrightarrow> single_write S s (s\<lparr>st_in_flight := g\<rparr>)"
| claim: "single_write S s (s\<lparr>st_in_flight := (st_in_flight s)(k \<mapsto> t)\<rparr>)"
| release: "single_write S s (release_key k s)"
| count_failure: "single_write S s (s\<lparr>st_execution_failures := (st_execution_failures s)(k \<mapsto> next_count (st_execution_failures s) k)\<rparr>)"
| count_freeze: "single_write S s (s\<lparr>st_freeze_failures := (st_freeze_failures s)(k \<mapsto> next_count (st_freeze_failures s) k)\<rparr>)"
| clear_failures: "single_write S s (clear_execution_failures k s)"
| clear_freezes: "single_write S s (clear_freeze_failures k s)"
| abandon: "MAX_CONSECUTIVE_FREEZE_FAILURES \<le> n \<Longrightarrow> single_write S s (blacklist_key k n s)"
| lift: "single_write S s (s\<lparr>st_blacklist := (st_blacklist s)(k := None)\<rparr>)"
| publish: "single_write S s (s\<lparr>st_price_cache := update_submitted_prices ps now hb (st_price_cache s)\<rparr>)"
| refresh: "entries_valid S new \<Longrightarrow> single_write S s (s\<lparr>st_price_cache := (st_price_cache s)
     \<lparr>pc_prices := bt_insert_all new (pc_prices (st_price_cache s)), pc_last_updated := Some t0\<rparr>\<rparr>)"
| clear_cache: "single_write S s (s\<lparr>st_price_cache := (st_price_cache s)\<lparr>pc_prices := [], pc_last_updated := None\<rparr>\<rparr>)"
| limit_login: "single_write S s (s\<lparr>st_limiter := l\<rparr>)"
| cache_verdict: "single_write S s (s\<lparr>st_ready_cache := rc\<rparr>)"

inductive_cases writeE: "single_write S s s'"

abbreviation writes :: "'w system \<Rightarrow> app_state \<Rightarrow> app_state \<Rightarrow> bool" where
  "writes S \<equiv> (single_write S)\<^sup>*\<^sup>*"

named_theorems writing \<open>operations that are a sequence of writes\<close>

lemma writes_one: "single_write S s t \<Longrightarrow> t = u \<Longrightarrow> writes S s u"
  by auto

lemma writes_then: "writes S s t \<Longrightarrow> single_write S t u \<Longrightarrow> writes S s u"
  by simp

section \<open>A cycle is a sequence of writes\<close>

text \<open>The shared state of a run only changes by writes.\<close>

definition run_writes :: "'w system \<Rightarrow> 'w keeper_run \<Rightarrow> 'w keeper_run \<Rightarrow> bool" where
  "run_writes S r r' \<longleftrightarrow> writes S (kr_app r) (kr_app r')"

lemma run_writes_refl [simp]: "run_writes S r r"
  by (simp add: run_writes_def)

lemma run_writes_trans: "run_writes S r r1 \<Longrightarrow> run_writes S r1 r2 \<Longrightarrow> run_writes S r r2"
  by (simp add: run_writes_def)

lemma run_writes_app: "single_write S (kr_app r) (f (kr_app r)) \<Longrightarrow> run_writes S r (on_app f r)"
  by (auto simp: run_writes_def)

lemma run_writes_summary [simp]: "run_writes S r (on_summary g r)" "run_writes S r (count_error r)"
  by (simp_all add: run_writes_def)

lemma run_writes_error: "run_writes S r (on_world (record_error S op e h) r)"
proof -
  obtain f where "kr_app (on_world (record_error S op e h) r) = (kr_app r)\<lparr>st_failures := ring_push f (st_failures (kr_app r))\<rparr>"
    using record_error_frame [of S op e h "kr_app r" "kr_world r"] by (auto simp: on_world_app)
  then show ?thesis by (auto simp: run_writes_def intro: single_write.log_failure)
qed

lemma run_writes_execution: "run_writes S r (on_world (record_execution S op k h b m) r)"
proof -
  obtain e where "kr_app (on_world (record_execution S op k h b m) r)
      = (kr_app r)\<lparr>st_keeper_status := push_execution e (st_keeper_status (kr_app r))\<rparr>"
    using record_execution_frame [of S op k h b m "kr_app r" "kr_world r"] by (auto simp: on_world_app)
  then show ?thesis by (auto simp: run_writes_def intro: single_write.log_execution)
qed

lemma run_writes_failed_work: "run_writes S r (record_failed_work S op k m sh h r)"
  unfolding record_failed_work_def by (rule run_writes_trans [OF run_writes_error run_writes_execution])

lemma run_writes_undecided: "run_writes S r (work_undecided S op k e r)"
  unfolding work_undecided_def by (rule run_writes_trans [OF run_writes_summary(2) run_writes_failed_work])

lemma run_writes_handler: "run_handler S c m k r = (x, r') \<Longrightarrow> run_writes S r r'"
  using run_handler_frame' [of S c m k r x r'] by (simp add: run_writes_def)

lemma writes_claim: "writes S s (s\<lparr>st_in_flight := (st_in_flight s)(k \<mapsto> t)\<rparr>)"
  by (rule r_into_rtranclp, rule single_write.claim)

lemma run_writes_claim: "claim_key S k r = (b, r') \<Longrightarrow> run_writes S r r'"
  by (auto simp: claim_key_def run_writes_def intro: writes_claim split: option.splits prod.splits if_splits)

lemma run_writes_clear:
  "run_writes S r (on_app (clear_execution_failures k) r)" "run_writes S r (on_app (clear_freeze_failures k) r)"
  "run_writes S r (on_app (release_key k) r)"
  by (rule run_writes_app, rule single_write.intros)+

text \<open>A step that only changes the shared state by writes, whatever its outcome.\<close>

definition step_writes :: "'w system \<Rightarrow> ('w keeper_run, 'e, 'a) action \<Rightarrow> bool" where
  "step_writes S step \<longleftrightarrow> (\<forall>r. run_writes S r (snd (step r)))"

lemma step_writesD: "step_writes S step \<Longrightarrow> step r = (x, r') \<Longrightarrow> run_writes S r r'"
  unfolding step_writes_def by (metis snd_conv)

lemma step_writesI: "(\<And>r x r'. step r = (x, r') \<Longrightarrow> run_writes S r r') \<Longrightarrow> step_writes S step"
  unfolding step_writes_def by (metis surjective_pairing)

lemma step_writes_bind [writing]:
  "step_writes S m \<Longrightarrow> (\<And>a. step_writes S (g a)) \<Longrightarrow> step_writes S (bind_action m g)"
  by (rule step_writesI)
    (auto simp: bind_action_def split: prod.splits outcome.splits dest!: step_writesD intro: run_writes_trans)

lemma step_writes_return [writing]: "step_writes S (return_action x)"
  by (simp add: step_writes_def return_action_def)

lemma step_writes_abandon [writing]: "step_writes S (abandon_if_broken S c fm k)"
proof (rule step_writesI)
  fix r x r'
  assume a: "abandon_if_broken S c fm k r = (x, r')"
  let ?n = "next_count (st_execution_failures (kr_app r)) k"
  let ?r1 = "on_app (\<lambda>s. s\<lparr>st_execution_failures := (st_execution_failures s)(k \<mapsto> ?n)\<rparr>) r"
  have 1: "run_writes S r ?r1" by (rule run_writes_app, rule single_write.count_failure)
  have abandoned: "run_writes S r2 (on_app (\<lambda>s. clear_execution_failures k (blacklist_key k ?n s)) r2)"
    if "MAX_CONSECUTIVE_EXECUTION_FAILURES \<le> ?n" for r2
  proof -
    have "single_write S (kr_app r2) (blacklist_key k ?n (kr_app r2))" using that by (intro single_write.abandon) (simp add: limits)
    then show ?thesis using single_write.clear_failures [of S "blacklist_key k ?n (kr_app r2)" k]
      by (simp add: run_writes_def)
  qed
  show "run_writes S r r'"
  proof (cases "MAX_CONSECUTIVE_EXECUTION_FAILURES \<le> ?n \<and> st_blacklist (kr_app ?r1) k = None")
    case True
    obtain y r2 where h: "run_handler S c fm k ?r1 = (y, r2)" by (rule prod.exhaust)
    have 2: "run_writes S r r2" by (rule run_writes_trans [OF 1 run_writes_handler [OF h]])
    have e: "run_writes S r (on_world (record_error S fm msg None) r2)" for msg
      by (rule run_writes_trans [OF 2 run_writes_error])
    have "(x, r') = (case y of
        Ok _ \<Rightarrow> (Ok (), on_app (\<lambda>s. clear_execution_failures k (blacklist_key k ?n s)) r2)
      | Err e \<Rightarrow> (Ok (), on_app (\<lambda>s. clear_execution_failures k (blacklist_key k ?n s))
          (on_world (record_error S fm (he_message e) None) r2))
      | Panic \<Rightarrow> (Panic, r2))"
      unfolding a [symmetric] abandon_if_broken_def Let_def if_P [OF True] h by (cases y) simp_all
    then have "r' = r2 \<or> (\<exists>r3. r' = on_app (\<lambda>s. clear_execution_failures k (blacklist_key k ?n s)) r3 \<and> run_writes S r r3)"
      using 2 e by (cases y) auto
    then show ?thesis using 2 run_writes_trans [OF _ abandoned [OF conjunct1 [OF True]]] by blast
  next
    case False
    then have "r' = ?r1" using a by (auto simp: abandon_if_broken_def Let_def split: if_splits)
    then show ?thesis using 1 by simp
  qed
qed

lemma run_writes_freeze_count:
  "run_writes S r (on_app (\<lambda>s. s\<lparr>st_freeze_failures := (st_freeze_failures s)(k \<mapsto> next_count (st_freeze_failures (kr_app r)) k)\<rparr>) r)"
  by (rule run_writes_app, rule single_write.count_freeze)

lemma step_writes_freeze [writing]: "step_writes S (freeze_order S k)"
proof (rule step_writesI)
  fix r x r'
  assume a: "freeze_order S k r = (x, r')"
  obtain y r1 where h: "run_handler S (cf_order_handler_contract_id (sy_config S)) ''freeze_order'' k r = (y, r1)"
    by (rule prod.exhaust)
  have 1: "run_writes S r r1" by (rule run_writes_handler [OF h])
  show "run_writes S r r'"
  proof (cases y)
    case (Ok u)
    then have "r' = on_app (clear_execution_failures k) (on_app (clear_freeze_failures k) r1)"
      using a h by (simp add: freeze_order_def)
    then show ?thesis using run_writes_trans [OF run_writes_trans [OF 1 run_writes_clear(2)] run_writes_clear(1)] by simp
  next
    case (Err e)
    let ?n = "next_count (st_freeze_failures (kr_app r1)) k"
    let ?r3 = "on_world (record_error S ''freeze_order'' (he_message e) None)
      (on_app (\<lambda>s. s\<lparr>st_freeze_failures := (st_freeze_failures s)(k \<mapsto> ?n)\<rparr>) r1)"
    have 3: "run_writes S r ?r3"
      by (rule run_writes_trans [OF run_writes_trans [OF 1 run_writes_freeze_count] run_writes_error])
    have "r' = (if MAX_CONSECUTIVE_FREEZE_FAILURES \<le> ?n then on_app (blacklist_key k ?n) ?r3 else ?r3)"
      using a h Err by (simp add: freeze_order_def Let_def)
    moreover have "run_writes S ?r3 (on_app (blacklist_key k ?n) ?r3)" if "MAX_CONSECUTIVE_FREEZE_FAILURES \<le> ?n"
      by (rule run_writes_app, rule single_write.abandon, rule that)
    ultimately show ?thesis using 3 run_writes_trans [OF 3] by presburger
  next
    case Panic
    then show ?thesis using a h 1 by (simp add: freeze_order_def)
  qed
qed

lemma step_writes_failed_work [writing]: "step_writes S (\<lambda>r. (Ok (), record_failed_work S op k m sh h r))"
  by (simp add: step_writes_def run_writes_failed_work)

lemma step_writes_after:
  assumes "step_writes S m" and "\<And>r. run_writes S r (f r)"
  shows "step_writes S (\<lambda>r. m (f r))"
  using assms(1) run_writes_trans [OF assms(2)] by (simp add: step_writes_def)

lemma release_then_count: "run_writes S r (count_error (on_app (release_key k) r))"
  by (rule run_writes_trans [OF run_writes_clear(3) run_writes_summary(2)])

lemma step_writes_work_failed [writing]: "step_writes S (work_failed S c op fm k e)"
proof -
  have "step_writes S (\<lambda>r. bind_action (abandon_if_broken S c fm k)
      (\<lambda>_ r2. (Ok (), record_failed_work S op k (he_message e) (he_message e) None r2))
      (count_error (on_app (release_key k) r)))"
    by (rule step_writes_after [OF _ release_then_count]) (intro writing)
  then show ?thesis by (simp add: step_writes_def work_failed_def Let_def run_writes_clear)
qed

lemma step_writes_order_failed [writing]: "step_writes S (order_failed S k e)"
proof -
  let ?c = "cf_order_handler_contract_id (sy_config S)"
  have "step_writes S (if is_budget_exceeded (sy_chain S) e then freeze_order S k else return_action (Ok None))"
    by (simp add: writing)
  then have "step_writes S (bind_action
      (if is_budget_exceeded (sy_chain S) e then freeze_order S k else return_action (Ok None))
      (\<lambda>freeze_error. bind_action (abandon_if_broken S ?c ''freeze_order'' k)
         (\<lambda>_ r2. (Ok (), record_failed_work S ''execute_order'' k (he_message e)
            (case freeze_error of
               Some f \<Rightarrow> he_message e @ '' | freeze_error: '' @ f
             | None \<Rightarrow> he_message e) None r2))))"
    by (intro writing)
  from step_writes_after [OF this, where f = "\<lambda>r. count_error (on_app (release_key k) r)", OF release_then_count]
  show ?thesis
    by (cases "is_market_paused_error e")
      (simp_all only: step_writes_def order_failed_def Let_def if_True if_False snd_conv run_writes_clear simp_thms)
qed

lemma step_writes_guarded [writing]:
  assumes "step_writes S submit"
  shows "step_writes S (guarded S k submit)"
proof (rule step_writesI)
  fix r x r'
  assume g: "guarded S k submit r = (x, r')"
  obtain b r1 where c: "claim_key S k r = (b, r1)" by (rule prod.exhaust)
  show "run_writes S r r'"
    using g c run_writes_claim [OF c] run_writes_trans [OF run_writes_claim [OF c] step_writesD [OF assms]]
    by (auto simp: guarded_def split: if_splits bool.splits)
qed

lemma step_writes_attempt [writing]:
  assumes "\<And>tx r. run_writes S r (suc tx r)" and "\<And>e. step_writes S (failed e)"
  shows "step_writes S (attempt S c op k suc failed)"
proof (rule step_writesI)
  fix r x r'
  assume a: "attempt S c op k suc failed r = (x, r')"
  obtain y r1 where h: "run_handler S c op k r = (y, r1)" by (rule prod.exhaust)
  have 1: "run_writes S r r1" by (rule run_writes_handler [OF h])
  show "run_writes S r r'"
  proof (cases y)
    case (Ok tx)
    then have "r' = on_world (record_execution S op k (Some tx) True None) (suc tx (on_app (release_key k) r1))"
      using a h by (simp add: attempt_def)
    moreover have "run_writes S r \<dots>"
      by (rule run_writes_trans [OF run_writes_trans [OF run_writes_trans [OF 1 run_writes_clear(3)] assms(1)]
            run_writes_execution])
    ultimately show ?thesis by simp
  next
    case (Err e)
    then show ?thesis
      using a h run_writes_trans [OF 1 run_writes_undecided] run_writes_trans [OF 1 step_writesD [OF assms(2)]]
      by (auto simp: attempt_def split: if_splits)
  next
    case Panic
    then show ?thesis using a h 1 by (simp add: attempt_def)
  qed
qed

lemma run_writes_success:
  "run_writes S r (on_app (clear_execution_failures k) (on_summary f r))"
  "run_writes S r (on_app (\<lambda>s. clear_execution_failures k (clear_freeze_failures k s)) (on_summary f r))"
proof -
  show "run_writes S r (on_app (clear_execution_failures k) (on_summary f r))"
    by (rule run_writes_trans [OF run_writes_summary(1) run_writes_clear(1)])
  have "on_app (\<lambda>s. clear_execution_failures k (clear_freeze_failures k s)) r'
      = on_app (clear_execution_failures k) (on_app (clear_freeze_failures k) r')" for r' :: "'a keeper_run"
    by (simp add: on_app_def)
  then show "run_writes S r (on_app (\<lambda>s. clear_execution_failures k (clear_freeze_failures k s)) (on_summary f r))"
    using run_writes_trans [OF run_writes_trans [OF run_writes_summary(1) run_writes_clear(2)] run_writes_clear(1)] by simp
qed

lemma step_writes_process [writing]:
  "step_writes S (process_order S k)" "step_writes S (process_deposit S stale k)"
  "step_writes S (process_withdrawal S stale k)"
proof -
  show "step_writes S (process_order S k)"
    unfolding process_order_def by (intro writing run_writes_success)
  have "step_writes S (guarded S k (attempt S c op k (\<lambda>_ r. on_app (clear_execution_failures k) (on_summary f r))
      (work_failed S c op fm k)))" for c op fm f
    by (intro writing run_writes_success)
  then show "step_writes S (process_deposit S stale k)" "step_writes S (process_withdrawal S stale k)"
    by (simp_all add: step_writes_def process_deposit_def process_withdrawal_def)
qed

lemma step_writes_for_each [writing]:
  assumes f: "\<And>x. step_writes S (f x)"
  shows "step_writes S (for_each f xs)"
proof (rule step_writesI)
  show "for_each f xs r = (y, r') \<Longrightarrow> run_writes S r r'" for r y r'
  proof (induction xs arbitrary: r)
    case (Cons x xs)
    obtain z r1 where x: "f x r = (z, r1)" by (rule prod.exhaust)
    show ?case using Cons.prems x step_writesD [OF f x] run_writes_trans [OF step_writesD [OF f x] Cons.IH]
      by (cases z) auto
  qed simp
qed

lemma step_writes_pending [writing]: "step_writes S (process_pending S stale os ds ws)"
  unfolding process_pending_def by (cases stale) (simp_all, (intro writing)+)

text \<open>The same for an operation on the state and the world, as the loops run them.\<close>

definition app_writes :: "'w system \<Rightarrow> (app_state \<times> 'w, 'e, 'a) action \<Rightarrow> bool" where
  "app_writes S m \<longleftrightarrow> (\<forall>s w. writes S s (fst (snd (m (s, w)))))"

lemma app_writesD: "app_writes S m \<Longrightarrow> m (s, w) = (x, (s', w')) \<Longrightarrow> writes S s s'"
  unfolding app_writes_def by (metis fst_conv snd_conv)

lemma app_writesI: "(\<And>s w x s' w'. m (s, w) = (x, (s', w')) \<Longrightarrow> writes S s s') \<Longrightarrow> app_writes S m"
  unfolding app_writes_def by (metis surjective_pairing)

lemma app_writes_bind [writing]:
  "app_writes S m \<Longrightarrow> (\<And>a. app_writes S (g a)) \<Longrightarrow> app_writes S (bind_action m g)"
  by (rule app_writesI)
    (auto simp: bind_action_def split: prod.splits outcome.splits dest!: app_writesD intro: rtranclp_trans)

lemma app_writes_return [writing]: "app_writes S (return_action x)"
  by (simp add: app_writes_def return_action_def)

lemma app_writes_if [writing]: "app_writes S m \<Longrightarrow> app_writes S n \<Longrightarrow> app_writes S (if b then m else n)"
  by simp

lemma app_writes_world [writing]: "app_writes S (lift_snd m)"
  by (rule app_writesI) (auto simp: lift_snd_simp split: prod.splits)

lemma app_writes_update:
  "(\<And>s. single_write S s (f s)) \<Longrightarrow> app_writes S (\<lambda>(s, w). (x, (f s, g s w)))"
  by (auto simp: app_writes_def)

lemma app_writes_balance [writing]: "app_writes S (balance_gate S)"
proof (rule app_writesI)
  fix s w x s' w'
  assume g: "balance_gate S (s, w) = (x, (s', w'))"
  from balance_gate_frame [OF g] obtain f where "s' = s\<lparr>st_balance_below_min := f\<rparr>" by auto
  then show "writes S s s'" using single_write.flag_balance [of S s f] by simp
qed

lemma app_writes_reads [writing]: "app_writes S (pending_or_none S c k)"
proof (rule app_writesI)
  fix s w x s' w'
  assume p: "pending_or_none S c k (s, w) = (x, (s', w'))"
  from pending_or_none_frame [OF p] obtain i where "s' = s\<lparr>st_start_index := i\<rparr>" by auto
  then show "writes S s s'" using single_write.rotate_start [of S s i] by simp
qed

lemma app_writes_publish [writing]: "app_writes S (publish_prices S fresh)"
proof (rule app_writesI)
  fix s w x s' w'
  assume "publish_prices S fresh (s, w) = (x, (s', w'))"
  then have "s' = s \<or> (\<exists>ps now hb. s' = s\<lparr>st_price_cache := update_submitted_prices ps now hb (st_price_cache s)\<rparr>)"
    unfolding publish_prices_def Let_def
    by (auto simp: bind_action_def return_action_def lift_snd_simp split: outcome.splits prod.splits if_splits)
  then show "writes S s s'" by (auto intro: single_write.publish)
qed

lemma app_writes_run:
  assumes "step_writes S step"
  shows "app_writes S (\<lambda>(s, w). case step \<lparr>kr_app = s, kr_summary = m, kr_seq = c, kr_world = w\<rparr> of
    (r, k) \<Rightarrow> (bind_outcome r (\<lambda>_. Ok (kr_summary k)), (kr_app k, kr_world k)))"
proof (rule app_writesI, clarsimp split: prod.splits)
  fix s w x k
  assume "step \<lparr>kr_app = s, kr_summary = m, kr_seq = c, kr_world = w\<rparr> = (x, k)"
  from step_writesD [OF assms this] show "writes S s (kr_app k)" by (simp add: run_writes_def)
qed

lemma app_writes_work [writing]: "app_writes S (execute_work S fresh low os ds ws)"
  unfolding execute_work_def by (intro writing app_writes_run)

lemma writes_sweep: "writes S s (fst (sweep_expired_in_flight_keys S (s, w)))"
proof -
  obtain now w1 where i: "env_instant (sy_env S) w = (now, w1)" by (rule prod.exhaust)
  let ?g = "\<lambda>k. case st_in_flight s k of None \<Rightarrow> None | Some t \<Rightarrow> if IN_FLIGHT_EXPIRY < now - t then None else Some t"
  have "?g \<subseteq>\<^sub>m st_in_flight s" by (auto simp: map_le_def dom_def split: option.splits if_splits)
  from single_write.sweep [OF this, of S] show ?thesis by (simp add: sweep_expired_in_flight_keys_def i r_into_rtranclp)
qed

lemma app_writes_fresh:
  assumes "\<And>fresh. app_writes S (m fresh)"
  shows "app_writes S (\<lambda>(s, w). case f w of (now, w1) \<Rightarrow> let fresh = g now s in m fresh (s, w1))"
  by (rule app_writesI) (auto simp only: prod.case Let_def split: prod.splits dest!: app_writesD [OF assms])

lemma writes_pending: "writes S s (set_pending a b c s)"
  by (rule r_into_rtranclp, rule single_write.show_pending)

text \<open>The work of a cycle, once its keys are read.\<close>

lemma app_writes_shown_work [writing]:
  "app_writes S (\<lambda>(s, w). let s1 = set_pending (length os) (length ds) (length ws) s
     in if os = [] \<and> ds = [] \<and> ws = [] \<or> low then (Ok (summary_skipped (fresh = []) low), (s1, w))
        else execute_work S fresh low os ds ws (s1, w))"
proof (rule app_writesI)
  fix s w x s' w'
  let ?s1 = "set_pending (length os) (length ds) (length ws) s"
  assume "(\<lambda>(s, w). let s1 = set_pending (length os) (length ds) (length ws) s
     in if os = [] \<and> ds = [] \<and> ws = [] \<or> low then (Ok (summary_skipped (fresh = []) low), (s1, w))
        else execute_work S fresh low os ds ws (s1, w)) (s, w) = (x, (s', w'))"
  then have "s' = ?s1 \<or> execute_work S fresh low os ds ws (?s1, w) = (x, (s', w'))"
    by (auto simp: Let_def split: if_splits)
  moreover have "execute_work S fresh low os ds ws (?s1, w) = (x, (s', w')) \<Longrightarrow> writes S ?s1 s'"
    by (rule app_writesD [OF app_writes_work])
  ultimately show "writes S s s'" using writes_pending rtranclp_trans [OF writes_pending] by metis
qed

lemma app_writes_execute: "app_writes S (execute_keeper_cycle S)"
proof (rule app_writesI)
  fix s w x s' w'
  assume a: "execute_keeper_cycle S (s, w) = (x, (s', w'))"
  obtain s0 w0 where sweep: "sweep_expired_in_flight_keys S (s, w) = (s0, w0)" by (rule prod.exhaust)
  let ?cycle = "bind_action (balance_gate S) (\<lambda>keeper_balance_low (s, w).
       case current_timestamp_secs (sy_env S) w of (now, w1) \<Rightarrow>
       let fresh = fresh_prices (cf_tokens (sy_config S)) now (pc_prices (st_price_cache s)) in
       bind_action (pending_or_none S ''get_order_count'' ''get_order_keys'') (\<lambda>orders.
       bind_action (pending_or_none S ''get_deposit_count'' ''get_deposit_keys'') (\<lambda>deposits.
       bind_action (pending_or_none S ''get_withdrawal_count'' ''get_withdrawal_keys'') (\<lambda>withdrawals (s, w).
         let s1 = set_pending (length orders) (length deposits) (length withdrawals) s
         in if orders = [] \<and> deposits = [] \<and> withdrawals = [] \<or> keeper_balance_low
            then (Ok (summary_skipped (fresh = []) keeper_balance_low), (s1, w))
            else execute_work S fresh keeper_balance_low orders deposits withdrawals (s1, w)))) (s, w1))"
  have cycle: "app_writes S ?cycle"
    by (rule app_writes_bind, rule app_writes_balance, rule app_writes_fresh) (intro writing)
  have "?cycle (s0, w0) = (x, (s', w'))" using a sweep by (simp only: execute_keeper_cycle_def)
  from app_writesD [OF cycle this] have "writes S s0 s'" .
  moreover have "writes S s s0" using writes_sweep [of S s w] sweep by simp
  ultimately show "writes S s s'" by (rule rtranclp_trans [rotated])
qed

lemma writes_start: "writes S s (start_keeper_cycle s)"
proof -
  let ?s1 = "s\<lparr>st_generation := (st_generation s + 1) mod 2 ^ 64\<rparr>"
  have "single_write S s ?s1" by (rule single_write.next_generation)
  moreover have "single_write S ?s1 (?s1\<lparr>st_cycle_status := (st_cycle_status ?s1)\<lparr>cy_keeper_cycle_running := True\<rparr>\<rparr>)"
    by (rule single_write.stamp_cycle)
  ultimately show ?thesis by (simp add: start_keeper_cycle_def)
qed

lemma app_writes_finish: "writes S s (fst (finish_keeper_cycle S started r (s, w)))"
proof -
  obtain stop w1 where i: "env_instant (sy_env S) w = (stop, w1)" by (rule prod.exhaust)
  obtain t0 w2 where y: "env_system (sy_env S) w1 = (t0, w2)" by (rule prod.exhaust)
  let ?s1 = "stamp_keeper_cycle t0 ((stop - started) div 1000000) s"
  have 1: "writes S s ?s1" unfolding stamp_keeper_cycle_def by (rule r_into_rtranclp, rule single_write.stamp_cycle)
  have metered: "writes S s (close_generation (t\<lparr>st_metrics := m\<rparr>))" if "writes S s t" for t m
    using that single_write.count_metrics [of S t m] single_write.next_generation [of S "t\<lparr>st_metrics := m\<rparr>"]
    unfolding close_generation_def by (meson rtranclp.rtrancl_into_rtrancl)
  show ?thesis
  proof (cases r)
    case (Ok m)
    then show ?thesis by (auto simp: finish_keeper_cycle_def i y Let_def intro: metered [OF 1] split: prod.splits)
  next
    case (Err e)
    obtain s2 w3 where e: "record_error S ''keeper_cycle'' e None (?s1, w2) = (s2, w3)" by (rule prod.exhaust)
    then obtain f where "s2 = ?s1\<lparr>st_failures := ring_push f (st_failures ?s1)\<rparr>"
      using record_error_frame [of S "''keeper_cycle''" e None ?s1 w2] by auto
    then have 2: "writes S s s2" using 1 single_write.log_failure [of S ?s1 f] by simp
    show ?thesis using Err by (auto simp: finish_keeper_cycle_def i y Let_def e intro: metered [OF 2] split: prod.splits)
  next
    case Panic
    have "single_write S ?s1 (close_generation ?s1)"
      unfolding close_generation_def by (rule single_write.next_generation)
    then show ?thesis using Panic 1 by (simp add: finish_keeper_cycle_def i y)
  qed
qed

lemma writes_keeper_cycle:
  assumes "run_keeper_cycle S (s, w) = (x, (s', w'))"
  shows "writes S s s'"
proof -
  obtain started w1 where i: "env_instant (sy_env S) w = (started, w1)" by (rule prod.exhaust)
  obtain y s1 w2 where c: "execute_keeper_cycle S (start_keeper_cycle s, w1) = (y, (s1, w2))" by (metis prod.exhaust)
  have 1: "writes S s s1" by (rule rtranclp_trans [OF writes_start app_writesD [OF app_writes_execute c]])
  have "s' = s1 \<or> s' = fst (finish_keeper_cycle S started y (s1, w2))"
    using assms i c by (cases y) (auto simp: run_keeper_cycle_def intro: fst_conv [symmetric])
  then show ?thesis using 1 rtranclp_trans [OF 1 app_writes_finish] by metis
qed

lemma writes_timed_out_keeper_cycle: "writes S s (fst (snd (timed_out_keeper_cycle S started (s, w))))"
  by (simp add: timed_out_keeper_cycle_def app_writes_finish)

text \<open>The price cycle and the requests of the admin API.\<close>

lemma loggable_writes: "loggable (writes S s0)"
  unfolding loggable_def
  by (auto intro: writes_then single_write.log_failure single_write.count_metrics single_write.stamp_cycle)

lemma writes_update_cache:
  assumes "entries_valid S new"
  shows "writes S s (fst (update_cache S new (s, w)))"
  using single_write.refresh [OF assms, of s] single_write.clear_cache [of S s]
  by (auto simp: update_cache_def split: prod.splits)

lemma writes_execute_price_cycle:
  assumes x: "execute_price_cycle S F (s, w) = (x, (s', w'))" and np: "x \<noteq> Panic" and inv: "cache_valid S s"
  shows "writes S s s'"
  using x np
proof (cases rule: execute_price_cycle_cases)
  case (no_ledger message w2)
  have "writes S s (fst (record_cycle_error S ''get_latest_ledger'' message (s, w2)))"
    unfolding record_cycle_error_def by (rule loggable_error [where I = "writes S s", OF loggable_writes]) simp
  then show ?thesis using no_ledger(2) by (metis fst_conv)
next
  case (tokens now ledger_seq tickers feeds failed w1 w2 results sw1 new_prices counts sw2)
  let ?batch = "\<lparr>ba_pyth = feeds, ba_pyth_failed = failed, ba_binance = tickers\<rparr>"
  let ?acc = "([], 0, 0, stale_cached (cf_tokens (sy_config S)) now (pc_prices (st_price_cache s)))
    :: (string, cached_price) btree \<times> price_counts"
  let ?I = "\<lambda>t. writes S s t \<and> cache_valid S t"
  have I: "loggable ?I" by (rule loggable_conj [OF loggable_writes loggable_cache_valid])
  have "?I (fst (snd (build_all S F ledger_seq ?batch (cf_tokens (sy_config S)) (s, w2))))"
    by (rule loggable_build_all [where I = ?I, OF I]) (simp add: inv)
  then have s1: "?I (fst sw1)" using tokens(2) by simp
  have "?I (fst (snd (settle_results S ledger_seq results ?acc sw1)))"
    by (rule loggable_settle [where I = ?I, OF I s1])
  then have s2: "writes S s (fst sw2)" using tokens(3) by simp
  have "batch_positive ?batch" by (rule binance_batch_positive [OF tokens(1)])
  from build_all_results [OF this tokens(2) subset_refl]
  have "\<forall>(token, r) \<in> set results. \<forall>p. r = Ok p \<longrightarrow> price_valid S (lookup_key token) p" by auto
  then have "entries_valid S (fst (fst (settle_results S ledger_seq results ?acc sw1)))"
    using s1 by (intro settle_entries) simp_all
  then have new: "entries_valid S new_prices" using tokens(3) by simp
  have "writes S (fst sw2) s'" using writes_update_cache [OF new, of "fst sw2" "snd sw2"] tokens(5) by (metis fst_conv prod.collapse)
  with s2 show ?thesis by (rule rtranclp_trans)
qed

lemma writes_finish_cycle: "writes S s0 (fst sw) \<Longrightarrow> writes S s0 (fst (finish_cycle S started counts sw))"
proof -
  assume w: "writes S s0 (fst sw)"
  obtain s w0 a b d where sw: "sw = (s, w0)" and counts: "counts = (a, b, d)" by (metis prod.exhaust)
  obtain stop w1 where i: "env_instant (sy_env S) w0 = (stop, w1)" by (rule prod.exhaust)
  obtain t0 w2 where y: "env_system (sy_env S) w1 = (t0, w2)" by (rule prod.exhaust)
  let ?s1 = "s\<lparr>st_cycle_status := (st_cycle_status s)\<lparr>cy_price_cycle_running := False, cy_last_price_cycle_at := Some t0\<rparr>\<rparr>"
  have "writes S s0 ?s1" by (rule writes_then [OF w [unfolded sw fst_conv] single_write.stamp_cycle])
  then have "writes S s0 (fst (on_metrics (record_price_cycle (sy_env S) ((stop - started) div 1000000) a b) (?s1, w2)))"
    by (intro loggable_metrics [where I = "writes S s0", OF loggable_writes]) simp
  then show ?thesis by (simp add: finish_cycle_def sw counts i y)
qed

lemma writes_price_cycle:
  assumes x: "run_price_cycle S F (s, w) = (x, (s', w'))" and np: "x \<noteq> Panic" and inv: "cache_valid S s"
  shows "writes S s s'"
proof -
  obtain started w1 where i: "env_instant (sy_env S) w = (started, w1)" by (rule prod.exhaust)
  obtain y s1 w2 where c: "execute_price_cycle S F (start_price_cycle s, w1) = (y, (s1, w2))" by (metis prod.exhaust)
  have y: "y \<noteq> Panic" using x np i c by (auto simp: run_price_cycle_def bind_action_def)
  have "single_write S s (start_price_cycle s)" unfolding start_price_cycle_def by (rule single_write.stamp_cycle)
  moreover have "writes S (start_price_cycle s) s1"
    using writes_execute_price_cycle [OF c y] inv by (simp add: cache_valid_def start_price_cycle_def)
  ultimately have 1: "writes S s s1" by (rule converse_rtranclp_into_rtranclp)
  have "s' = s1 \<or> s' = fst (finish_cycle S started counts (s1, w2))" if "y = Ok counts" for counts
    using x i c that by (auto simp: run_price_cycle_def bind_action_def intro: fst_conv [symmetric])
  moreover have "s' = s1" if "y = Err e" for e
    using x i c that by (simp add: run_price_cycle_def bind_action_def)
  ultimately show ?thesis using 1 y writes_finish_cycle [of S s "(s1, w2)"] by (cases y) auto
qed

lemma writes_login: "admin_auth S rq (s, w) = (r, (s', w')) \<Longrightarrow> writes S s s'"
proof -
  assume a: "admin_auth S rq (s, w) = (r, (s', w'))"
  have "single_write S s (s\<lparr>st_limiter := st_limiter s'\<rparr>)" by (rule single_write.limit_login)
  moreover have "single_write S (s\<lparr>st_limiter := st_limiter s'\<rparr>) (s\<lparr>st_limiter := st_limiter s', st_metrics := st_metrics s'\<rparr>)"
    by (rule single_write.count_metrics)
  ultimately have "writes S s (s\<lparr>st_limiter := st_limiter s', st_metrics := st_metrics s'\<rparr>)" by simp
  then show ?thesis using admin_auth_frame [OF a] by simp
qed

lemma writes_clear: "clear_blacklisted_key k s = (r, s') \<Longrightarrow> writes S s s'"
proof -
  assume a: "clear_blacklisted_key k s = (r, s')"
  let ?s1 = "s\<lparr>st_blacklist := (st_blacklist s)(k := None)\<rparr>"
  have "single_write S s ?s1" by (rule single_write.lift)
  moreover have "single_write S ?s1 (clear_freeze_failures k ?s1)" by (rule single_write.clear_freezes)
  moreover have "single_write S (clear_freeze_failures k ?s1) (clear_execution_failures k (clear_freeze_failures k ?s1))"
    by (rule single_write.clear_failures)
  ultimately have "writes S s (clear_execution_failures k (clear_freeze_failures k ?s1))" by simp
  then show ?thesis
    using a by (auto simp: clear_blacklisted_key_def clear_execution_failures_def clear_freeze_failures_def split: if_splits)
qed

lemma service_step_writes:
  assumes "service_step S F sw sw'" and "system_inv S (fst sw)"
  shows "writes S (fst sw) (fst sw')"
  using assms(1)
proof (cases rule: service_step.cases)
  case (keeper x)
  then show ?thesis using writes_keeper_cycle [of S "fst sw" "snd sw" x "fst sw'" "snd sw'"] by simp
next
  case (prices y)
  then show ?thesis
    using writes_price_cycle [of S F "fst sw" "snd sw" y "fst sw'" "snd sw'"] assms(2) by (simp add: system_inv_def)
next
  case (login rq z)
  then show ?thesis using writes_login [of S rq "fst sw" "snd sw" z "fst sw'" "snd sw'"] by simp
next
  case (clear k s r s' w)
  then show ?thesis using writes_clear by simp
next
  case (idle s w w')
  then show ?thesis by simp
qed

section \<open>What every sequence of writes keeps\<close>

text \<open>
  The part of the invariant that needs no two writes to happen together: the logs, the cached
  prices, the counts and the marks of abandoned keys.
\<close>

definition write_inv :: "'w system \<Rightarrow> app_state \<Rightarrow> bool" where
  "write_inv S s \<longleftrightarrow> logs_bounded s \<and> cache_valid S s \<and>
     (\<forall>k n. st_blacklist s k = Some n \<longrightarrow> MAX_CONSECUTIVE_FREEZE_FAILURES \<le> n) \<and>
     (\<forall>k n. st_execution_failures s k = Some n \<longrightarrow> 1 \<le> n) \<and>
     (\<forall>k n. st_freeze_failures s k = Some n \<longrightarrow> 1 \<le> n)"

lemma write_inv_new: "write_inv S app_state_new"
  using logs_bounded_new system_inv_new [of S]
  by (simp add: write_inv_def system_inv_def app_state_new_def)

lemma cache_valid_updates:
  "cache_valid S (s\<lparr>st_price_cache := update_submitted_prices ps now hb (st_price_cache s)\<rparr>) = cache_valid S s"
  by (simp add: cache_valid_def update_submitted_prices_def)

lemma write_inv_log:
  "write_inv S s \<Longrightarrow> write_inv S (s\<lparr>st_failures := ring_push f (st_failures s)\<rparr>)"
  "write_inv S s \<Longrightarrow> write_inv S (s\<lparr>st_keeper_status := push_execution e (st_keeper_status s)\<rparr>)"
  by (simp_all add: write_inv_def logs_bounded_push_failure logs_bounded_push_execution cache_valid_def)

lemma write_inv_cache:
  "write_inv S s \<Longrightarrow> cache_valid S (s\<lparr>st_price_cache := c\<rparr>) \<Longrightarrow> write_inv S (s\<lparr>st_price_cache := c\<rparr>)"
  by (simp add: write_inv_def logs_bounded_def)

lemma single_write_inv:
  assumes "single_write S s s'" and inv: "write_inv S s"
  shows "write_inv S s'"
  using assms(1)
proof (cases rule: single_write.cases)
  case (log_failure f)
  then show ?thesis using write_inv_log(1) [OF inv] by simp
next
  case (log_execution e)
  then show ?thesis using write_inv_log(2) [OF inv] by simp
next
  case (publish ps now hb)
  have "cache_valid S s" using inv by (simp add: write_inv_def)
  then show ?thesis using publish write_inv_cache [OF inv] cache_valid_updates by blast
next
  case (refresh new t0)
  have "entries_valid S (bt_insert_all new (pc_prices (st_price_cache s)))"
    using refresh(2) inv by (simp add: write_inv_def cache_valid_def entries_valid_insert_all)
  then show ?thesis unfolding refresh(1) by (intro write_inv_cache [OF inv]) (simp add: cache_valid_def)
next
  case clear_cache
  then show ?thesis using write_inv_cache [OF inv] by (simp add: cache_valid_def)
qed (use inv in \<open>auto simp: write_inv_def logs_bounded_def cache_valid_def set_pending_def release_key_def
    clear_execution_failures_def clear_freeze_failures_def blacklist_key_def next_count_def split: option.splits if_splits\<close>)

lemma writes_inv: "writes S s s' \<Longrightarrow> write_inv S s \<Longrightarrow> write_inv S s'"
  by (induction rule: rtranclp_induct) (auto intro: single_write_inv)

lemma reachable_writes: "reachable S F sw \<Longrightarrow> writes S app_state_new (fst sw)"
proof (induction rule: reachable.induct)
  case (step sw sw')
  show ?case by (rule rtranclp_trans [OF step.IH service_step_writes [OF step.hyps(2) reachable_inv [OF step.hyps(1)]]])
qed simp

text \<open>
  The loops and the admin API refine the single writes: every state the service reaches,
  whole cycles and requests at a time, is reached by single writes, each one critical section of
  the code. A cached price is only ever written when it is signed and aggregated for its token,
  a key is only abandoned after at least the limit of failures, and a sweep only forgets claims.
\<close>

theorem service_refines_writes:
  assumes "reachable S F sw"
  shows "writes S app_state_new (fst sw)"
  using assms by (rule reachable_writes)

theorem service_refines_writes_witness:
  "writes admin_system app_state_new (fst (app_state_new\<lparr>st_limiter := [(''unknown'', 1, 0)],
     st_metrics := record_http_auth_failure ''unknown'' (st_metrics app_state_new)\<rparr>, ([], 0, 0) :: script))"
  by (rule service_refines_writes [where F = "\<lparr>fo_bps = \<lambda>_. [], fo_debug = \<lambda>_. []\<rparr>"])
    (rule reachable.step [OF reachable.start], rule service_step.login, rule anonymous_login)

text \<open>
  Interleaved and dropped cycles. Whatever writes of cycles and requests happened since a
  reachable state, in whatever order, and wherever a cycle over its budget was dropped: the logs
  stay within their bounds, every cached price is signed and aggregated for its token, and only
  keys that failed too often are marked as abandoned; so it is before and after the dropped cycle
  is recorded.
\<close>

theorem dropped_cycles_keep_invariant:
  assumes "reachable S F (s, w)" and "writes S s dropped"
  shows "write_inv S dropped
    \<and> write_inv S (fst (snd (timed_out_keeper_cycle S started (dropped, v))))
    \<and> write_inv S (fst (timed_out_price_cycle S started (dropped, v)))"
proof -
  have "writes S app_state_new dropped" using reachable_writes [OF assms(1)] assms(2) by simp
  then have 1: "write_inv S dropped" using writes_inv write_inv_new by blast
  have "writes S dropped (fst (timed_out_price_cycle S started (dropped, v)))"
    unfolding timed_out_price_cycle_def by (rule writes_finish_cycle) simp
  from writes_inv [OF this 1] writes_inv [OF writes_timed_out_keeper_cycle 1] 1 show ?thesis by blast
qed

theorem dropped_cycles_keep_invariant_witness:
  "write_inv admin_system (app_state_new\<lparr>st_in_flight := [''k'' \<mapsto> 7]\<rparr>)"
proof -
  have "single_write admin_system app_state_new (app_state_new\<lparr>st_in_flight := (st_in_flight app_state_new)(''k'' \<mapsto> 7)\<rparr>)"
    by (rule single_write.claim)
  then have "writes admin_system app_state_new (app_state_new\<lparr>st_in_flight := [''k'' \<mapsto> 7]\<rparr>)"
    by (simp add: app_state_new_def)
  from dropped_cycles_keep_invariant [OF reachable.start [where w = "([], 0, 0)"
        and F = "\<lparr>fo_bps = \<lambda>_. [], fo_debug = \<lambda>_. []\<rparr>"] this,
      where started = 0 and v = "([], 0, 0)"]
  show ?thesis by simp
qed

end
