(* ===== verification/Oracle_Loops.thy ===== *)
theory Oracle_Loops
  imports Oracle_Interleaving
begin

text \<open>
  The two endless loops (\<^verbatim>\<open>run_price_loop\<close>, \<^verbatim>\<open>run_keeper_loop\<close>): waiting for the next tick, the pause of
  an idle keeper, the cycle raced against the shutdown token and against its own budget. A step is
  one branch of a \<^verbatim>\<open>select!\<close>; when several are ready, any may be taken. Time is in milliseconds of the
  runtime's clock, and passes between steps.
\<close>

section \<open>The loops\<close>

definition IDLE_BACKOFF_MULTIPLIER :: u32 where "IDLE_BACKOFF_MULTIPLIER = 4"

datatype loop_phase = Waiting | BackingOff nat | Running nat | Stopped | Crashed

text \<open>The ticker's next deadline, where the loop is, and whether its last cycle found no work.\<close>

record loop_task =
  lt_deadline :: nat
  lt_phase :: loop_phase
  lt_idle :: bool

definition loop_start :: "nat \<Rightarrow> loop_task" where
  "loop_start now = \<lparr>lt_deadline = now, lt_phase = Waiting, lt_idle = False\<rparr>"

text \<open>
  The ticker is the runtime's: \<open>ticker deadline now\<close> is the deadline after a tick that was due at
  \<open>deadline\<close> and taken at \<open>now\<close>. With \<^verbatim>\<open>MissedTickBehavior::Delay\<close> it lies in the future, at most one
  period ahead and never less than one period after the last.
\<close>

type_synonym ticker = "nat \<Rightarrow> nat \<Rightarrow> nat"

definition delay_ticker :: "nat \<Rightarrow> ticker \<Rightarrow> bool" where
  "delay_ticker period ticker \<longleftrightarrow>
     (\<forall>deadline now. deadline \<le> now \<longrightarrow>
        now < ticker deadline now \<and> ticker deadline now \<le> now + period \<and> deadline + period \<le> ticker deadline now)"

text \<open>
  The price loop, with the shutdown token cancelled or not and at a given time. A cycle over its
  budget is dropped in whatever state its writes had led to, and so is one that the shutdown
  overtakes.
\<close>

inductive price_loop_step ::
  "ticker \<Rightarrow> 'w system \<Rightarrow> formats \<Rightarrow> bool \<Rightarrow> nat \<Rightarrow> loop_task \<times> (app_state \<times> 'w) \<Rightarrow> loop_task \<times> (app_state \<times> 'w) \<Rightarrow> bool"
  for ticker S F cancelled now where
  price_tick: "lt_phase l = Waiting \<Longrightarrow> lt_deadline l \<le> now
    \<Longrightarrow> price_loop_step ticker S F cancelled now (l, sw)
          (l\<lparr>lt_deadline := ticker (lt_deadline l) now, lt_phase := Running now\<rparr>, sw)"
| price_stop: "lt_phase l = Waiting \<Longrightarrow> cancelled
    \<Longrightarrow> price_loop_step ticker S F cancelled now (l, sw) (l\<lparr>lt_phase := Stopped\<rparr>, sw)"
| price_cycle: "lt_phase l = Running t \<Longrightarrow> run_price_cycle S F sw = (x, sw') \<Longrightarrow> x \<noteq> Panic
    \<Longrightarrow> price_loop_step ticker S F cancelled now (l, sw) (l\<lparr>lt_phase := Waiting\<rparr>, sw')"
| price_timeout: "lt_phase l = Running t \<Longrightarrow> t + PRICE_CYCLE_TIMEOUT_SECS * 1000 \<le> now \<Longrightarrow> writes S (fst sw) dropped
    \<Longrightarrow> timed_out_price_cycle S started (dropped, w) = sw'
    \<Longrightarrow> price_loop_step ticker S F cancelled now (l, sw) (l\<lparr>lt_phase := Waiting\<rparr>, sw')"
| price_drop: "lt_phase l = Running t \<Longrightarrow> cancelled \<Longrightarrow> writes S (fst sw) dropped
    \<Longrightarrow> price_loop_step ticker S F cancelled now (l, sw) (l\<lparr>lt_phase := Stopped\<rparr>, (dropped, w))"
| price_crash: "lt_phase l = Running t \<Longrightarrow> run_price_cycle S F sw = (Panic, sw')
    \<Longrightarrow> price_loop_step ticker S F cancelled now (l, sw) (l\<lparr>lt_phase := Crashed\<rparr>, sw')"

text \<open>The keeper loop also pauses after a tick when its last cycle executed nothing.\<close>

inductive keeper_loop_step ::
  "ticker \<Rightarrow> 'w system \<Rightarrow> bool \<Rightarrow> nat \<Rightarrow> loop_task \<times> (app_state \<times> 'w) \<Rightarrow> loop_task \<times> (app_state \<times> 'w) \<Rightarrow> bool"
  for ticker S cancelled now where
  keeper_tick: "lt_phase l = Waiting \<Longrightarrow> lt_deadline l \<le> now
    \<Longrightarrow> keeper_loop_step ticker S cancelled now (l, sw)
          (l\<lparr>lt_deadline := ticker (lt_deadline l) now,
             lt_phase := (if lt_idle l
               then BackingOff (now + cf_keeper_loop_interval_ms (sy_config S) * IDLE_BACKOFF_MULTIPLIER)
               else Running now)\<rparr>, sw)"
| keeper_slept: "lt_phase l = BackingOff t \<Longrightarrow> t \<le> now
    \<Longrightarrow> keeper_loop_step ticker S cancelled now (l, sw) (l\<lparr>lt_phase := Running now\<rparr>, sw)"
| keeper_stop: "lt_phase l = Waiting \<or> lt_phase l = BackingOff t \<Longrightarrow> cancelled
    \<Longrightarrow> keeper_loop_step ticker S cancelled now (l, sw) (l\<lparr>lt_phase := Stopped\<rparr>, sw)"
| keeper_cycle: "lt_phase l = Running t \<Longrightarrow> run_keeper_cycle S sw = (x, sw') \<Longrightarrow> x \<noteq> Panic
    \<Longrightarrow> keeper_loop_step ticker S cancelled now (l, sw) (l\<lparr>lt_phase := Waiting, lt_idle := keeper_idle x\<rparr>, sw')"
| keeper_timeout: "lt_phase l = Running t \<Longrightarrow> t + KEEPER_CYCLE_TIMEOUT_SECS * 1000 \<le> now \<Longrightarrow> writes S (fst sw) dropped
    \<Longrightarrow> timed_out_keeper_cycle S started (dropped, w) = (x, sw')
    \<Longrightarrow> keeper_loop_step ticker S cancelled now (l, sw) (l\<lparr>lt_phase := Waiting, lt_idle := keeper_idle x\<rparr>, sw')"
| keeper_drop: "lt_phase l = Running t \<Longrightarrow> cancelled \<Longrightarrow> writes S (fst sw) dropped
    \<Longrightarrow> keeper_loop_step ticker S cancelled now (l, sw) (l\<lparr>lt_phase := Stopped\<rparr>, (dropped, w))"
| keeper_crash: "lt_phase l = Running t \<Longrightarrow> run_keeper_cycle S sw = (Panic, sw')
    \<Longrightarrow> keeper_loop_step ticker S cancelled now (l, sw) (l\<lparr>lt_phase := Crashed\<rparr>, sw')"

inductive_cases price_loop_stepE: "price_loop_step ticker S F cancelled now x y"
inductive_cases keeper_loop_stepE: "keeper_loop_step ticker S cancelled now x y"

section \<open>A loop only writes\<close>

lemma writes_price_panic:
  assumes x: "run_price_cycle S F (s, w) = (Panic, (s', w'))"
  shows "writes S s s'"
proof -
  obtain started w1 where i: "env_instant (sy_env S) w = (started, w1)" by (rule prod.exhaust)
  obtain y s1 w2 where c: "execute_price_cycle S F (start_price_cycle s, w1) = (y, (s1, w2))" by (metis prod.exhaust)
  have y: "y = Panic" "s' = s1" using x i c by (auto simp: run_price_cycle_def bind_action_def split: outcome.splits)
  have start: "writes S s (start_price_cycle s)"
    unfolding start_price_cycle_def by (rule r_into_rtranclp, rule single_write.stamp_cycle)
  have build: "writes S s (fst (snd (build_all S F l b ts (start_price_cycle s, v))))" for l b ts v
    by (rule loggable_build_all [where I = "writes S s", OF loggable_writes]) (simp add: start)
  have "s1 = start_price_cycle s \<or> (\<exists>l b ts v. s1 = fst (snd (build_all S F l b ts (start_price_cycle s, v))))"
    using c y(1)
    by (auto simp: execute_price_cycle_def price_tokens_def bind_action_def return_action_def lift_snd_simp Let_def
        split: prod.splits outcome.splits) (metis fst_conv snd_conv)+
  then show ?thesis using start build y(2) by auto
qed

lemma price_loop_writes:
  assumes "price_loop_step ticker S F c now (l, sw) (l', sw')" and "cache_valid S (fst sw)"
  shows "writes S (fst sw) (fst sw')"
  using assms(1)
proof (cases rule: price_loop_step.cases)
  case (price_cycle t x)
  then show ?thesis using writes_price_cycle [of S F "fst sw" "snd sw" x "fst sw'" "snd sw'"] assms(2) by simp
next
  case (price_timeout t dropped started w)
  have "writes S (fst sw) (fst (finish_cycle S started (0, length (cf_tokens (sy_config S)), 0) (dropped, w)))"
    by (rule writes_finish_cycle) (simp add: price_timeout)
  then show ?thesis using price_timeout by (simp add: timed_out_price_cycle_def)
next
  case (price_crash t)
  then show ?thesis using writes_price_panic [of S F "fst sw" "snd sw" "fst sw'" "snd sw'"] by simp
qed simp_all

lemma keeper_loop_writes:
  assumes "keeper_loop_step ticker S c now (l, sw) (l', sw')"
  shows "writes S (fst sw) (fst sw')"
  using assms
proof (cases rule: keeper_loop_step.cases)
  case (keeper_cycle t x)
  then show ?thesis using writes_keeper_cycle [of S "fst sw" "snd sw" x "fst sw'" "snd sw'"] by simp
next
  case (keeper_timeout t dropped started w x)
  have "writes S dropped (fst (snd (timed_out_keeper_cycle S started (dropped, w))))"
    by (rule writes_timed_out_keeper_cycle)
  then show ?thesis using keeper_timeout by simp
next
  case (keeper_crash t)
  then show ?thesis using writes_keeper_cycle [of S "fst sw" "snd sw" Panic "fst sw'" "snd sw'"] by simp
qed simp_all

section \<open>Shutdown\<close>

text \<open>
  How many more steps a loop can take at one moment once the token is cancelled: the ticker and
  the pause lie in the future after they were taken.
\<close>

fun steps_left :: "nat \<Rightarrow> nat \<Rightarrow> loop_phase \<Rightarrow> nat" where
  "steps_left now deadline Waiting = (if deadline \<le> now then 3 else 1)"
| "steps_left now deadline (BackingOff t) = (if t \<le> now then (if deadline \<le> now then 5 else 3) else 1)"
| "steps_left now deadline (Running t) = (if deadline \<le> now then 4 else 2)"
| "steps_left now deadline Stopped = 0"
| "steps_left now deadline Crashed = 0"

definition loop_rank :: "nat \<Rightarrow> loop_task \<times> (app_state \<times> 'w) \<Rightarrow> nat" where
  "loop_rank now x = steps_left now (lt_deadline (fst x)) (lt_phase (fst x))"

lemma delay_tickerD:
  "delay_ticker p ticker \<Longrightarrow> d \<le> t \<Longrightarrow> t < ticker d t"
  "delay_ticker p ticker \<Longrightarrow> d \<le> t \<Longrightarrow> ticker d t \<le> t + p"
  "delay_ticker p ticker \<Longrightarrow> d \<le> t \<Longrightarrow> d + p \<le> ticker d t"
  by (simp_all add: delay_ticker_def)

lemma rank_price: "delay_ticker p ticker \<Longrightarrow> price_loop_step ticker S F c now x y \<Longrightarrow> loop_rank now y < loop_rank now x"
  by (erule price_loop_step.cases) (auto simp: loop_rank_def delay_tickerD(1) not_le)

lemma rank_keeper:
  "delay_ticker p ticker \<Longrightarrow> 0 < cf_keeper_loop_interval_ms (sy_config S) \<Longrightarrow> keeper_loop_step ticker S c now x y
    \<Longrightarrow> loop_rank now y < loop_rank now x"
  by (erule keeper_loop_step.cases)
    (auto simp: loop_rank_def not_le IDLE_BACKOFF_MULTIPLIER_def dest: delay_tickerD(1))

lemma steps_bounded:
  assumes "\<And>x y. R x y \<Longrightarrow> (f y :: nat) < f x"
  shows "(R ^^ n) x y \<Longrightarrow> n \<le> f x"
proof -
  have "(R ^^ n) x y \<Longrightarrow> n + f y \<le> f x" for y
  proof (induction n arbitrary: y)
    case (Suc n)
    then obtain z where "(R ^^ n) x z" "R z y" by auto
    then show ?case using Suc.IH [of z] assms [of z y] by simp
  qed simp
  then show "(R ^^ n) x y \<Longrightarrow> n \<le> f x" by fastforce
qed

lemma loop_rank_le: "loop_rank now x \<le> 5"
  by (cases "(now, lt_deadline (fst x), lt_phase (fst x))" rule: steps_left.cases) (simp_all add: loop_rank_def)

definition ended :: "loop_task \<Rightarrow> bool" where
  "ended l \<longleftrightarrow> lt_phase l = Stopped \<or> lt_phase l = Crashed"

definition pausing :: "loop_task \<Rightarrow> bool" where
  "pausing l \<longleftrightarrow> (\<exists>t. lt_phase l = BackingOff t)"

lemma price_can_stop:
  assumes "\<not> ended l" and "\<not> pausing l"
  shows "price_loop_step ticker S F True now (l, sw) (l\<lparr>lt_phase := Stopped\<rparr>, sw)"
proof (cases "lt_phase l")
  case Waiting
  then show ?thesis by (rule price_loop_step.price_stop) simp
next
  case (Running t)
  then show ?thesis using price_loop_step.price_drop [of l t True S sw "fst sw" ticker F now "snd sw"] by simp
qed (use assms in \<open>auto simp: ended_def pausing_def\<close>)

lemma keeper_can_stop:
  assumes "\<not> ended l"
  shows "keeper_loop_step ticker S True now (l, sw) (l\<lparr>lt_phase := Stopped\<rparr>, sw)"
proof (cases "lt_phase l")
  case (Running t)
  then show ?thesis using keeper_loop_step.keeper_drop [of l t True S sw "fst sw" ticker now "snd sw"] by simp
qed (use assms in \<open>auto simp: ended_def intro: keeper_loop_step.keeper_stop\<close>)

text \<open>
  C10: A loop ends only after the shutdown token is cancelled, or by a panic of a cycle. Once it is
  cancelled, the loop can end at that very moment from wherever it is, waiting, pausing or in the
  middle of a cycle; and it cannot put that off: it has at most five steps to take before it has
  ended or has nothing ready but its end.
\<close>

theorem loops_stop_when_cancelled:
  assumes "delay_ticker p ticker" and "0 < cf_keeper_loop_interval_ms (sy_config S)"
  shows "(price_loop_step ticker S F False now (l, sw) y \<longrightarrow> lt_phase (fst y) \<noteq> Stopped)
    \<and> (keeper_loop_step ticker S False now (l, sw) y \<longrightarrow> lt_phase (fst y) \<noteq> Stopped)
    \<and> (ended l \<or> pausing l \<or> price_loop_step ticker S F True now (l, sw) (l\<lparr>lt_phase := Stopped\<rparr>, sw))
    \<and> (ended l \<or> keeper_loop_step ticker S True now (l, sw) (l\<lparr>lt_phase := Stopped\<rparr>, sw))
    \<and> ((price_loop_step ticker S F True now ^^ n) (l, sw) y \<longrightarrow> n \<le> 5)
    \<and> ((keeper_loop_step ticker S True now ^^ n) (l, sw) y \<longrightarrow> n \<le> 5)"
proof (intro conjI impI)
  assume "price_loop_step ticker S F False now (l, sw) y"
  then show "lt_phase (fst y) \<noteq> Stopped" by cases auto
next
  assume "keeper_loop_step ticker S False now (l, sw) y"
  then show "lt_phase (fst y) \<noteq> Stopped" by cases auto
next
  assume "(price_loop_step ticker S F True now ^^ n) (l, sw) y"
  then have "n \<le> loop_rank now (l, sw)" by (rule steps_bounded [rotated]) (rule rank_price [OF assms(1)])
  then show "n \<le> 5" using loop_rank_le le_trans by blast
next
  assume "(keeper_loop_step ticker S True now ^^ n) (l, sw) y"
  then have "n \<le> loop_rank now (l, sw)" by (rule steps_bounded [rotated]) (rule rank_keeper [OF assms])
  then show "n \<le> 5" using loop_rank_le le_trans by blast
qed (use price_can_stop keeper_can_stop in blast)+

definition sample_ticker :: ticker where
  "sample_ticker deadline now = (if now \<le> deadline + 5 then deadline + 1000 else now + 1000)"

lemma sample_ticker: "delay_ticker 1000 sample_ticker"
  by (simp add: delay_ticker_def sample_ticker_def)

lemma sample_interval: "cf_keeper_loop_interval_ms (sy_config sample_system) = 1000"
  by (simp add: sample_system_def sample_config_def)

theorem loops_stop_when_cancelled_witness:
  "keeper_loop_step sample_ticker sample_system True 700
     (\<lparr>lt_deadline = 1000, lt_phase = BackingOff 4000, lt_idle = True\<rparr>, (app_state_new, ([], 0, 0)))
     (\<lparr>lt_deadline = 1000, lt_phase = Stopped, lt_idle = True\<rparr>, (app_state_new, ([], 0, 0)))"
  using loops_stop_when_cancelled [OF sample_ticker, where S = sample_system and now = 700
      and l = "\<lparr>lt_deadline = 1000, lt_phase = BackingOff 4000, lt_idle = True\<rparr>" and sw = "(app_state_new, ([], 0, 0))"]
  by (simp add: sample_interval ended_def)

section \<open>The pace of an idle keeper\<close>

text \<open>
  The loop as time passes: between its steps the rest of the service may change the state.
\<close>

inductive keeper_timeline ::
  "ticker \<Rightarrow> 'w system \<Rightarrow> bool \<Rightarrow> nat \<times> loop_task \<times> (app_state \<times> 'w) \<Rightarrow> nat \<times> loop_task \<times> (app_state \<times> 'w) \<Rightarrow> bool"
  for ticker S cancelled x where
  still: "keeper_timeline ticker S cancelled x x"
| elapse: "keeper_timeline ticker S cancelled x (t, (l, sw)) \<Longrightarrow> t \<le> t'
    \<Longrightarrow> keeper_timeline ticker S cancelled x (t', (l, sw'))"
| step: "keeper_timeline ticker S cancelled x (t, y) \<Longrightarrow> keeper_loop_step ticker S cancelled t y z
    \<Longrightarrow> keeper_timeline ticker S cancelled x (t, z)"

abbreviation idle_pause :: "'w system \<Rightarrow> nat" where
  "idle_pause S \<equiv> 4 * cf_keeper_loop_interval_ms (sy_config S)"

fun pause_kept :: "nat \<Rightarrow> nat \<Rightarrow> nat \<Rightarrow> loop_task \<Rightarrow> loop_phase \<Rightarrow> bool" where
  "pause_kept t0 until t l Waiting \<longleftrightarrow> lt_idle l \<or> until \<le> t"
| "pause_kept t0 until t l (BackingOff u) \<longleftrightarrow> until \<le> u"
| "pause_kept t0 until t l (Running u) \<longleftrightarrow> until \<le> u \<and> u \<le> t"
| "pause_kept t0 until t l Stopped \<longleftrightarrow> True"
| "pause_kept t0 until t l Crashed \<longleftrightarrow> True"

lemma pause_kept_step:
  assumes "keeper_loop_step ticker S c t y z" and "t0 \<le> t" and "pause_kept t0 (t0 + idle_pause S) t (fst y) (lt_phase (fst y))"
  shows "pause_kept t0 (t0 + idle_pause S) t (fst z) (lt_phase (fst z))"
  using assms by cases (auto simp: IDLE_BACKOFF_MULTIPLIER_def)

lemma pause_kept_timeline:
  assumes "keeper_timeline ticker S c (t0, (l, sw)) y" and "lt_phase l = Waiting" and "lt_idle l"
  shows "t0 \<le> fst y \<and> pause_kept t0 (t0 + idle_pause S) (fst y) (fst (snd y)) (lt_phase (fst (snd y)))"
  using assms(1)
proof (induction rule: keeper_timeline.induct)
  case still
  then show ?case using assms(2,3) by simp
next
  case (elapse t l sw t' sw')
  then show ?case by (cases "lt_phase l") auto
next
  case (step t y z)
  then show ?case using pause_kept_step [OF step.hyps(2)] by simp
qed

text \<open>
  C12: After a cycle that executed nothing, the keeper loop starts none for four of its intervals;
  and when its ticker is due it starts the next one right after them, with the ticker due again. So
  an idle keeper runs a cycle every four intervals.
\<close>

theorem idle_keeper_pauses_four_intervals:
  assumes "delay_ticker (cf_keeper_loop_interval_ms (sy_config S)) ticker"
    and "lt_phase l = Waiting" and "lt_idle l"
  shows "(keeper_timeline ticker S c (t0, (l, sw)) (t, (l', sw')) \<longrightarrow> lt_phase l' = Running u \<longrightarrow> t0 + idle_pause S \<le> u)
    \<and> (lt_deadline l \<le> t0 \<longrightarrow> (\<exists>l'. keeper_timeline ticker S c (t0, (l, sw)) (t0 + idle_pause S, (l', sw))
         \<and> lt_phase l' = Running (t0 + idle_pause S) \<and> lt_deadline l' \<le> t0 + idle_pause S))"
proof (intro conjI impI)
  assume "keeper_timeline ticker S c (t0, (l, sw)) (t, (l', sw'))" and "lt_phase l' = Running u"
  then show "t0 + idle_pause S \<le> u" using pause_kept_timeline [OF _ assms(2,3)] by fastforce
next
  assume due: "lt_deadline l \<le> t0"
  let ?p = "cf_keeper_loop_interval_ms (sy_config S)"
  let ?l1 = "l\<lparr>lt_deadline := ticker (lt_deadline l) t0, lt_phase := BackingOff (t0 + ?p * IDLE_BACKOFF_MULTIPLIER)\<rparr>"
  let ?u = "t0 + idle_pause S"
  have u: "t0 + ?p * IDLE_BACKOFF_MULTIPLIER = ?u" by (simp add: IDLE_BACKOFF_MULTIPLIER_def)
  have "keeper_loop_step ticker S c t0 (l, sw) (?l1, sw)"
    using keeper_loop_step.keeper_tick [of l t0 ticker S c sw] assms(2,3) due by simp
  then have "keeper_timeline ticker S c (t0, (l, sw)) (t0, (?l1, sw))" by (rule keeper_timeline.step [OF keeper_timeline.still])
  then have 1: "keeper_timeline ticker S c (t0, (l, sw)) (?u, (?l1, sw))" by (rule keeper_timeline.elapse) simp
  have "keeper_loop_step ticker S c ?u (?l1, sw) (?l1\<lparr>lt_phase := Running ?u\<rparr>, sw)"
    by (rule keeper_loop_step.keeper_slept [where t = ?u]) (simp_all add: u)
  from keeper_timeline.step [OF 1 this] have "keeper_timeline ticker S c (t0, (l, sw)) (?u, (?l1\<lparr>lt_phase := Running ?u\<rparr>, sw))" .
  moreover have "ticker (lt_deadline l) t0 \<le> ?u" using delay_tickerD(2) [OF assms(1) due] by simp
  ultimately show "\<exists>l'. keeper_timeline ticker S c (t0, (l, sw)) (?u, (l', sw))
         \<and> lt_phase l' = Running ?u \<and> lt_deadline l' \<le> ?u" by fastforce
qed

theorem idle_keeper_pauses_four_intervals_witness:
  "\<exists>l'. keeper_timeline sample_ticker sample_system False
       (9000, (\<lparr>lt_deadline = 6000, lt_phase = Waiting, lt_idle = True\<rparr>, (app_state_new, ([], 0, 0)))) (13000, (l', (app_state_new, ([], 0, 0))))
     \<and> lt_phase l' = Running 13000 \<and> lt_deadline l' \<le> 13000"
proof -
  have "delay_ticker (cf_keeper_loop_interval_ms (sy_config sample_system)) sample_ticker"
    by (simp add: sample_interval sample_ticker)
  from idle_keeper_pauses_four_intervals [OF this, where l = "\<lparr>lt_deadline = 6000, lt_phase = Waiting, lt_idle = True\<rparr>"
      and c = False and ?t0.0 = 9000 and sw = "(app_state_new, ([], 0, 0))"]
  show ?thesis by (simp add: sample_interval)
qed

end
