(* ===== verification/Oracle_Service.thy ===== *)
theory Oracle_Service
  imports Oracle_Loops Oracle_Price_Props Oracle_Http_Props Oracle_Main
begin

text \<open>
  The whole service: both loops, the HTTP requests, the shutdown token and time over one shared
  state, and what its supervision makes of a shutdown.
\<close>

section \<open>A request only writes\<close>

lemma app_writes_map_action [writing]: "app_writes S m \<Longrightarrow> app_writes S (map_action g m)"
  unfolding map_action_def by (intro writing)

lemma app_writes_map_err [writing]: "app_writes S m \<Longrightarrow> app_writes S (map_err_action g m)"
  by (simp add: app_writes_def map_err_action_def split_beta)

lemma app_writes_reading [writing]: "app_writes S (reading g)"
  by (simp add: app_writes_def reading_def)

lemma app_writes_metrics_handler [writing]: "app_writes S (metrics_handler lib S)"
  by (simp add: app_writes_def metrics_handler_def split_beta)

lemma app_writes_login [writing]: "app_writes S (admin_auth S rq)"
  by (rule app_writesI) (rule writes_login)

lemma app_writes_clear [writing]: "app_writes S (clear_handler rq)"
proof (rule app_writesI)
  fix s w x s' w'
  assume "clear_handler rq (s, w) = (x, (s', w'))"
  then have "clear_blacklisted_key (rr_key rq) s = (fst (clear_blacklisted_key (rr_key rq) s), s')"
    by (auto simp: clear_handler_def split: prod.splits)
  then show "writes S s s'" by (rule writes_clear)
qed

lemma app_writes_probe [writing]: "app_writes S (balance_probe S)"
  by (rule app_writesI) (auto simp: balance_probe_def split: prod.splits intro: single_write.flag_balance)

text \<open>Retrying keeps the state within what its writes can reach.\<close>

lemma app_writes_retry:
  assumes "app_writes S m"
  shows "app_writes S (retry_with_backoff (lift_env env) retryable m n b mx)"
proof -
  have "writes S s (fst (snd (retry_loop (lift_env env) retryable m mx k d (s, w))))" for k d s w
    by (rule retry_loop_invariant [where I = "\<lambda>x. writes S s (fst x)"])
      (auto simp: lift_env_def split_beta intro: rtranclp_trans assms [unfolded app_writes_def, rule_format])
  then show ?thesis by (simp add: app_writes_def retry_with_backoff_def)
qed

lemma app_writes_ready_probe:
  assumes "app_writes S m"
  shows "app_writes S (retry_ready_probe (lift_env env) m terminal)"
proof -
  have "writes S s (fst (snd (ready_probe_loop (lift_env env) m terminal k n (s, w))))" for k n s w
  proof (induction n arbitrary: k s w)
    case (Suc n)
    obtain r s1 w1 where m: "m (s, w) = (r, (s1, w1))" by (metis prod.exhaust)
    from app_writesD [OF assms m] have 1: "writes S s s1" .
    then show ?case using m rtranclp_trans [OF 1 Suc.IH] by (cases r) (simp_all add: lift_env_def)
  qed simp
  then show ?thesis by (simp add: app_writes_def retry_ready_probe_def)
qed

lemma app_writes_retried_balance [writing]: "app_writes S (retried_balance S)"
  unfolding retried_balance_def by (intro app_writes_retry app_writes_probe)

lemma app_writes_keeper_balance [writing]: "app_writes S (keeper_balance S)"
  by (rule app_writesI)
    (auto simp: keeper_balance_def Let_def split: prod.splits outcome.splits rpc_error.splits
      dest!: app_writesD [OF app_writes_retried_balance])

lemma app_writes_oracle_status [writing]: "app_writes S (oracle_status S)"
  by (rule app_writesI)
    (auto simp: oracle_status_def Let_def split: prod.splits outcome.splits
      dest!: app_writesD [OF app_writes_retried_balance])

lemma app_writes_checks [writing]: "app_writes S (perform_external_ready_checks S)"
  unfolding perform_external_ready_checks_def by (intro writing app_writes_ready_probe)

lemma app_writes_external_ready [writing]: "app_writes S (external_ready S)"
  by (rule app_writesI)
    (auto simp: external_ready_def split: prod.splits outcome.splits option.splits
      dest!: app_writesD [OF app_writes_checks] intro: rtranclp.rtrancl_into_rtrancl single_write.cache_verdict)

lemma app_writes_ready [writing]: "app_writes S (ready S)"
proof -
  have k: "app_writes S (bind_action (lift_snd (check_loop S a b c)) (\<lambda>_.
      bind_action (lift_snd (check_loop S a' b' c')) (\<lambda>_. external_ready S)))" for a b c a' b' c'
    by (intro writing)
  show ?thesis by (rule app_writesI) (auto simp: ready_def split: if_splits dest!: app_writesD [OF k])
qed

lemma app_writes_handler [writing]: "app_writes S (handler lib S path rq)"
proof -
  have "app_writes S (admin_handler lib S path rq)"
    unfolding admin_handler_def by (simp split: if_split add: writing)
  moreover have "app_writes S (public_handler lib S path)"
    unfolding public_handler_def by (simp split: if_split add: writing)
  ultimately show ?thesis unfolding handler_def by (simp split: if_split add: writing)
qed

lemma writes_dispatch: "dispatch lib S rq (s, w) = (rp, (s', w')) \<Longrightarrow> writes S s s'"
proof -
  have route: "run_route lib S path rq (s, w) = (rp, (s', w')) \<Longrightarrow> writes S s s'" for path rp s' w'
    by (auto simp: run_route_def split: option.splits if_splits prod.splits dest!: app_writesD [OF app_writes_handler])
  show "dispatch lib S rq (s, w) = (rp, (s', w')) \<Longrightarrow> writes S s s'"
    by (auto simp: dispatch_def split: option.splits if_splits prod.splits dest: route)
qed

lemma writes_serve:
  assumes "serve lib S rq (s, w) = (rp, (s', w'))"
  shows "writes S s s'"
proof -
  obtain op s1 w1 where b: "begin_request S rq (s, w) = (op, (s1, w1))" by (metis prod.exhaust)
  obtain rp2 s2 w2 where d: "dispatch lib S rq (s1, w1) = (rp2, (s2, w2))" by (metis prod.exhaust)
  have "writes S s s1"
    using b by (auto simp: begin_request_def split: prod.splits intro: single_write.count_metrics)
  moreover have "writes S s1 s2" by (rule writes_dispatch [OF d])
  moreover have "writes S s2 s'"
    using assms b d by (auto simp: serve_def track_metrics_def finish_request_def split: prod.splits
        intro: single_write.count_metrics)
  ultimately show ?thesis by simp
qed

lemma writes_timed_out_ready:
  "timed_out_external_ready S (s, w) = (r, (s', w')) \<Longrightarrow> writes S s s'"
  by (auto simp: timed_out_external_ready_def Let_def split: prod.splits intro: single_write.cache_verdict)

section \<open>The running service\<close>

record runtime =
  rt_price_ticker :: ticker
  rt_keeper_ticker :: ticker
  rt_http :: http_lib
  rt_formats :: formats

record 'w service =
  sv_now :: nat
  sv_cancelled :: bool
  sv_price :: loop_task
  sv_keeper :: loop_task
  sv_app :: app_state
  sv_world :: 'w

definition service_start :: "nat \<Rightarrow> 'w \<Rightarrow> 'w service" where
  "service_start now w =
     \<lparr>sv_now = now, sv_cancelled = False, sv_price = loop_start now, sv_keeper = loop_start now,
      sv_app = app_state_new, sv_world = w\<rparr>"

text \<open>
  Time passes, the token is cancelled by a signal or by the supervision, a loop takes a step, or a
  request is answered, dropped where it waits, or answered by the limit on the readiness checks.
\<close>

inductive service_moves :: "runtime \<Rightarrow> 'w system \<Rightarrow> 'w service \<Rightarrow> 'w service \<Rightarrow> bool" for R S where
  time_passes: "sv_now v \<le> t \<Longrightarrow> service_moves R S v (v\<lparr>sv_now := t, sv_world := w\<rparr>)"
| shut_down: "service_moves R S v (v\<lparr>sv_cancelled := True\<rparr>)"
| price_moves: "price_loop_step (rt_price_ticker R) S (rt_formats R) (sv_cancelled v) (sv_now v)
      (sv_price v, (sv_app v, sv_world v)) (l, (s, w))
    \<Longrightarrow> service_moves R S v (v\<lparr>sv_price := l, sv_app := s, sv_world := w\<rparr>)"
| keeper_moves: "keeper_loop_step (rt_keeper_ticker R) S (sv_cancelled v) (sv_now v)
      (sv_keeper v, (sv_app v, sv_world v)) (l, (s, w))
    \<Longrightarrow> service_moves R S v (v\<lparr>sv_keeper := l, sv_app := s, sv_world := w\<rparr>)"
| request: "serve (rt_http R) S rq (sv_app v, sv_world v) = (rp, (s, w))
    \<Longrightarrow> service_moves R S v (v\<lparr>sv_app := s, sv_world := w\<rparr>)"
| request_dropped: "writes S (sv_app v) s \<Longrightarrow> service_moves R S v (v\<lparr>sv_app := s, sv_world := w\<rparr>)"
| ready_cut: "writes S (sv_app v) s \<Longrightarrow> timed_out_external_ready S (s, w) = (r, (s', w'))
    \<Longrightarrow> service_moves R S v (v\<lparr>sv_app := s', sv_world := w'\<rparr>)"

inductive service_reaches :: "runtime \<Rightarrow> 'w system \<Rightarrow> 'w service \<Rightarrow> bool" for R S where
  begins: "service_reaches R S (service_start now w)"
| goes_on: "service_reaches R S v \<Longrightarrow> service_moves R S v v' \<Longrightarrow> service_reaches R S v'"

inductive_cases service_movesE: "service_moves R S v v'"
inductive_simps service_reaches_iff: "service_reaches R S v"

lemma service_moves_writes:
  assumes "service_moves R S v v'" and "cache_valid S (sv_app v)"
  shows "writes S (sv_app v) (sv_app v')"
  using assms(1)
proof (cases rule: service_moves.cases)
  case (price_moves l s w)
  from price_loop_writes [OF price_moves(2)] assms(2) show ?thesis by (simp add: price_moves(1))
next
  case (keeper_moves l s w)
  from keeper_loop_writes [OF keeper_moves(2)] show ?thesis by (simp add: keeper_moves(1))
next
  case (request rq rp s w)
  from writes_serve [OF request(2)] show ?thesis by (simp add: request(1))
next
  case (ready_cut s w r s' w')
  from rtranclp_trans [OF ready_cut(2) writes_timed_out_ready [OF ready_cut(3)]] show ?thesis by (simp add: ready_cut(1))
qed simp_all

lemma service_reaches_writes: "service_reaches R S v \<Longrightarrow> writes S app_state_new (sv_app v)"
proof (induction rule: service_reaches.induct)
  case (begins now w)
  then show ?case by (simp add: service_start_def)
next
  case (goes_on v v')
  have "cache_valid S (sv_app v)" using writes_inv [OF goes_on.IH write_inv_new] by (simp add: write_inv_def)
  from service_moves_writes [OF goes_on.hyps(2) this] goes_on.IH show ?case by simp
qed

lemma stopped_when_cancelled:
  "price_loop_step ticker S F c now x y \<Longrightarrow> lt_phase (fst y) = Stopped \<Longrightarrow> c"
  "keeper_loop_step ticker S c now x y \<Longrightarrow> lt_phase (fst y) = Stopped \<Longrightarrow> c"
  by (auto elim!: price_loop_step.cases keeper_loop_step.cases split: if_splits)

text \<open>A loop has only stopped after the token was cancelled.\<close>

lemma service_reaches_stopped:
  "service_reaches R S v \<Longrightarrow> lt_phase (sv_price v) = Stopped \<or> lt_phase (sv_keeper v) = Stopped \<Longrightarrow> sv_cancelled v"
proof (induction rule: service_reaches.induct)
  case (begins now w)
  then show ?case by (simp add: service_start_def loop_start_def)
next
  case (goes_on v v')
  from goes_on.hyps(2) show ?case
  proof (cases rule: service_moves.cases)
    case (price_moves l s w)
    then show ?thesis using goes_on.prems goes_on.IH stopped_when_cancelled(1) [OF price_moves(2)] by auto
  next
    case (keeper_moves l s w)
    then show ?thesis using goes_on.prems goes_on.IH stopped_when_cancelled(2) [OF keeper_moves(2)] by auto
  qed (use goes_on.prems goes_on.IH in auto)
qed

section \<open>What holds while the service runs\<close>

text \<open>A service whose price loop has run its first cycle.\<close>

definition sample_runtime :: runtime where
  "sample_runtime = \<lparr>rt_price_ticker = sample_ticker, rt_keeper_ticker = sample_ticker, rt_http = sample_http,
     rt_formats = plain\<rparr>"

definition priced_service :: "script service" where
  "priced_service =
     \<lparr>sv_now = 0, sv_cancelled = False, sv_price = \<lparr>lt_deadline = 1000, lt_phase = Waiting, lt_idle = False\<rparr>,
      sv_keeper = loop_start 0, sv_app = fst fixed_finished, sv_world = snd fixed_finished\<rparr>"

lemma priced_service_reached: "service_reaches sample_runtime fixed_system priced_service"
proof -
  let ?v0 = "service_start 0 fixed_world"
  let ?l = "\<lparr>lt_deadline = 1000, lt_phase = Running 0, lt_idle = False\<rparr>"
  let ?v1 = "?v0\<lparr>sv_price := ?l, sv_app := app_state_new, sv_world := fixed_world\<rparr>"
  have "price_loop_step sample_ticker fixed_system plain False 0 (loop_start 0, (app_state_new, fixed_world))
      (?l, (app_state_new, fixed_world))"
    using price_loop_step.price_tick [of "loop_start 0" 0 sample_ticker fixed_system plain False "(app_state_new, fixed_world)"]
    by (simp add: loop_start_def sample_ticker_def)
  then have "service_moves sample_runtime fixed_system ?v0 ?v1"
    by (intro service_moves.price_moves) (simp add: service_start_def sample_runtime_def)
  then have 1: "service_reaches sample_runtime fixed_system ?v1" by (rule service_reaches.goes_on [OF service_reaches.begins])
  have "price_loop_step sample_ticker fixed_system plain False 0 (?l, (app_state_new, fixed_world))
      (?l\<lparr>lt_phase := Waiting\<rparr>, (fst fixed_finished, snd fixed_finished))"
    using price_loop_step.price_cycle [of ?l 0 fixed_system plain "(app_state_new, fixed_world)" "Ok ()" fixed_finished]
      fixed_run by simp
  then have "service_moves sample_runtime fixed_system ?v1 (?v1\<lparr>sv_price := ?l\<lparr>lt_phase := Waiting\<rparr>,
      sv_app := fst fixed_finished, sv_world := snd fixed_finished\<rparr>)"
    by (intro service_moves.price_moves) (simp add: service_start_def sample_runtime_def)
  from service_reaches.goes_on [OF 1 this] show ?thesis by (simp add: priced_service_def service_start_def)
qed

text \<open>
  C2: However the loops and the requests interleave, wherever a cycle over its budget or overtaken
  by the shutdown is dropped: the logs stay within their bounds, every cached price is signed and
  aggregated for its token, only keys that failed too often are marked as abandoned, and neither
  loop has stopped before the token was cancelled.
\<close>

theorem running_service_invariant:
  assumes "service_reaches R S v"
  shows "write_inv S (sv_app v)
    \<and> (sv_cancelled v \<or> lt_phase (sv_price v) \<noteq> Stopped \<and> lt_phase (sv_keeper v) \<noteq> Stopped)"
  using writes_inv [OF service_reaches_writes [OF assms] write_inv_new] service_reaches_stopped [OF assms] by blast

theorem running_service_invariant_witness:
  "write_inv fixed_system (fst fixed_finished) \<and> lt_phase (sv_price priced_service) \<noteq> Stopped"
  using running_service_invariant [OF priced_service_reached] by (simp add: priced_service_def)

text \<open>
  C1: In every state the running service reaches from its start, however its cycles and requests
  interleave and wherever one is dropped, and for tokens with distinct lookup keys, as every
  accepted token list has them: each price a submission would publish is that of the configured
  token it is kept for, observed within the freshness window of that token, aggregated from
  positive prices of its sources and signed with the key of this keeper over the published fields.
\<close>

theorem published_price_always_fresh_and_signed:
  assumes "service_reaches R S v" and "distinct (map lookup_key (cf_tokens (sy_config S)))"
    and "bt_get (fresh_prices (cf_tokens (sy_config S)) now (pc_prices (st_price_cache (sv_app v)))) k = Some p"
  shows "price_signed S p \<and> (\<exists>token \<in> set (cf_tokens (sy_config S)). lookup_key token = k \<and> aggregated_for token p
    \<and> cp_timestamp p \<le> now \<and> now - cp_timestamp p < tc_stale_after_seconds token)"
  using writes_inv [OF service_reaches_writes [OF assms(1)] write_inv_new]
  by (intro fresh_entry [OF _ assms(2,3)]) (simp add: write_inv_def cache_valid_def)

theorem published_price_always_fresh_and_signed_witness:
  "price_signed fixed_system fixed_cached \<and> (\<exists>token \<in> set (cf_tokens (sy_config fixed_system)).
    lookup_key token = lookup_key fixed_token \<and> aggregated_for token fixed_cached
    \<and> cp_timestamp fixed_cached \<le> 1700000010
    \<and> 1700000010 - cp_timestamp fixed_cached < tc_stale_after_seconds token)"
proof (rule published_price_always_fresh_and_signed [OF priced_service_reached])
  show "distinct (map lookup_key (cf_tokens (sy_config fixed_system)))" by (simp add: fixed_system_def)
  show "bt_get (fresh_prices (cf_tokens (sy_config fixed_system)) 1700000010
      (pc_prices (st_price_cache (sv_app priced_service)))) (lookup_key fixed_token) = Some fixed_cached"
    using fixed_published by (simp add: priced_service_def)
qed

section \<open>Shutting down\<close>

text \<open>
  C11: When a signal asks the service to stop and both of its loops then end within the drain
  limit, the process ends exactly when the later of them has ended, whenever the server has
  answered the requests in flight, if ever. So requests still open by then are cut short: when a
  loop ends before they are answered, the supervision takes it for an unexpected end and no longer
  waits for the server.
\<close>

theorem shutdown_cuts_requests_short:
  assumes "tk_signal R = Some t" and "tk_price R (Some t) = Some (p, Returned)"
    and "tk_keeper R (Some t) = Some (k, Returned)"
    and "\<forall>d e. tk_server R (Some t) = Some (d, e) \<longrightarrow> t \<le> d \<and> e = ServerDrained"
    and "t \<le> p" and "t \<le> k" and "p < drain_timeout_ms" and "k < drain_timeout_ms" and "selected R b"
  shows "main_end R b = \<lparr>en_at = max p k, en_exit_code = 0, en_aborted = False\<rparr>
    \<and> ((\<exists>task. b = (min p k, TaskEnded task Returned))
      \<or> (\<exists>d. tk_server R (Some t) = Some (d, ServerDrained) \<and> d \<le> min p k))"
proof -
  let ?s = "server_branch (tk_server R (Some t))"
  have branches: "branches R = [(p, TaskEnded PriceTask Returned), (k, TaskEnded KeeperTask Returned), ?s]"
    by (simp add: branches_def task_branch_def assms(1-3))
  consider "b = (p, TaskEnded PriceTask Returned)" "p \<le> k" | "b = (k, TaskEnded KeeperTask Returned)" "k \<le> p"
    | "b = ?s" "fst ?s \<le> p" "fst ?s \<le> k"
    using assms(9) unfolding selected_def branches by auto
  then show ?thesis
  proof cases
    case 1
    have "drained_at R p (TaskEnded PriceTask Returned) = Some k"
      using assms(1,3,5) by (simp add: drained_at_def cancelled_at_def joined_def min_def)
    then show ?thesis using 1 assms(8) by (auto simp: main_end_def)
  next
    case 2
    have "drained_at R k (TaskEnded KeeperTask Returned) = Some p"
      using assms(1,2,6) by (simp add: drained_at_def cancelled_at_def joined_def min_def)
    then show ?thesis using 2 assms(7) by (auto simp: main_end_def)
  next
    case 3
    then obtain d where server: "tk_server R (Some t) = Some (d, ServerDrained)" and d: "t \<le> d" "d \<le> drain_timeout_ms"
      using assms(4,7) by (cases "tk_server R (Some t)") (auto simp: server_branch_def with_timeout_def split: if_splits)
    have s: "?s = (d, ServerEnded ServerDrained)" using server d(2) by (simp add: server_branch_def with_timeout_def)
    have "drained_at R d (ServerEnded ServerDrained) = Some (max p k)"
      using assms(1-3) d(1) by (simp add: drained_at_def cancelled_at_def joined_def min_def)
    then show ?thesis using 3 s server assms(7,8) by (auto simp: main_end_def)
  qed
qed

definition stopped_early :: tasks where
  "stopped_early = undisturbed\<lparr>tk_signal := Some 100\<rparr>"

definition slow_request :: tasks where
  "slow_request = stopped_early\<lparr>tk_server := \<lambda>c. map_option (\<lambda>t. (t + 900, ServerDrained)) c\<rparr>"

theorem shutdown_cuts_requests_short_witness:
  "main_end slow_request (110, TaskEnded PriceTask Returned) = \<lparr>en_at = 120, en_exit_code = 0, en_aborted = False\<rparr>"
proof -
  have "selected slow_request (110, TaskEnded PriceTask Returned)"
    by (simp add: selected_def branches_def task_branch_def server_branch_def with_timeout_def drain_limit
        slow_request_def stopped_early_def undisturbed_def)
  from shutdown_cuts_requests_short [OF _ _ _ _ _ _ _ _ this, of 100 110 120] show ?thesis
    by (simp add: slow_request_def stopped_early_def undisturbed_def drain_limit)
qed

section \<open>An idle keeper is reported as stale\<close>

abbreviation keeper_interval :: "'w system \<Rightarrow> nat" where
  "keeper_interval S \<equiv> cf_keeper_loop_interval_ms (sy_config S)"

text \<open>
  C13: While the keeper pauses after a cycle that executed nothing, readiness fails: from three
  intervals after that cycle on until the next one starts, at the earliest after the fourth, the
  service answers that its keeper loop is stale, with prices cached and a live price loop.
\<close>

theorem idle_keeper_reported_stale:
  assumes "delay_ticker (keeper_interval S) ticker" and "lt_phase l = Waiting" and "lt_idle l"
    and "keeper_timeline ticker S c (t0, (l, sw)) (t, (l', (s, w)))"
    and "t0 + 3 * keeper_interval S < t" and "t < t0 + 4 * keeper_interval S"
    and "cy_last_keeper_cycle_at (st_cycle_status s) = Some (t0 + epoch)"
    and "pc_prices (st_price_cache s) \<noteq> []"
    and "check_loop S (cy_last_price_cycle_at (st_cycle_status s)) (cf_price_loop_interval_ms (sy_config S)) ''price_loop_stale'' w
      = (Ok (), w1)"
    and "env_system (sy_env S) w1 = (t + epoch, w2)"
  shows "lt_phase l' \<noteq> Running u
    \<and> ready S (s, w) = (Err (api_error_new SERVICE_UNAVAILABLE ''keeper_loop_stale''), (s, w2))"
proof
  show "lt_phase l' \<noteq> Running u"
    using pause_kept_timeline [OF assms(4,2,3)] assms(6) by auto
next
  have "check_loop S (Some (t0 + epoch)) (keeper_interval S) ''keeper_loop_stale'' w1
      = (Err (api_error_new SERVICE_UNAVAILABLE ''keeper_loop_stale''), w2)"
    using assms(5,10) by (simp add: check_loop_def loop_stale_def)
  then show "ready S (s, w) = (Err (api_error_new SERVICE_UNAVAILABLE ''keeper_loop_stale''), (s, w2))"
    using assms(7-9) by (simp add: ready_def bind_action_def lift_snd_simp)
qed

text \<open>Three and a half seconds after an idle cycle, with an interval of one second.\<close>

definition idle_state :: app_state where
  "idle_state = app_state_new\<lparr>
     st_price_cache := (st_price_cache app_state_new)\<lparr>pc_prices := [(''TUSDC'', fixed_cached)]\<rparr>,
     st_cycle_status := (st_cycle_status app_state_new)
       \<lparr>cy_last_price_cycle_at := Some 1700000000000, cy_last_keeper_cycle_at := Some (1700000000000 - 3500)\<rparr>\<rparr>"

theorem idle_keeper_reported_stale_witness:
  "ready sample_system (idle_state, ([], 0, 0))
     = (Err (api_error_new SERVICE_UNAVAILABLE ''keeper_loop_stale''), (idle_state, ([], 0, 0)))"
proof -
  let ?l = "\<lparr>lt_deadline = 6000, lt_phase = Waiting, lt_idle = True\<rparr>"
  have clock: "env_system (sy_env sample_system) v = (1700000000000, v)" for v
    by (simp add: sample_system_def script_env_def)
  have "keeper_timeline sample_ticker sample_system False (9000, (?l, (idle_state, ([], 0, 0))))
      (12500, (?l, (idle_state, ([], 0, 0))))"
    by (rule keeper_timeline.elapse [OF keeper_timeline.still]) simp
  from idle_keeper_reported_stale [OF _ _ _ this, where epoch = "1700000000000 - 12500"
      and ?w1.0 = "([], 0, 0)" and ?w2.0 = "([], 0, 0)"]
  show ?thesis
    by (simp add: sample_interval sample_ticker clock check_loop_def loop_stale_def idle_state_def)
qed

section \<open>The readiness verdict\<close>

text \<open>
  A verdict on the external checks, whether they succeeded, failed or were cut short by their
  limit, answers every further readiness check for three seconds; no request leaves the service and
  its state stays as it is.
\<close>

theorem ready_verdict_repeated:
  assumes "external_ready S (s, w) = (r, (s', w')) \<and> r \<noteq> Panic \<or> timed_out_external_ready S (s, w) = (r, (s', w'))"
    and "rc_last_checked (st_ready_cache s') = Some checked"
    and "env_instant (sy_env S) v = (now, v')" and "now - checked < READY_CACHE_TTL"
  shows "external_ready S (s', v) = (r, (s', v'))"
proof -
  have verdict: "cached_ready (st_ready_cache s') now = Some r"
    using assms(1)
  proof
    assume a: "external_ready S (s, w) = (r, (s', w')) \<and> r \<noteq> Panic"
    have stored: "st_ready_cache s' = \<lparr>rc_last_checked = Some c, rc_last_error = ready_error r\<rparr> \<Longrightarrow> ?thesis" for c
      using assms(2,4) a by (cases r) (auto simp: cached_ready_def api_error_new_def)
    show ?thesis
      using a stored assms(2,4)
      by (auto simp: external_ready_def split: prod.splits option.splits outcome.splits)
        (auto simp: cached_ready_def split: option.splits if_splits)
  next
    assume "timed_out_external_ready S (s, w) = (r, (s', w'))"
    then show ?thesis
      using assms(2,4) by (auto simp: timed_out_external_ready_def Let_def cached_ready_def api_error_new_def split: prod.splits)
  qed
  then show ?thesis using assms(2,3) by (simp add: external_ready_def)
qed

end
