(* ===== verification/Spec2Isabelle.thy ===== *)
theory Spec2Isabelle
  imports Oracle_Price_Spec Oracle_Submit_Spec Oracle_Cycle_Props Oracle_Price_Props Oracle_Api_Props
    Oracle_Config_Props Oracle_Http_Props Oracle_Main Oracle_Service
begin

text \<open>
  A model of the SO4 price oracle and keeper (\<^verbatim>\<open>src/oracle\<close>, a Rust service for the Stellar
  network) and of the configuration library it shares (\<^verbatim>\<open>src/shared/config\<close>). File names below are
  relative to \<^verbatim>\<open>src/oracle/src\<close>; definitions carry the names of the Rust items they translate.

  The program. Two loops run over one shared state. The price loop asks every configured source for
  every token, aggregates the answers, signs the result and keeps it in a cache. The keeper loop
  takes the fresh entries of that cache, publishes them on chain when they moved enough, reads the
  pending orders, deposits and withdrawals from a reader contract and executes them through handler
  contracts; it accounts for failures, freezes or abandons work that keeps failing, and holds keys
  whose transaction may still confirm. An HTTP API serves prices, status, readiness and metrics, and
  lets an administrator lift an abandonment. The environment configures all of it.

  Theories and the code they model.
    \<^item> Oracle_Prelude: outcomes of a computation (a value, an error, a panic), Rust's integer, string
      and number operations. Oracle_F64: binary64 arithmetic as exact rationals with rounding.
      Oracle_Maps: ordered maps, as a locale and its interpretation.
    \<^item> Oracle_Prices (\<^verbatim>\<open>prices.rs\<close>): median, percentile, band, cluster search, outlier filter and
      \<open>aggregate_prices\<close>. Oracle_Cluster and Oracle_Search show that the sliding window finds a
      largest cluster, the earliest of them; Oracle_Band that the band contains the median;
      Oracle_Filter and Oracle_Aggregate that nothing panics within the stated bounds, that
      every source is accounted for and that their order does not matter; Oracle_Price_Spec
      collects the properties.
    \<^item> Oracle_Effects (\<^verbatim>\<open>retry.rs\<close>, \<^verbatim>\<open>http.rs\<close>, the clock of \<^verbatim>\<open>lib.rs\<close>): actions on the outside world and the
      retry loop with its back-off. Oracle_Sources (\<^verbatim>\<open>fixed.rs\<close>, \<^verbatim>\<open>binance.rs\<close>, \<^verbatim>\<open>coinbase.rs\<close>, \<^verbatim>\<open>pyth.rs\<close>):
      the four sources, which share the contract \<open>positive_source\<close>.
    \<^item> Oracle_Rpc (\<^verbatim>\<open>stellar_rpc.rs\<close>, \<^verbatim>\<open>keeper.rs\<close>, \<^verbatim>\<open>submit.rs\<close>): the node's and Horizon's replies, exact
      balances, submission and polling. Oracle_Submit_Spec: what a submission's result says about
      the transaction (which polls leave it undecided, and that a lost poll is taken for final), and
      how long it can take.
    \<^item> Oracle_State (\<^verbatim>\<open>state.rs\<close>, \<^verbatim>\<open>auth.rs\<close>, the record of \<^verbatim>\<open>config.rs\<close>) and Oracle_Metrics (\<^verbatim>\<open>metrics.rs\<close>): the
      shared state with its bounded logs, the login limiter, the counters and their text form.
    \<^item> Oracle_Chain (\<^verbatim>\<open>signing.rs\<close>, \<^verbatim>\<open>chain/scval.rs\<close>, \<^verbatim>\<open>chain/tx_builder.rs\<close>): contract values, the signed
      message, transactions. Oracle_Handler and Oracle_Keeper (\<^verbatim>\<open>keeper_loop.rs\<close>): the contract calls,
      then the whole keeper cycle. Oracle_Keeper_Spec states the account of a key's failures that
      the bookkeeping implements; Oracle_Keeper_Inv has the frames and invariants;
      Oracle_Keeper_Props and Oracle_Cycle_Props the properties of an item and of a cycle.
    \<^item> Oracle_Price_Cycle (\<^verbatim>\<open>price_loop.rs\<close>), its invariants in Oracle_Price_Inv, its properties in
      Oracle_Price_Props. Oracle_Api (\<^verbatim>\<open>api/mod.rs\<close>, \<^verbatim>\<open>api/admin.rs\<close>, \<^verbatim>\<open>api/prices.rs\<close>), with
      Oracle_Api_Props. Oracle_Reachable: the steps of the running service (a keeper cycle, a
      price cycle, a login, a lifted abandonment, time passing) and what holds in every state
      they reach. Oracle_Interleaving goes below whole cycles: \<open>single_write\<close> is one critical section,
      every cycle and request is a sequence of them, and what any such sequence keeps holds
      however the loops and requests interleave and wherever a cycle is dropped. The relation is
      wider than the code where a write depends on an earlier read: it lets any key be abandoned with
      a count of at least the lower limit, since another write may have cleared the count that was
      read; and it stores only valid prices, which the price cycle is proved to do. Oracle_Loops
      (\<open>run_price_loop\<close>, \<open>run_keeper_loop\<close>): the endless loops in time, with their ticker, the pause of an
      idle keeper, the budget of a cycle and the shutdown token. Oracle_Service puts both loops,
      the requests, the shutdown and time together; what it reaches, single writes reach, and so the
      properties of the published prices and the invariant hold for the running service.
    \<^item> Oracle_Config and Oracle_Env (\<^verbatim>\<open>shared/config/src/lib.rs\<close>, \<^verbatim>\<open>config.rs\<close>, \<^verbatim>\<open>network_config.rs\<close>): the token
      list and the environment with their validation. Oracle_Config_Props: exactly the usable
      token lists are accepted, a loaded configuration is valid, its sources can be asked, and
      every missing variable is reported.
    \<^item> Oracle_Http (\<^verbatim>\<open>api/mod.rs\<close>, \<^verbatim>\<open>api/prices.rs\<close>, \<^verbatim>\<open>api/admin.rs\<close>): the routes with their guards, the
      middleware in its order, and requests side by side as a step relation. Oracle_Http_Props:
      what a request can change, with and without the admin token, the cache header and the
      gauge of open requests. Oracle_Main (\<^verbatim>\<open>main.rs\<close>): how the process waits for its tasks and
      ends, and that it ends by itself.

  How code becomes definitions. A function that can fail returns an \<open>outcome\<close>; a panic is a value of
  it, so that overflow checks, index errors and \<^verbatim>\<open>unwrap\<close> are branches. Integers are \<open>int\<close> or \<open>nat\<close> with every
  check, saturation or wrap of the source written out; the sizes that matter are \<open>i128\<close> prices and
  \<open>u64\<close> times. The metrics and summary counters are \<open>nat\<close> and do not wrap. Strings are lists of bytes; case folding and
  white space are those of ASCII. A system time is in milliseconds, a monotonic instant in
  nanoseconds. An action takes the outside world (the type variable \<open>'w\<close>) and returns its result with
  the world after it; HTTP, the clocks and random numbers are fields of an environment record, so
  nothing is assumed of them. JSON, XDR, strkeys, hex, hashes and signatures come from
  libraries that are not part of the source; they are record fields as well. Every lock of the
  state guards one field, so a critical section is one record update.

  Loops and bounds. The retry loop takes its number of attempts as an argument and stops after it;
  polling makes the six attempts of the source; the snapshot of the status makes its eight; all
  other loops run over a list. No fuel is added to the code's own bounds.

  Order of effects. Requests that the code joins (the three reader calls of a keeper cycle, the
  tokens and the sources of a price cycle) run in the order they are written. The sweep of
  expired keys reads the clock once where the code reads it per key. A cycle is one step of
  \<open>reachable\<close> and of the running service; one that is dropped, by its time limit or by a shutdown,
  leaves any state that single writes lead to, and those keep the logs and the cached prices
  (\<open>write_inv\<close>) but not the bound on a key's failure count: a cycle dropped while it freezes a broken
  order has counted the failure and not yet abandoned the key, and the next failure does. The
  ticker of a loop is the runtime's; all that is assumed of it is that with delayed ticks the next
  deadline lies in the future, one period after the last and at most one ahead (\<open>delay_ticker\<close>).

  Damaged spots of the source. In \<^verbatim>\<open>config.rs\<close> (line 659) the arm for fixed sources is not closed and is
  followed by an older one: the first, which parses the price, is modelled. In \<^verbatim>\<open>api/prices.rs\<close> (line
  184) the response of \<open>ready\<close> is cut off and repeated: the fields that the struct declares are
  modelled.

  Not modelled. Reading \<^verbatim>\<open>.env\<close>, the tracing subscriber and the socket of \<^verbatim>\<open>main.rs\<close> (its
  supervision takes the times at which things end as input); path matching, JSON, request
  identifiers, tracing and the concurrency limit of the HTTP framework; log output; and the test
  modules. Wiping secrets from memory has no counterpart.
\<close>

end
